theory Spec2Isabelle
  imports Complex_Main
begin

section \<open>URL construction (\<open>toURL\<close> in the API client)\<close>

text \<open>
  The client's \<open>toURL\<close>:
  \<^verbatim>\<open>
  function toURL(input: string): string {
    if (/^[a-z][a-z0-9+.-]*:\/\//i.test(input)) return input;
    const base = BASE_URL.replace(/\/+$/, "");
    const path = input.replace(/^\/+/, "");
    return `${base}/${path}`;
  }
  \<close>
  The regular expression is anchored at the start and case-insensitive: one ASCII letter,
  then the longest run of letters, digits, \<open>+\<close>, \<open>.\<close>, \<open>-\<close>, then the three
  characters \<open>://\<close>. The colon is not in the class, so the greedy run never has to
  give characters back. \<open>BASE_URL\<close> is configuration and is passed as the parameter
  \<open>base\<close>.
\<close>

definition isSchemeStart :: "char \<Rightarrow> bool" where
  "isSchemeStart c \<longleftrightarrow>
     c \<in> set ''abcdefghijklmnopqrstuvwxyzABCDEFGHIJKLMNOPQRSTUVWXYZ''"

definition isSchemeChar :: "char \<Rightarrow> bool" where
  "isSchemeChar c \<longleftrightarrow> isSchemeStart c \<or> c \<in> set ''0123456789+.-''"

definition isAbsoluteURI :: "string \<Rightarrow> bool" where
  "isAbsoluteURI input =
     (case input of
        [] \<Rightarrow> False
      | c # cs \<Rightarrow> isSchemeStart c \<and> take 3 (dropWhile isSchemeChar cs) = ''://'')"

definition isSlash :: "char \<Rightarrow> bool" where
  "isSlash c \<longleftrightarrow> c = CHR ''/''"

definition stripTrailingSlashes :: "string \<Rightarrow> string" where
  "stripTrailingSlashes s = rev (dropWhile isSlash (rev s))"

definition stripLeadingSlashes :: "string \<Rightarrow> string" where
  "stripLeadingSlashes s = dropWhile isSlash s"

definition toURL :: "string \<Rightarrow> string \<Rightarrow> string" where
  "toURL base input =
     (if isAbsoluteURI input then input
      else stripTrailingSlashes base @ ''/'' @ stripLeadingSlashes input)"

section \<open>JavaScript values\<close>

text \<open>
  A JavaScript \<open>number\<close> is a finite value (kept exact, as a rational), \<open>NaN\<close> or an
  infinity. \<open>json\<close> is a parsed response body or any other dynamically typed value; a
  missing property (\<open>undefined\<close>) is \<open>None\<close> at the places that read one.
\<close>

datatype jsnum = Fin rat | NaN | PosInf | NegInf

datatype json =
    JNull
  | JBool bool
  | JNum jsnum
  | JStr string
  | JArr "json list"
  | JObj "(string \<times> json) list"

text \<open>
  Everything the code can throw. \<open>APIError message status url data\<close> is the client's own
  error class; \<open>Error message\<close> is a plain \<open>new Error(message)\<close>; the others come from
  the platform (blocked storage, a failed or aborted request, a body that cannot be read).
\<close>

datatype exn =
    StorageError
  | NetworkError
  | AbortError
  | BodyReadError
  | APIError string int string "json option"
  | Error string

text \<open>\<open>if (s)\<close> on a string: the empty string is falsy.\<close>

definition truthy :: "string \<Rightarrow> bool" where
  "truthy t \<longleftrightarrow> t \<noteq> []"

definition upperChar :: "char \<Rightarrow> char" where
  "upperChar c =
     (case map_of (zip ''abcdefghijklmnopqrstuvwxyz'' ''ABCDEFGHIJKLMNOPQRSTUVWXYZ'') c of
        Some d \<Rightarrow> d | None \<Rightarrow> c)"

definition lowerChar :: "char \<Rightarrow> char" where
  "lowerChar c =
     (case map_of (zip ''ABCDEFGHIJKLMNOPQRSTUVWXYZ'' ''abcdefghijklmnopqrstuvwxyz'') c of
        Some d \<Rightarrow> d | None \<Rightarrow> c)"

definition toUpperCase :: "string \<Rightarrow> string" where
  "toUpperCase s = map upperChar s"

definition toLowerCase :: "string \<Rightarrow> string" where
  "toLowerCase s = map lowerChar s"

text \<open>Decimal rendering of a status code, for the message \<open>`HTTP ${res.status}`\<close>.\<close>

definition digitChar :: "nat \<Rightarrow> char" where
  "digitChar d = ''0123456789'' ! (d mod 10)"

fun decimal :: "nat \<Rightarrow> string" where
  "decimal n = (if n < 10 then [digitChar n] else decimal (n div 10) @ [digitChar (n mod 10)])"

declare decimal.simps [simp del]

definition showInt :: "int \<Rightarrow> string" where
  "showInt i = (if i < 0 then ''-'' @ decimal (nat (- i)) else decimal (nat i))"

section \<open>Token store (\<open>src/lib/secure-store.ts\<close>)\<close>

text \<open>
  The module keeps the access token in one of three backings: Expo SecureStore on native
  platforms, a module variable \<open>inMemoryToken\<close> on the web, and the browser's
  \<open>sessionStorage\<close> when \<open>WEB_PERSIST\<close> is set. The record below is the module state
  together with the platform it runs on. \<open>ssReadThrows\<close>, \<open>ssWriteThrows\<close>,
  \<open>ksReadThrows\<close>, \<open>ksWriteThrows\<close> and \<open>probe\<close> say how the platform's storage
  behaves when it is called (blocked storage, a failing keychain): they are the inputs of
  every \<open>try\<close>/\<open>catch\<close> of the source. \<open>broadcasts\<close> lists the values posted on the
  BroadcastChannel (\<open>bc\<close> tells whether the channel was created).
\<close>

datatype probe_result = ProbeYes | ProbeNo | ProbeThrows

record store =
  isWeb :: bool
  WEB_PERSIST :: bool
  hasWindow :: bool
  inMemoryToken :: "string option"
  sessionStorage :: "string \<Rightarrow> string option"
  ssReadThrows :: bool
  ssWriteThrows :: bool
  secureStoreChecked :: bool
  secureStoreIsAvailable :: bool
  probe :: probe_result
  keychain :: "string \<Rightarrow> string option"
  ksReadThrows :: bool
  ksWriteThrows :: bool
  bc :: bool
  broadcasts :: "string option list"

definition ACCESS_TOKEN_KEY :: string where
  "ACCESS_TOKEN_KEY = ''access_token_v1''"

text \<open>The platform calls. Each either throws (\<open>Inl\<close>) or returns.\<close>

definition sessionStorage_getItem :: "string \<Rightarrow> store \<Rightarrow> exn + string option" where
  "sessionStorage_getItem key s =
     (if ssReadThrows s then Inl StorageError else Inr (sessionStorage s key))"

definition sessionStorage_setItem :: "string \<Rightarrow> string \<Rightarrow> store \<Rightarrow> exn + store" where
  "sessionStorage_setItem key v s =
     (if ssWriteThrows s then Inl StorageError
      else Inr (s\<lparr>sessionStorage := (sessionStorage s)(key \<mapsto> v)\<rparr>))"

definition sessionStorage_removeItem :: "string \<Rightarrow> store \<Rightarrow> exn + store" where
  "sessionStorage_removeItem key s =
     (if ssWriteThrows s then Inl StorageError
      else Inr (s\<lparr>sessionStorage := (sessionStorage s)(key := None)\<rparr>))"

definition SecureStore_isAvailableAsync :: "store \<Rightarrow> exn + bool" where
  "SecureStore_isAvailableAsync s =
     (case probe s of ProbeYes \<Rightarrow> Inr True | ProbeNo \<Rightarrow> Inr False
      | ProbeThrows \<Rightarrow> Inl StorageError)"

definition SecureStore_getItemAsync :: "string \<Rightarrow> store \<Rightarrow> exn + string option" where
  "SecureStore_getItemAsync key s =
     (if ksReadThrows s then Inl StorageError else Inr (keychain s key))"

definition SecureStore_setItemAsync :: "string \<Rightarrow> string \<Rightarrow> store \<Rightarrow> exn + store" where
  "SecureStore_setItemAsync key v s =
     (if ksWriteThrows s then Inl StorageError
      else Inr (s\<lparr>keychain := (keychain s)(key \<mapsto> v)\<rparr>))"

definition SecureStore_deleteItemAsync :: "string \<Rightarrow> store \<Rightarrow> exn + store" where
  "SecureStore_deleteItemAsync key s =
     (if ksWriteThrows s then Inl StorageError
      else Inr (s\<lparr>keychain := (keychain s)(key := None)\<rparr>))"

text \<open>
  \<^verbatim>\<open>
  async function secureStoreAvailable(): Promise<boolean> {
    if (secureStoreChecked) return secureStoreIsAvailable;
    try { secureStoreIsAvailable = !!(await SecureStore.isAvailableAsync()); }
    catch { secureStoreIsAvailable = false; }
    finally { secureStoreChecked = true; }
    return secureStoreIsAvailable;
  }
  \<close>
\<close>

definition secureStoreAvailable :: "store \<Rightarrow> bool \<times> store" where
  "secureStoreAvailable s =
     (if secureStoreChecked s then (secureStoreIsAvailable s, s)
      else (case SecureStore_isAvailableAsync s of
              Inr b \<Rightarrow> (b, s\<lparr>secureStoreIsAvailable := b, secureStoreChecked := True\<rparr>)
            | Inl e \<Rightarrow> (False, s\<lparr>secureStoreIsAvailable := False, secureStoreChecked := True\<rparr>)))"

text \<open>\<open>broadcastToken\<close>: \<open>try { bc?.postMessage({key, value}) } catch {}\<close>.\<close>

definition broadcastToken :: "string option \<Rightarrow> store \<Rightarrow> store" where
  "broadcastToken v s = (if bc s then s\<lparr>broadcasts := broadcasts s @ [v]\<rparr> else s)"

text \<open>
  \<open>secure.getItemAsync\<close>, \<open>secure.setItemAsync\<close> and \<open>secure.deleteItemAsync\<close>, branch
  by branch. The result is \<open>Inl\<close> where the source would let an exception escape.
\<close>

definition getItemAsync :: "string \<Rightarrow> store \<Rightarrow> (exn + string option) \<times> store" where
  "getItemAsync key s =
     (if isWeb s then
        (if WEB_PERSIST s \<and> hasWindow s then
           (case sessionStorage_getItem key s of
              Inr v \<Rightarrow> (Inr v, s)
            | Inl e \<Rightarrow> (Inr (inMemoryToken s), s))
         else (Inr (inMemoryToken s), s))
      else
        (case secureStoreAvailable s of
           (False, s1) \<Rightarrow> (Inr None, s1)
         | (True, s1) \<Rightarrow>
             (case SecureStore_getItemAsync key s1 of
                Inr v \<Rightarrow> (Inr v, s1)
              | Inl e \<Rightarrow> (Inr None, s1))))"

definition setItemAsync :: "string \<Rightarrow> string option \<Rightarrow> store \<Rightarrow> (exn + unit) \<times> store" where
  "setItemAsync key v s =
     (if isWeb s then
        (let s1 =
           (if WEB_PERSIST s \<and> hasWindow s then
              (case (case v of None \<Rightarrow> sessionStorage_removeItem key s
                             | Some x \<Rightarrow> sessionStorage_setItem key x s) of
                 Inr s' \<Rightarrow> s'\<lparr>inMemoryToken := v\<rparr>
               | Inl e \<Rightarrow> s\<lparr>inMemoryToken := v\<rparr>)
            else s\<lparr>inMemoryToken := v\<rparr>)
         in (Inr (), if key = ACCESS_TOKEN_KEY then broadcastToken v s1 else s1))
      else
        (case secureStoreAvailable s of
           (False, s1) \<Rightarrow> (Inr (), s1)
         | (True, s1) \<Rightarrow>
             (case (case v of None \<Rightarrow> SecureStore_deleteItemAsync key s1
                            | Some x \<Rightarrow> SecureStore_setItemAsync key x s1) of
                Inr s' \<Rightarrow> (Inr (), s')
              | Inl e \<Rightarrow> (Inr (), s1))))"

definition deleteItemAsync :: "string \<Rightarrow> store \<Rightarrow> (exn + unit) \<times> store" where
  "deleteItemAsync key s =
     (if isWeb s then
        (let s1 =
           (if WEB_PERSIST s \<and> hasWindow s then
              (case sessionStorage_removeItem key s of Inr s' \<Rightarrow> s' | Inl e \<Rightarrow> s)
            else s);
             s2 = s1\<lparr>inMemoryToken := None\<rparr>
         in (Inr (), if key = ACCESS_TOKEN_KEY then broadcastToken None s2 else s2))
      else
        (case secureStoreAvailable s of
           (False, s1) \<Rightarrow> (Inr (), s1)
         | (True, s1) \<Rightarrow>
             (case SecureStore_deleteItemAsync key s1 of
                Inr s' \<Rightarrow> (Inr (), s')
              | Inl e \<Rightarrow> (Inr (), s1))))"

definition getAccessToken :: "store \<Rightarrow> (exn + string option) \<times> store" where
  "getAccessToken s = getItemAsync ACCESS_TOKEN_KEY s"

definition setAccessToken :: "string option \<Rightarrow> store \<Rightarrow> (exn + unit) \<times> store" where
  "setAccessToken token s = setItemAsync ACCESS_TOKEN_KEY token s"

definition clearAccessToken :: "store \<Rightarrow> (exn + unit) \<times> store" where
  "clearAccessToken s = deleteItemAsync ACCESS_TOKEN_KEY s"

text \<open>Whether SecureStore counts as available: the cached answer, or else the probe's.\<close>

definition storeAvailable :: "store \<Rightarrow> bool" where
  "storeAvailable s = fst (secureStoreAvailable s)"

text \<open>Three example platforms, used to evaluate the definitions.\<close>

definition webMemoryStore :: store where
  "webMemoryStore =
     \<lparr>isWeb = True, WEB_PERSIST = False, hasWindow = True, inMemoryToken = None,
      sessionStorage = (\<lambda>k. None), ssReadThrows = False, ssWriteThrows = False,
      secureStoreChecked = False, secureStoreIsAvailable = False, probe = ProbeNo,
      keychain = (\<lambda>k. None), ksReadThrows = False, ksWriteThrows = False,
      bc = True, broadcasts = []\<rparr>"



section \<open>HTTP client core (\<open>src/api/client.ts\<close>)\<close>

subsection \<open>Requests, responses and the world\<close>

text \<open>
  A \<open>Headers\<close> object is a list of name/value pairs with lower-cased names, one pair per
  name; \<open>Headers_set\<close> overwrites. A response is its status and its body text (\<open>None\<close>
  when reading the body fails). The caller's \<open>AbortSignal\<close> and the timeout timer are not
  part of the state: when either fires, the request's outcome is \<open>Throws AbortError\<close>.
\<close>

type_synonym headers = "(string \<times> string) list"

fun Headers_put :: "string \<Rightarrow> string \<Rightarrow> headers \<Rightarrow> headers" where
  "Headers_put k v [] = [(k, v)]"
| "Headers_put k v (p # ps) = (if fst p = k then (k, v) # ps else p # Headers_put k v ps)"

definition Headers_set :: "string \<Rightarrow> string \<Rightarrow> headers \<Rightarrow> headers" where
  "Headers_set name v h = Headers_put (toLowerCase name) v h"

definition Headers_get :: "string \<Rightarrow> headers \<Rightarrow> string option" where
  "Headers_get name h = map_of h (toLowerCase name)"

definition Headers_new :: "(string \<times> string) list \<Rightarrow> headers" where
  "Headers_new init = foldl (\<lambda>h (k, v). Headers_set k v h) [] init"

definition mergeHeaders :: "(string \<times> string) list \<Rightarrow> (string \<times> string) list \<Rightarrow> headers" where
  "mergeHeaders a b = foldl (\<lambda>h (k, v). Headers_set k v h) (Headers_new a) (Headers_new b)"

record response =
  status :: int
  bodyText :: "string option"

definition ok :: "response \<Rightarrow> bool" where
  "ok res \<longleftrightarrow> 200 \<le> status res \<and> status res \<le> 299"

record request =
  req_url :: string
  req_method :: string
  req_headers :: headers
  req_credentials :: string
  req_body :: "string option"

record requestInit =
  init_method :: "string option"
  init_headers :: "(string \<times> string) list option"
  init_credentials :: "string option"
  init_body :: "string option"

text \<open>
  What the program does to the outside: a request sent (with the timeout that guards it,
  \<open>None\<close> for a bare \<open>fetch\<close>), a timer wait in milliseconds, and a line written with
  \<open>console.error\<close> (the URL and the validation issues it reports).
\<close>

datatype event = Fetch request "int option" | Sleep int | ConsoleError string "string list"

datatype fetch_outcome = Resp response | Throws exn

text \<open>
  The refresh coordinator's promise is the body of the \<open>async\<close> arrow function of
  \<open>refreshAccessToken\<close>, suspended at one of its three \<open>await\<close>s or settled with its
  return value.
\<close>

datatype phase =
    AwaitFetch
  | AwaitText response
  | AwaitStore string
  | Settled "string option"

record world =
  tokens :: store
  refreshPromise :: "nat option"
  promises :: "phase list"
  events :: "event list"

text \<open>
  The runtime around the program: the configured base URL, the network (the outcome of
  the request sent last, given everything sent so far), and the built-in functions the
  code calls. \<open>JSON_parse\<close> is \<open>None\<close> where \<open>JSON.parse\<close> throws, \<open>Date_parse\<close> is
  \<open>None\<close> where \<open>Date.parse\<close> returns \<open>NaN\<close>, \<open>numToString\<close> is \<open>String\<close> on a number,
  \<open>searchParamsToString\<close> is \<open>URLSearchParams.toString\<close> on the appended pairs,
  \<open>isDatetime\<close> is the test behind zod's \<open>z.string().datetime()\<close>, \<open>nowISO\<close> is
  \<open>new Date().toISOString()\<close> and \<open>DEV\<close> is the \<open>__DEV__\<close> flag.
\<close>

record env =
  BASE_URL :: string
  net :: "event list \<Rightarrow> fetch_outcome"
  JSON_parse :: "string \<Rightarrow> json option"
  encodeURIComponent :: "string \<Rightarrow> string"
  numToString :: "jsnum \<Rightarrow> string"
  searchParamsToString :: "(string \<times> string) list \<Rightarrow> string"
  isDatetime :: "string \<Rightarrow> bool"
  Date_parse :: "string \<Rightarrow> int option"
  nowISO :: string
  DEV :: bool

definition fetch :: "env \<Rightarrow> request \<Rightarrow> int option \<Rightarrow> world \<Rightarrow> fetch_outcome \<times> world" where
  "fetch E req timeout w =
     (let w1 = w\<lparr>events := events w @ [Fetch req timeout]\<rparr> in (net E (events w1), w1))"

text \<open>
  \<open>fetchWithTimeout\<close> starts the timer, sends the request with the composed signal and
  clears the timer in \<open>finally\<close>; a response is returned, a rejection is rethrown.
\<close>

definition fetchWithTimeout :: "env \<Rightarrow> request \<Rightarrow> int \<Rightarrow> world \<Rightarrow> (exn + response) \<times> world" where
  "fetchWithTimeout E req timeoutMs w =
     (case fetch E req (Some timeoutMs) w of
        (Resp res, w1) \<Rightarrow> (Inr res, w1)
      | (Throws e, w1) \<Rightarrow> (Inl e, w1))"

text \<open>
  \<open>safeJson\<close>: \<open>null\<close> for an empty body, the parsed value, or the raw text when it does
  not parse. Reading the body may fail.
\<close>

definition safeJson :: "env \<Rightarrow> response \<Rightarrow> exn + json" where
  "safeJson E res =
     (case bodyText res of
        None \<Rightarrow> Inl BodyReadError
      | Some text \<Rightarrow>
          (if text = [] then Inr JNull
           else (case JSON_parse E text of Some j \<Rightarrow> Inr j | None \<Rightarrow> Inr (JStr text))))"

subsection \<open>Token store as the client sees it\<close>

definition TokenStore_get :: "world \<Rightarrow> (exn + string option) \<times> world" where
  "TokenStore_get w = (case getAccessToken (tokens w) of (r, s) \<Rightarrow> (r, w\<lparr>tokens := s\<rparr>))"

definition TokenStore_set :: "string option \<Rightarrow> world \<Rightarrow> (exn + unit) \<times> world" where
  "TokenStore_set t w = (case setAccessToken t (tokens w) of (r, s) \<Rightarrow> (r, w\<lparr>tokens := s\<rparr>))"

subsection \<open>Refresh coordinator\<close>

text \<open>
  \<^verbatim>\<open>
  let refreshPromise: Promise<string | null> | null = null;
  async function refreshAccessToken(): Promise<string | null> {
    if (refreshPromise) return refreshPromise;
    const url = toURL("/auth/refresh");
    refreshPromise = (async () => {
      try {
        const res = await fetch(url, { method: "POST", credentials: "include", ... });
        if (!res.ok) return null;
        const data = await safeJsonTyped<{ accessToken?: string } | null>(res);
        const next = data?.accessToken ?? null;
        if (next) { await TokenStore.set(next); }
        return next;
      } catch (e) { return null; }
      finally { refreshPromise = null; }
    })();
    return refreshPromise;
  }
  \<close>
  A call runs up to the first \<open>await\<close>: it either hands out the stored promise or sends
  the refresh request and stores a new promise. The rest of the body runs when what it
  waits for arrives: \<open>resumeFetch\<close>, \<open>resumeText\<close> and \<open>resumeStore\<close> are the three
  continuations, and \<open>settle\<close> is the \<open>finally\<close> block followed by the return. A promise
  is named by its position in \<open>promises\<close>. The token store call made in \<open>resumeText\<close>
  is taken as one step.
\<close>

definition refresh_request :: "env \<Rightarrow> request" where
  "refresh_request E =
     \<lparr>req_url = toURL (BASE_URL E) ''/auth/refresh'', req_method = ''POST'',
      req_headers = Headers_new [(''Content-Type'', ''application/json''),
                                 (''Accept'', ''application/json'')],
      req_credentials = ''include'', req_body = Some ''{}''\<rparr>"

definition refreshAccessToken :: "env \<Rightarrow> world \<Rightarrow> nat \<times> world" where
  "refreshAccessToken E w =
     (case refreshPromise w of
        Some p \<Rightarrow> (p, w)
      | None \<Rightarrow>
          (let p = length (promises w)
           in (p, w\<lparr>events := events w @ [Fetch (refresh_request E) None],
                    promises := promises w @ [AwaitFetch],
                    refreshPromise := Some p\<rparr>)))"

definition settle :: "nat \<Rightarrow> string option \<Rightarrow> world \<Rightarrow> world" where
  "settle p v w = w\<lparr>promises := (promises w)[p := Settled v], refreshPromise := None\<rparr>"

text \<open>
  \<open>data?.accessToken ?? null\<close>. The response is typed \<open>{ accessToken?: string } | null\<close>;
  a property of another type is outside that type and is read as absent.
\<close>

definition accessTokenOf :: "json \<Rightarrow> string option" where
  "accessTokenOf data =
     (case data of
        JObj kvs \<Rightarrow> (case map_of kvs ''accessToken'' of Some (JStr t) \<Rightarrow> Some t | _ \<Rightarrow> None)
      | _ \<Rightarrow> None)"

definition resumeFetch :: "nat \<Rightarrow> fetch_outcome \<Rightarrow> world \<Rightarrow> world" where
  "resumeFetch p outcome w =
     (case outcome of
        Throws e \<Rightarrow> settle p None w
      | Resp res \<Rightarrow>
          (if \<not> ok res then settle p None w
           else w\<lparr>promises := (promises w)[p := AwaitText res]\<rparr>))"

definition resumeText :: "env \<Rightarrow> nat \<Rightarrow> response \<Rightarrow> world \<Rightarrow> world" where
  "resumeText E p res w =
     (case safeJson E res of
        Inl e \<Rightarrow> settle p None w
      | Inr data \<Rightarrow>
          (case accessTokenOf data of
             None \<Rightarrow> settle p None w
           | Some next \<Rightarrow>
               (if truthy next then
                  (case TokenStore_set (Some next) w of
                     (Inl e, w1) \<Rightarrow> settle p None w1
                   | (Inr u, w1) \<Rightarrow> w1\<lparr>promises := (promises w1)[p := AwaitStore next]\<rparr>)
                else settle p (Some next) w)))"

definition resumeStore :: "nat \<Rightarrow> string \<Rightarrow> world \<Rightarrow> world" where
  "resumeStore p next w = settle p (Some next) w"

text \<open>
  One continuation step of promise \<open>p\<close>, where the request's outcome is \<open>outcome\<close> if
  that is what \<open>p\<close> waits for. A settled or unknown promise has nothing left to run.
\<close>

definition resume :: "env \<Rightarrow> nat \<Rightarrow> fetch_outcome \<Rightarrow> world \<Rightarrow> world" where
  "resume E p outcome w =
     (if p < length (promises w) then
        (case promises w ! p of
           AwaitFetch \<Rightarrow> resumeFetch p outcome w
         | AwaitText res \<Rightarrow> resumeText E p res w
         | AwaitStore next \<Rightarrow> resumeStore p next w
         | Settled v \<Rightarrow> w)
      else w)"

text \<open>
  \<open>await refreshAccessToken()\<close> inside one request: three continuation steps settle the
  promise whatever phase it is in. A promise suspended at its \<open>fetch\<close> waits for the
  answer to the refresh request, whoever awaits it and whatever has been sent since. That
  request is the last bare \<open>fetch\<close> of the refresh URL in the trace (only
  \<open>refreshAccessToken\<close> calls \<open>fetch\<close> without a timeout, and it sends a new request
  only when no promise is pending), and its answer is the network's for the trace up to
  and including it.
\<close>

definition refreshHistory :: "env \<Rightarrow> event list \<Rightarrow> event list" where
  "refreshHistory E evs =
     rev (dropWhile (\<lambda>ev. ev \<noteq> Fetch (refresh_request E) None) (rev evs))"

definition advance :: "env \<Rightarrow> nat \<Rightarrow> world \<Rightarrow> world" where
  "advance E p w = resume E p (net E (refreshHistory E (events w))) w"

definition promiseValue :: "world \<Rightarrow> nat \<Rightarrow> string option option" where
  "promiseValue w p =
     (if p < length (promises w) then
        (case promises w ! p of Settled v \<Rightarrow> Some v | _ \<Rightarrow> None)
      else None)"

definition awaitRefresh :: "env \<Rightarrow> world \<Rightarrow> string option \<times> world" where
  "awaitRefresh E w =
     (case refreshAccessToken E w of
        (p, w0) \<Rightarrow>
          (let w3 = advance E p (advance E p (advance E p w0))
           in (case promiseValue w3 p of Some v \<Rightarrow> (v, w3) | None \<Rightarrow> (None, w3))))"

text \<open>
  The coordinator under any interleaving of callers and continuations: \<open>Call\<close> is a
  caller entering \<open>refreshAccessToken\<close>, \<open>Resume p outcome\<close> lets promise \<open>p\<close> take its
  next step.
\<close>

datatype action = Call | Resume nat fetch_outcome

fun step :: "env \<Rightarrow> action \<Rightarrow> world \<Rightarrow> world" where
  "step E Call w = snd (refreshAccessToken E w)"
| "step E (Resume p outcome) w = resume E p outcome w"

definition run :: "env \<Rightarrow> action list \<Rightarrow> world \<Rightarrow> world" where
  "run E acts w = foldl (\<lambda>w a. step E a w) w acts"

definition idle :: "store \<Rightarrow> world" where
  "idle s = \<lparr>tokens = s, refreshPromise = None, promises = [], events = []\<rparr>"

definition isSettled :: "phase \<Rightarrow> bool" where
  "isSettled ph = (case ph of Settled v \<Rightarrow> True | _ \<Rightarrow> False)"

definition isAwaitFetch :: "phase \<Rightarrow> bool" where
  "isAwaitFetch ph = (case ph of AwaitFetch \<Rightarrow> True | _ \<Rightarrow> False)"

text \<open>Refresh requests sent and not yet answered; a promise not yet settled.\<close>

definition inFlight :: "world \<Rightarrow> nat" where
  "inFlight w = length (filter isAwaitFetch (promises w))"

definition outstanding :: "world \<Rightarrow> nat \<Rightarrow> bool" where
  "outstanding w p \<longleftrightarrow> p < length (promises w) \<and> \<not> isSettled (promises w ! p)"

text \<open>
  The coordinator's invariant: promises are created one after the other, so only the
  newest can be unsettled, and the slot \<open>refreshPromise\<close> holds it exactly then.
\<close>

definition coordOK :: "world \<Rightarrow> bool" where
  "coordOK w \<longleftrightarrow>
     (\<forall>ph \<in> set (butlast (promises w)). isSettled ph) \<and>
     (case refreshPromise w of
        None \<Rightarrow> (\<forall>ph \<in> set (promises w). isSettled ph)
      | Some p \<Rightarrow> promises w \<noteq> [] \<and> p = length (promises w) - 1 \<and> \<not> isSettled (last (promises w)))"

text \<open>
  Bookkeeping for awaiting a refresh: how many continuation steps a phase is away from
  settled, what counts as "no token" for the caller's \<open>if (next)\<close>, and the fact that
  the token store is written only on the way to a non-empty token.
\<close>

definition phaseRank :: "phase \<Rightarrow> nat" where
  "phaseRank ph = (case ph of AwaitFetch \<Rightarrow> 3 | AwaitText res \<Rightarrow> 2 | AwaitStore t \<Rightarrow> 1 | Settled v \<Rightarrow> 0)"

definition falsy :: "string option \<Rightarrow> bool" where
  "falsy v \<longleftrightarrow> (\<forall>t. v = Some t \<longrightarrow> \<not> truthy t)"

definition tokensKept :: "store \<Rightarrow> nat \<Rightarrow> world \<Rightarrow> bool" where
  "tokensKept s0 p w \<longleftrightarrow>
     (case promises w ! p of
        Settled v \<Rightarrow> falsy v \<longrightarrow> tokens w = s0
      | AwaitStore t \<Rightarrow> \<not> truthy t \<longrightarrow> tokens w = s0
      | _ \<Rightarrow> tokens w = s0)"

subsection \<open>\<open>apiFetch\<close>\<close>

text \<open>
  \<open>ApiFetchOptions\<close> has only optional fields; \<open>{ ...DEFAULT_FETCH_OPTS, ...options }\<close>
  takes each field from \<open>options\<close> when it is present and from the defaults otherwise.
\<close>

record options =
  auth :: "bool option"
  retryOn401 :: "bool option"
  throwOnHTTPError :: "bool option"
  timeoutMs :: "int option"
  idempotentRetries :: "int option"

record fetchOpts =
  o_auth :: bool
  o_retryOn401 :: bool
  o_throwOnHTTPError :: bool
  o_timeoutMs :: int
  o_idempotentRetries :: int

definition DEFAULT_FETCH_OPTS :: fetchOpts where
  "DEFAULT_FETCH_OPTS =
     \<lparr>o_auth = True, o_retryOn401 = True, o_throwOnHTTPError = True,
      o_timeoutMs = 20000, o_idempotentRetries = 2\<rparr>"

definition noOptions :: options where
  "noOptions = \<lparr>auth = None, retryOn401 = None, throwOnHTTPError = None,
                 timeoutMs = None, idempotentRetries = None\<rparr>"

definition spread :: "fetchOpts \<Rightarrow> options \<Rightarrow> fetchOpts" where
  "spread d options =
     \<lparr>o_auth = (case auth options of None \<Rightarrow> o_auth d | Some v \<Rightarrow> v),
      o_retryOn401 = (case retryOn401 options of None \<Rightarrow> o_retryOn401 d | Some v \<Rightarrow> v),
      o_throwOnHTTPError =
        (case throwOnHTTPError options of None \<Rightarrow> o_throwOnHTTPError d | Some v \<Rightarrow> v),
      o_timeoutMs = (case timeoutMs options of None \<Rightarrow> o_timeoutMs d | Some v \<Rightarrow> v),
      o_idempotentRetries =
        (case idempotentRetries options of None \<Rightarrow> o_idempotentRetries d | Some v \<Rightarrow> v)\<rparr>"

definition transientStatuses :: "int list" where
  "transientStatuses = [408, 425, 429, 500, 502, 503, 504]"

definition isTransient :: "int \<Rightarrow> bool" where
  "isTransient code \<longleftrightarrow> code \<in> set transientStatuses"

definition noInit :: requestInit where
  "noInit = \<lparr>init_method = None, init_headers = None, init_credentials = None,
              init_body = None\<rparr>"

text \<open>
  The argument of every \<open>fetchWithTimeout\<close> call of \<open>apiFetch\<close>:
  \<open>{ ...init, method, headers: currentHeaders, credentials: init.credentials ?? "include" }\<close>.
\<close>

definition mkRequest :: "string \<Rightarrow> string \<Rightarrow> headers \<Rightarrow> requestInit \<Rightarrow> request" where
  "mkRequest url method hdrs init =
     \<lparr>req_url = url, req_method = method, req_headers = hdrs,
      req_credentials = (case init_credentials init of None \<Rightarrow> ''include'' | Some c \<Rightarrow> c),
      req_body = init_body init\<rparr>"

text \<open>Lines 369 to 373: the merged headers, with the bearer token when there is one.\<close>

definition initialHeaders :: "requestInit \<Rightarrow> fetchOpts \<Rightarrow> string option \<Rightarrow> headers" where
  "initialHeaders init opts token =
     (let headers = mergeHeaders [(''Accept'', ''application/json'')]
                      (case init_headers init of None \<Rightarrow> [] | Some h \<Rightarrow> h)
      in (case token of
            Some t \<Rightarrow>
              (if o_auth opts \<and> truthy t
               then Headers_set ''Authorization'' (''Bearer '' @ t) headers else headers)
          | None \<Rightarrow> headers))"

definition methodOf :: "requestInit \<Rightarrow> string" where
  "methodOf init = toUpperCase (case init_method init of None \<Rightarrow> ''GET'' | Some m \<Rightarrow> m)"

definition initialRequest :: "env \<Rightarrow> string \<Rightarrow> requestInit \<Rightarrow> fetchOpts \<Rightarrow> string option \<Rightarrow> request" where
  "initialRequest E input init opts token =
     mkRequest (toURL (BASE_URL E) input) (methodOf init) (initialHeaders init opts token) init"

text \<open>
  Lines 405 to 426, the retry on 401. The result is the response to go on with and the
  request whose headers are \<open>currentHeaders\<close> from here on.
  \<^verbatim>\<open>
  if (res.status === 401 && opts.retryOn401) {
    const next = await refreshAccessToken();
    if (next) {
      const retryHeaders = new Headers(currentHeaders);
      retryHeaders.set("Authorization", `Bearer ${next}`);
      currentHeaders = retryHeaders;
      res = await fetchWithTimeout(url, { ...init, method, headers: currentHeaders, ... },
                                   opts.timeoutMs);
    }
  }
  \<close>
\<close>

definition withBearer :: "string \<Rightarrow> request \<Rightarrow> request" where
  "withBearer t req =
     req\<lparr>req_headers := Headers_set ''Authorization'' (''Bearer '' @ t) (req_headers req)\<rparr>"

definition retryOn401Step ::
  "env \<Rightarrow> fetchOpts \<Rightarrow> request \<Rightarrow> response \<Rightarrow> world \<Rightarrow> (exn + response \<times> request) \<times> world" where
  "retryOn401Step E opts req res w =
     (if status res = 401 \<and> o_retryOn401 opts then
        (case awaitRefresh E w of
           (None, w1) \<Rightarrow> (Inr (res, req), w1)
         | (Some next, w1) \<Rightarrow>
             (if truthy next then
                (case fetchWithTimeout E (withBearer next req) (o_timeoutMs opts) w1 of
                   (Inl e, w2) \<Rightarrow> (Inl e, w2)
                 | (Inr res', w2) \<Rightarrow> (Inr (res', withBearer next req), w2))
              else (Inr (res, req), w1)))
      else (Inr (res, req), w))"

text \<open>
  Lines 428 to 457, the backoff loop. \<open>configured\<close> is
  \<open>options.idempotentRetries ?? DEFAULT_FETCH_OPTS.idempotentRetries\<close>.
  \<^verbatim>\<open>
  while (!res.ok && isGet && remainingIdempotent > 0 && isTransient(res.status)) {
    const attempt = configured - remainingIdempotent + 1;
    const waitMs = Math.min(1500 * attempt, 4000);
    await new Promise<void>(r => setTimeout(r, waitMs));
    remainingIdempotent -= 1;
    res = await fetchWithTimeout(url, { ...init, method, headers: currentHeaders, ... },
                                 opts.timeoutMs);
  }
  \<close>
\<close>

function backoff ::
  "env \<Rightarrow> request \<Rightarrow> int \<Rightarrow> bool \<Rightarrow> int \<Rightarrow> response \<Rightarrow> int \<Rightarrow> world \<Rightarrow> (exn + response) \<times> world" where
  "backoff E req timeout isGet configured res remainingIdempotent w =
     (if \<not> ok res \<and> isGet \<and> remainingIdempotent > 0 \<and> isTransient (status res) then
        (let attempt = configured - remainingIdempotent + 1;
             waitMs = min (1500 * attempt) 4000;
             w1 = w\<lparr>events := events w @ [Sleep waitMs]\<rparr>
         in (case fetchWithTimeout E req timeout w1 of
               (Inl e, w2) \<Rightarrow> (Inl e, w2)
             | (Inr res', w2) \<Rightarrow>
                 backoff E req timeout isGet configured res' (remainingIdempotent - 1) w2))
      else (Inr res, w))"
  by pat_completeness auto
termination
  by (relation "measure (\<lambda>(E, req, timeout, isGet, configured, res, remaining, w). nat remaining)")
     auto

declare backoff.simps [simp del]

text \<open>Lines 459 to 465: raise on a status outside 2xx when asked to, else return.\<close>

definition finish :: "env \<Rightarrow> fetchOpts \<Rightarrow> string \<Rightarrow> response \<Rightarrow> world \<Rightarrow> (exn + response) \<times> world" where
  "finish E opts url res w =
     (if o_throwOnHTTPError opts \<and> \<not> ok res then
        (case safeJson E res of
           Inl e \<Rightarrow> (Inl e, w)
         | Inr data \<Rightarrow>
             (Inl (APIError (''HTTP '' @ showInt (status res)) (status res) url (Some data)), w))
      else (Inr res, w))"

definition configuredRetries :: "options \<Rightarrow> int" where
  "configuredRetries options =
     (case idempotentRetries options of
        None \<Rightarrow> o_idempotentRetries DEFAULT_FETCH_OPTS | Some n \<Rightarrow> n)"

definition readToken :: "fetchOpts \<Rightarrow> world \<Rightarrow> (exn + string option) \<times> world" where
  "readToken opts w = (if o_auth opts then TokenStore_get w else (Inr None, w))"

definition apiFetch ::
  "env \<Rightarrow> string \<Rightarrow> requestInit \<Rightarrow> options \<Rightarrow> world \<Rightarrow> (exn + response) \<times> world" where
  "apiFetch E input init options w =
     (let opts = spread DEFAULT_FETCH_OPTS options
      in (case readToken opts w of
            (Inl e, w0) \<Rightarrow> (Inl e, w0)
          | (Inr token, w0) \<Rightarrow>
              (let req = initialRequest E input init opts token;
                   isGet = (req_method req = ''GET'');
                   remainingIdempotent = (if isGet then o_idempotentRetries opts else 0)
               in (case fetchWithTimeout E req (o_timeoutMs opts) w0 of
                     (Inl e, w1) \<Rightarrow> (Inl e, w1)
                   | (Inr res, w1) \<Rightarrow>
                       (case retryOn401Step E opts req res w1 of
                          (Inl e, w2) \<Rightarrow> (Inl e, w2)
                        | (Inr (res2, req2), w2) \<Rightarrow>
                            (case backoff E req2 (o_timeoutMs opts) isGet
                                    (configuredRetries options) res2 remainingIdempotent w2 of
                               (Inl e, w3) \<Rightarrow> (Inl e, w3)
                             | (Inr res3, w3) \<Rightarrow> finish E opts (req_url req) res3 w3))))))"

text \<open>\<open>getJSON\<close> and \<open>api.get\<close>.\<close>

definition getJSON ::
  "env \<Rightarrow> string \<Rightarrow> requestInit \<Rightarrow> options \<Rightarrow> world \<Rightarrow> (exn + json) \<times> world" where
  "getJSON E path init opts w =
     (case apiFetch E path (init\<lparr>init_method := Some ''GET''\<rparr>) opts w of
        (Inl e, w1) \<Rightarrow> (Inl e, w1)
      | (Inr res, w1) \<Rightarrow> (safeJson E res, w1))"

definition api_get :: "env \<Rightarrow> string \<Rightarrow> options \<Rightarrow> world \<Rightarrow> (exn + json) \<times> world" where
  "api_get E path opts w = getJSON E path noInit opts w"

text \<open>
  The events the backoff loop adds when it makes \<open>m\<close> retries starting at attempt
  number \<open>k\<close>: a wait, then the request, for each retry.
\<close>

fun backoffEvents :: "request \<Rightarrow> int \<Rightarrow> int \<Rightarrow> nat \<Rightarrow> event list" where
  "backoffEvents req timeout k 0 = []"
| "backoffEvents req timeout k (Suc m) =
     Sleep (min (1500 * k) 4000) # Fetch req (Some timeout) # backoffEvents req timeout (k + 1) m"

section \<open>Resource API layer (\<open>src/lib/pdfApi.ts\<close>, \<open>src/types/pdf.ts\<close>)\<close>

subsection \<open>Numbers and dynamic values\<close>

definition isFinite :: "jsnum \<Rightarrow> bool" where
  "isFinite n = (case n of Fin q \<Rightarrow> True | _ \<Rightarrow> False)"

text \<open>\<open>a < b\<close> on numbers: false whenever either side is \<open>NaN\<close>.\<close>

fun js_lt :: "jsnum \<Rightarrow> jsnum \<Rightarrow> bool" where
  "js_lt (Fin a) (Fin b) = (a < b)"
| "js_lt (Fin a) PosInf = True"
| "js_lt NegInf (Fin b) = True"
| "js_lt NegInf PosInf = True"
| "js_lt a b = False"

text \<open>\<open>Math.round\<close> on a finite number: the nearest integer, halves upwards.\<close>

definition Math_round :: "rat \<Rightarrow> rat" where
  "Math_round q = of_int \<lfloor>q + 1 / 2\<rfloor>"

definition isInteger :: "rat \<Rightarrow> bool" where
  "isInteger q \<longleftrightarrow> q = of_int \<lfloor>q\<rfloor>"

text \<open>
  Property access \<open>r.key\<close> on \<open>r = isRecord(raw) ? raw : {}\<close>: \<open>None\<close> is \<open>undefined\<close>.
  \<open>a ?? b\<close> takes \<open>b\<close> when \<open>a\<close> is \<open>undefined\<close> or \<open>null\<close>.
\<close>

definition isRecord :: "json \<Rightarrow> bool" where
  "isRecord u = (case u of JObj kvs \<Rightarrow> True | _ \<Rightarrow> False)"

definition getProp :: "json \<Rightarrow> string \<Rightarrow> json option" where
  "getProp r key = (case r of JObj kvs \<Rightarrow> map_of kvs key | _ \<Rightarrow> None)"

definition nullish :: "json option \<Rightarrow> json option \<Rightarrow> json option" where
  "nullish a b = (case a of None \<Rightarrow> b | Some JNull \<Rightarrow> b | Some v \<Rightarrow> Some v)"

definition stringOf :: "json \<Rightarrow> string option" where
  "stringOf v = (case v of JStr t \<Rightarrow> Some t | _ \<Rightarrow> None)"

definition isStringArray :: "json option \<Rightarrow> bool" where
  "isStringArray u = (case u of Some (JArr xs) \<Rightarrow> list_all (\<lambda>x. stringOf x \<noteq> None) xs | _ \<Rightarrow> False)"

definition nonEmptyString :: "json option \<Rightarrow> string option" where
  "nonEmptyString u = (case u of Some (JStr t) \<Rightarrow> (if t \<noteq> [] then Some t else None) | _ \<Rightarrow> None)"

subsection \<open>Options and query strings\<close>

definition mergeOptions :: "options \<Rightarrow> options \<Rightarrow> options" where
  "mergeOptions a b =
     \<lparr>auth = (case auth b of None \<Rightarrow> auth a | Some v \<Rightarrow> Some v),
      retryOn401 = (case retryOn401 b of None \<Rightarrow> retryOn401 a | Some v \<Rightarrow> Some v),
      throwOnHTTPError = (case throwOnHTTPError b of None \<Rightarrow> throwOnHTTPError a | Some v \<Rightarrow> Some v),
      timeoutMs = (case timeoutMs b of None \<Rightarrow> timeoutMs a | Some v \<Rightarrow> Some v),
      idempotentRetries =
        (case idempotentRetries b of None \<Rightarrow> idempotentRetries a | Some v \<Rightarrow> Some v)\<rparr>"

text \<open>\<open>{ idempotentRetries: 2, ...(opts ?? {}), ...(extra ?? {}) }\<close>\<close>

definition withGetDefaults :: "options option \<Rightarrow> options option \<Rightarrow> options" where
  "withGetDefaults opts extra =
     mergeOptions
       (mergeOptions (noOptions\<lparr>idempotentRetries := Some 2\<rparr>)
          (case opts of None \<Rightarrow> noOptions | Some o1 \<Rightarrow> o1))
       (case extra of None \<Rightarrow> noOptions | Some o2 \<Rightarrow> o2)"

datatype qvalue = QStr string | QNum jsnum

text \<open>
  \<open>qs\<close>: every parameter that is defined and whose string form is not empty is appended,
  in order; the result is \<open>?\<close> and the encoded pairs, or the empty string.
\<close>

definition qvString :: "env \<Rightarrow> qvalue \<Rightarrow> string" where
  "qvString E v = (case v of QStr t \<Rightarrow> t | QNum n \<Rightarrow> numToString E n)"

definition qs :: "env \<Rightarrow> (string \<times> qvalue option) list \<Rightarrow> string" where
  "qs E params =
     (let sp = concat (map (\<lambda>(k, v). case v of None \<Rightarrow> []
                                     | Some x \<Rightarrow> (if qvString E x \<noteq> [] then [(k, qvString E x)] else []))
                         params);
          s = searchParamsToString E sp
      in if s \<noteq> [] then ''?'' @ s else [])"

subsection \<open>Schemas\<close>

text \<open>
  A schema takes a value and returns the parsed object or the issues found, each issue
  the path of the offending field. The issue list stands for zod's
  \<open>result.error.flatten()\<close>.
\<close>

definition isSpaceChar :: "char \<Rightarrow> bool" where
  "isSpaceChar c \<longleftrightarrow> (of_char c :: nat) \<in> {9, 10, 11, 12, 13, 32}"

definition trim :: "string \<Rightarrow> string" where
  "trim t = rev (dropWhile isSpaceChar (rev (dropWhile isSpaceChar t)))"

text \<open>\<open>URL_LIKE_RE = /^(https?:\/\/|data:image\/|blob:|file:|asset:)/i\<close>\<close>

definition URL_LIKE_RE :: "string \<Rightarrow> bool" where
  "URL_LIKE_RE v \<longleftrightarrow>
     list_ex (\<lambda>p. take (length p) (toLowerCase v) = p)
       [''http://'', ''https://'', ''data:image/'', ''blob:'', ''file:'', ''asset:'']"

text \<open>\<open>UrlLike = z.string().min(1).transform(s => s.trim()).refine(v => URL_LIKE_RE.test(v))\<close>\<close>

definition UrlLike :: "json \<Rightarrow> string option" where
  "UrlLike v =
     (case v of
        JStr t \<Rightarrow> (if t \<noteq> [] \<and> URL_LIKE_RE (trim t) then Some (trim t) else None)
      | _ \<Rightarrow> None)"

text \<open>\<open>z.number().int().positive()\<close>\<close>

definition positiveInt :: "json \<Rightarrow> int option" where
  "positiveInt v =
     (case v of
        JNum (Fin q) \<Rightarrow> (if isInteger q \<and> 0 < q then Some \<lfloor>q\<rfloor> else None)
      | _ \<Rightarrow> None)"

text \<open>
  One field of a \<open>z.object\<close>: \<open>required\<close> fails on a missing property, \<open>optional\<close>
  accepts it. Both give the issues (the field's path, or nothing) and the parsed value.
\<close>

definition required :: "string \<Rightarrow> (json \<Rightarrow> 'a option) \<Rightarrow> json option \<Rightarrow> string list \<times> 'a option" where
  "required path parse v =
     (case v of
        None \<Rightarrow> ([path], None)
      | Some x \<Rightarrow> (case parse x of None \<Rightarrow> ([path], None) | Some a \<Rightarrow> ([], Some a)))"

definition optional :: "string \<Rightarrow> (json \<Rightarrow> 'a option) \<Rightarrow> json option \<Rightarrow> string list \<times> 'a option" where
  "optional path parse v =
     (case v of
        None \<Rightarrow> ([], None)
      | Some x \<Rightarrow> (case parse x of None \<Rightarrow> ([path], None) | Some a \<Rightarrow> ([], Some a)))"

text \<open>\<open>.nullable().optional()\<close>: \<open>null\<close> and a missing property are both accepted.\<close>

definition nullableOptional :: "string \<Rightarrow> (json \<Rightarrow> 'a option) \<Rightarrow> json option \<Rightarrow> string list \<times> 'a option" where
  "nullableOptional path parse v =
     (case v of Some JNull \<Rightarrow> ([], None) | _ \<Rightarrow> optional path parse v)"

definition stringArray :: "json \<Rightarrow> string list option" where
  "stringArray v =
     (case v of
        JArr xs \<Rightarrow> (if list_all (\<lambda>x. stringOf x \<noteq> None) xs
                    then Some (map (\<lambda>x. the (stringOf x)) xs) else None)
      | _ \<Rightarrow> None)"

definition urlArray :: "json \<Rightarrow> string list option" where
  "urlArray v =
     (case v of
        JArr xs \<Rightarrow> (if list_all (\<lambda>x. UrlLike x \<noteq> None) xs
                    then Some (map (\<lambda>x. the (UrlLike x)) xs) else None)
      | _ \<Rightarrow> None)"

definition minString :: "json \<Rightarrow> string option" where
  "minString v = (case v of JStr t \<Rightarrow> (if t \<noteq> [] then Some t else None) | _ \<Rightarrow> None)"

definition datetimeString :: "env \<Rightarrow> json \<Rightarrow> string option" where
  "datetimeString E v = (case v of JStr t \<Rightarrow> (if isDatetime E t then Some t else None) | _ \<Rightarrow> None)"

record pdfItem =
  i_id :: string
  i_title :: string
  i_pages :: int
  i_coverUrl :: "string option"
  i_category :: "string option"
  i_tags :: "string list"
  i_updatedAt :: string

record listResponse =
  items :: "pdfItem list"
  nextCursor :: "string option"

record pdfDetail =
  d_id :: string
  d_title :: string
  d_pages :: int
  d_category :: "string option"
  d_tags :: "string list"
  d_pageUrls :: "string option list option"

record pageUrlResponse =
  pu_url :: string
  pu_expiresAt :: "string option"
  pu_contentType :: "string option"
  pu_width :: "int option"
  pu_height :: "int option"
  pu_etag :: "string option"
  pu_cacheControl :: "string option"

record searchHit =
  h_page :: int
  h_snippet :: "string option"

definition PdfItemSchema :: "env \<Rightarrow> string \<Rightarrow> json \<Rightarrow> string list + pdfItem" where
  "PdfItemSchema E path v =
     (if \<not> isRecord v then Inl [path]
      else
        (let id = required (path @ ''.id'') minString (getProp v ''id'');
             title = required (path @ ''.title'') minString (getProp v ''title'');
             pages = required (path @ ''.pages'') positiveInt (getProp v ''pages'');
             coverUrl = nullableOptional (path @ ''.coverUrl'') UrlLike (getProp v ''coverUrl'');
             category = optional (path @ ''.category'') stringOf (getProp v ''category'');
             tags = optional (path @ ''.tags'') stringArray (getProp v ''tags'');
             updatedAt = required (path @ ''.updatedAt'') (datetimeString E) (getProp v ''updatedAt'');
             issues = fst id @ fst title @ fst pages @ fst coverUrl @ fst category @ fst tags
                      @ fst updatedAt
         in if issues \<noteq> [] then Inl issues
            else Inr \<lparr>i_id = the (snd id), i_title = the (snd title), i_pages = the (snd pages),
                      i_coverUrl = snd coverUrl, i_category = snd category,
                      i_tags = (case snd tags of None \<Rightarrow> [] | Some ts \<Rightarrow> ts),
                      i_updatedAt = the (snd updatedAt)\<rparr>))"

text \<open>\<open>z.array(schema)\<close>: every element is parsed at its index.\<close>

definition indexed :: "'a list \<Rightarrow> (nat \<times> 'a) list" where
  "indexed xs = zip [0..<length xs] xs"

definition arrayOf :: "(string \<Rightarrow> json \<Rightarrow> string list + 'a) \<Rightarrow> string \<Rightarrow> json option \<Rightarrow> string list + 'a list" where
  "arrayOf schema path v =
     (case v of
        Some (JArr xs) \<Rightarrow>
          (let rs = map (\<lambda>(i, x). schema (path @ ''.'' @ showInt (int i)) x) (indexed xs);
               issues = concat (map (\<lambda>r. case r of Inl is \<Rightarrow> is | Inr a \<Rightarrow> []) rs)
           in if issues \<noteq> [] then Inl issues
              else Inr (concat (map (\<lambda>r. case r of Inl is \<Rightarrow> [] | Inr a \<Rightarrow> [a]) rs)))
      | _ \<Rightarrow> Inl [path])"

definition ListResponseSchema :: "env \<Rightarrow> json \<Rightarrow> string list + listResponse" where
  "ListResponseSchema E v =
     (if \<not> isRecord v then Inl [''response'']
      else
        (let its = arrayOf (PdfItemSchema E) ''items'' (getProp v ''items'');
             nc = optional ''nextCursor'' stringOf (getProp v ''nextCursor'');
             issues = (case its of Inl is \<Rightarrow> is | Inr a \<Rightarrow> []) @ fst nc
         in (case its of
               Inr a \<Rightarrow> (if issues \<noteq> [] then Inl issues else Inr \<lparr>items = a, nextCursor = snd nc\<rparr>)
             | Inl is \<Rightarrow> Inl issues)))"

definition PdfDetailSchema :: "json \<Rightarrow> string list + pdfDetail" where
  "PdfDetailSchema v =
     (if \<not> isRecord v then Inl [''response'']
      else
        (let id = required ''id'' minString (getProp v ''id'');
             title = required ''title'' minString (getProp v ''title'');
             pages = required ''pages'' positiveInt (getProp v ''pages'');
             category = optional ''category'' stringOf (getProp v ''category'');
             tags = optional ''tags'' stringArray (getProp v ''tags'');
             pageUrls = nullableOptional ''pageUrls'' urlArray (getProp v ''pageUrls'');
             issues = fst id @ fst title @ fst pages @ fst category @ fst tags @ fst pageUrls
         in if issues \<noteq> [] then Inl issues
            else Inr \<lparr>d_id = the (snd id), d_title = the (snd title), d_pages = the (snd pages),
                      d_category = snd category,
                      d_tags = (case snd tags of None \<Rightarrow> [] | Some ts \<Rightarrow> ts),
                      d_pageUrls = map_option (map Some) (snd pageUrls)\<rparr>))"

definition PageUrlSchema :: "env \<Rightarrow> json \<Rightarrow> string list + pageUrlResponse" where
  "PageUrlSchema E v =
     (if \<not> isRecord v then Inl [''response'']
      else
        (let url = required ''url'' UrlLike (getProp v ''url'');
             expiresAt = optional ''expiresAt'' (datetimeString E) (getProp v ''expiresAt'');
             contentType = optional ''contentType'' stringOf (getProp v ''contentType'');
             width = optional ''width'' positiveInt (getProp v ''width'');
             height = optional ''height'' positiveInt (getProp v ''height'');
             etag = optional ''etag'' stringOf (getProp v ''etag'');
             cacheControl = optional ''cacheControl'' stringOf (getProp v ''cacheControl'');
             issues = fst url @ fst expiresAt @ fst contentType @ fst width @ fst height
                      @ fst etag @ fst cacheControl
         in if issues \<noteq> [] then Inl issues
            else Inr \<lparr>pu_url = the (snd url), pu_expiresAt = snd expiresAt,
                      pu_contentType = snd contentType, pu_width = snd width,
                      pu_height = snd height, pu_etag = snd etag,
                      pu_cacheControl = snd cacheControl\<rparr>))"

definition SearchHitSchema :: "string \<Rightarrow> json \<Rightarrow> string list + searchHit" where
  "SearchHitSchema path v =
     (if \<not> isRecord v then Inl [path]
      else
        (let page = required (path @ ''.page'') positiveInt (getProp v ''page'');
             snippet = optional (path @ ''.snippet'') stringOf (getProp v ''snippet'');
             issues = fst page @ fst snippet
         in if issues \<noteq> [] then Inl issues
            else Inr \<lparr>h_page = the (snd page), h_snippet = snd snippet\<rparr>))"

definition SearchResponseSchema :: "json \<Rightarrow> string list + searchHit list" where
  "SearchResponseSchema v =
     (if \<not> isRecord v then Inl [''response'']
      else arrayOf SearchHitSchema ''hits'' (getProp v ''hits''))"


subsection \<open>Normalizers\<close>

definition coerceId :: "env \<Rightarrow> json option \<Rightarrow> nat \<Rightarrow> string" where
  "coerceId E idRaw index =
     (case idRaw of
        Some (JStr t) \<Rightarrow> (if t \<noteq> [] then t else ''tmp-'' @ showInt (int index))
      | Some (JNum n) \<Rightarrow> numToString E n
      | Some (JBool b) \<Rightarrow> (if b then ''true'' else ''false'')
      | _ \<Rightarrow> ''tmp-'' @ showInt (int index))"

definition asRecord :: "json \<Rightarrow> json" where
  "asRecord raw = (if isRecord raw then raw else JObj [])"

definition normTitle :: "json \<Rightarrow> string" where
  "normTitle r =
     (case nonEmptyString (getProp r ''title'') of
        Some t \<Rightarrow> t
      | None \<Rightarrow> (case nonEmptyString (getProp r ''name'') of Some t \<Rightarrow> t | None \<Rightarrow> ''Untitled''))"

definition normPages :: "json \<Rightarrow> jsnum" where
  "normPages r =
     (case nullish (getProp r ''pages'') (getProp r ''pageCount'') of
        Some (JNum (Fin q)) \<Rightarrow> (if 0 < q then Fin q else Fin 1)
      | _ \<Rightarrow> Fin 1)"

definition normTags :: "json \<Rightarrow> json list" where
  "normTags r =
     (if isStringArray (getProp r ''tags'')
      then (case getProp r ''tags'' of Some (JArr xs) \<Rightarrow> xs | _ \<Rightarrow> []) else [])"

definition spreadCategory :: "string option \<Rightarrow> (string \<times> json) list" where
  "spreadCategory category = (case category of Some c \<Rightarrow> [(''category'', JStr c)] | None \<Rightarrow> [])"

definition spreadTags :: "json list \<Rightarrow> (string \<times> json) list" where
  "spreadTags tags = (if tags \<noteq> [] then [(''tags'', JArr tags)] else [])"

definition normalizeItemLike :: "env \<Rightarrow> json \<Rightarrow> nat \<Rightarrow> json" where
  "normalizeItemLike E raw index =
     (let r = asRecord raw;
          id = coerceId E (nullish (getProp r ''id'') (getProp r ''_id'')) index;
          title = normTitle r;
          pages = normPages r;
          coverUrl =
            (case getProp r ''coverUrl'' of
               Some (JStr t) \<Rightarrow> JStr t
             | _ \<Rightarrow> (case getProp r ''thumbnailUrl'' of Some (JStr t) \<Rightarrow> JStr t | _ \<Rightarrow> JNull));
          category = nonEmptyString (getProp r ''category'');
          tags = normTags r;
          updatedAt =
            (case nonEmptyString (getProp r ''updatedAt'') of Some t \<Rightarrow> t | None \<Rightarrow> nowISO E)
      in JObj ([(''id'', JStr id), (''title'', JStr title), (''pages'', JNum pages),
                (''coverUrl'', coverUrl)]
               @ spreadCategory category @ spreadTags tags @ [(''updatedAt'', JStr updatedAt)]))"

definition itemsIn :: "json \<Rightarrow> json list" where
  "itemsIn rr = (case getProp rr ''items'' of Some (JArr xs) \<Rightarrow> xs | _ \<Rightarrow> [])"

definition spreadNextCursor :: "json \<Rightarrow> (string \<times> json) list" where
  "spreadNextCursor rr =
     (case nonEmptyString (getProp rr ''nextCursor'') of
        Some c \<Rightarrow> [(''nextCursor'', JStr c)] | None \<Rightarrow> [])"

definition normalizeListResponse :: "env \<Rightarrow> json \<Rightarrow> json" where
  "normalizeListResponse E raw =
     (let rr = asRecord raw;
          its = map (\<lambda>(i, it). normalizeItemLike E it i) (indexed (itemsIn rr))
      in JObj ([(''items'', JArr its)] @ spreadNextCursor rr))"

text \<open>The last, defensive coercion in the inner \<open>catch\<close> of \<open>listPdfs\<close>.\<close>

definition coerceItem :: "env \<Rightarrow> json \<Rightarrow> nat \<Rightarrow> json" where
  "coerceItem E it i =
     (let n = normalizeItemLike E it i
      in JObj ([(''id'', JStr (case nonEmptyString (getProp n ''id'') of
                                Some t \<Rightarrow> t | None \<Rightarrow> ''tmp-'' @ showInt (int i))),
                (''title'', JStr (case nonEmptyString (getProp n ''title'') of
                                   Some t \<Rightarrow> t | None \<Rightarrow> ''Untitled'')),
                (''coverUrl'', (case getProp n ''coverUrl'' of Some (JStr t) \<Rightarrow> JStr t | _ \<Rightarrow> JNull)),
                (''pages'', (case getProp n ''pages'' of
                              Some (JNum p) \<Rightarrow> (if js_lt (Fin 0) p then JNum p else JNum (Fin 1))
                            | _ \<Rightarrow> JNum (Fin 1))),
                (''updatedAt'', (case getProp n ''updatedAt'' of Some u \<Rightarrow> u | None \<Rightarrow> JNull))]
               @ spreadCategory (nonEmptyString (getProp n ''category''))
               @ (case getProp n ''tags'' of Some (JArr ts) \<Rightarrow> spreadTags ts | _ \<Rightarrow> [])))"

definition fallbackListResponse :: "env \<Rightarrow> json \<Rightarrow> json" where
  "fallbackListResponse E raw =
     (let rr = asRecord raw;
          its = map (\<lambda>(i, it). coerceItem E it i) (indexed (itemsIn rr))
      in JObj ([(''items'', JArr its)] @ spreadNextCursor rr))"

definition normalizeDetail :: "env \<Rightarrow> json \<Rightarrow> json" where
  "normalizeDetail E raw =
     (let r = asRecord raw;
          id = coerceId E (nullish (getProp r ''id'') (getProp r ''_id'')) 0;
          title = normTitle r;
          pages = normPages r;
          rawPU = nullish (getProp r ''pageUrls'') (getProp r ''pageUrls'');
          pageUrls = (if isStringArray rawPU then (case rawPU of Some a \<Rightarrow> a | None \<Rightarrow> JNull) else JNull);
          category = nonEmptyString (getProp r ''category'');
          tags = normTags r
      in JObj ([(''id'', JStr id), (''title'', JStr title), (''pages'', JNum pages),
                (''pageUrls'', pageUrls)]
               @ spreadCategory category @ spreadTags tags))"

subsection \<open>Endpoints\<close>

text \<open>
  \<open>parseOrThrow\<close>: the parsed data, or an \<open>APIError\<close> with status 200 that carries the
  issues; in a development build the failure is also written with \<open>console.error\<close>.
\<close>

definition diagnostics :: "string list \<Rightarrow> json" where
  "diagnostics issues = JArr (map JStr issues)"

definition parseOrThrow ::
  "env \<Rightarrow> (json \<Rightarrow> string list + 'a) \<Rightarrow> json \<Rightarrow> string \<Rightarrow> world \<Rightarrow> (exn + 'a) \<times> world" where
  "parseOrThrow E schema data url w =
     (case schema data of
        Inr v \<Rightarrow> (Inr v, w)
      | Inl issues \<Rightarrow>
          (Inl (APIError ''Invalid API response shape'' 200 url (Some (diagnostics issues))),
           if DEV E then w\<lparr>events := events w @ [ConsoleError url issues]\<rparr> else w))"

definition qstr :: "string option \<Rightarrow> qvalue option" where
  "qstr v = map_option QStr v"

definition listPath ::
  "env \<Rightarrow> string option \<Rightarrow> string option \<Rightarrow> string option \<Rightarrow> string option \<Rightarrow> string option \<Rightarrow> string" where
  "listPath E cursor q category tag sortBy =
     ''/pdfs'' @ qs E [(''cursor'', qstr cursor), (''q'', qstr q), (''category'', qstr category),
                       (''tag'', qstr tag), (''sort'', qstr sortBy)]"

definition listPdfs ::
  "env \<Rightarrow> string option \<Rightarrow> string option \<Rightarrow> string option \<Rightarrow> string option \<Rightarrow> string option \<Rightarrow>
   options option \<Rightarrow> world \<Rightarrow> (exn + listResponse) \<times> world" where
  "listPdfs E cursor q category tag sortBy opts w =
     (let path = listPath E cursor q category tag sortBy
      in (case api_get E path (withGetDefaults opts None) w of
            (Inl e, w1) \<Rightarrow> (Inl e, w1)
          | (Inr raw, w1) \<Rightarrow>
              (case parseOrThrow E (ListResponseSchema E) raw path w1 of
                 (Inr v, w2) \<Rightarrow> (Inr v, w2)
               | (Inl e1, w2) \<Rightarrow>
                   (case parseOrThrow E (ListResponseSchema E) (normalizeListResponse E raw) path w2 of
                      (Inr v, w3) \<Rightarrow> (Inr v, w3)
                    | (Inl e2, w3) \<Rightarrow>
                        parseOrThrow E (ListResponseSchema E) (fallbackListResponse E raw) path w3))))"

definition detailPath :: "env \<Rightarrow> string \<Rightarrow> string" where
  "detailPath E docId = ''/pdfs/'' @ encodeURIComponent E docId"

definition isAPIError :: "exn \<Rightarrow> bool" where
  "isAPIError e = (case e of APIError m st u d \<Rightarrow> True | _ \<Rightarrow> False)"

definition getPdfDetail :: "env \<Rightarrow> string \<Rightarrow> options option \<Rightarrow> world \<Rightarrow> (exn + pdfDetail) \<times> world" where
  "getPdfDetail E docId opts w =
     (let path = detailPath E docId
      in (case api_get E path (withGetDefaults opts None) w of
            (Inl e, w1) \<Rightarrow> (Inl e, w1)
          | (Inr raw, w1) \<Rightarrow>
              (case parseOrThrow E PdfDetailSchema raw path w1 of
                 (Inr v, w2) \<Rightarrow> (Inr v, w2)
               | (Inl e, w2) \<Rightarrow>
                   (if isAPIError e
                    then parseOrThrow E PdfDetailSchema (normalizeDetail E raw) path w2
                    else (Inl e, w2)))))"

text \<open>
  \<open>getPageUrl(id, page, hintsOrOpts?, maybeOpts?)\<close>. A hints object is one that has any
  of the keys \<open>w\<close>, \<open>h\<close>, \<open>dpr\<close>, \<open>quality\<close>; a field of \<open>hints\<close> is \<open>None\<close> when the
  key is missing.
\<close>

record hints =
  hint_w :: "jsnum option"
  hint_h :: "jsnum option"
  hint_dpr :: "jsnum option"
  hint_quality :: "jsnum option"

datatype hintsOrOpts = Hints hints | Opts options

definition isHints :: "hintsOrOpts option \<Rightarrow> bool" where
  "isHints u =
     (case u of
        Some (Hints h) \<Rightarrow>
          hint_w h \<noteq> None \<or> hint_h h \<noteq> None \<or> hint_dpr h \<noteq> None \<or> hint_quality h \<noteq> None
      | _ \<Rightarrow> False)"

definition clampInt :: "jsnum option \<Rightarrow> jsnum option" where
  "clampInt n = (case n of Some (Fin q) \<Rightarrow> Some (Fin (max 1 (Math_round q))) | _ \<Rightarrow> None)"

definition clampQuality :: "jsnum option \<Rightarrow> jsnum option" where
  "clampQuality q =
     (case q of Some (Fin x) \<Rightarrow> Some (Fin (min 100 (max 1 (Math_round x)))) | _ \<Rightarrow> None)"

definition qnum :: "jsnum option \<Rightarrow> qvalue option" where
  "qnum v = map_option QNum v"

definition pageUrlPath :: "env \<Rightarrow> string \<Rightarrow> jsnum \<Rightarrow> hintsOrOpts option \<Rightarrow> string" where
  "pageUrlPath E docId page hintsOrOpts =
     (let hints = (case hintsOrOpts of
                     Some (Hints h) \<Rightarrow> (if isHints hintsOrOpts then Some h else None)
                   | _ \<Rightarrow> None);
          w = clampInt (case hints of Some h \<Rightarrow> hint_w h | None \<Rightarrow> None);
          h = clampInt (case hints of Some h \<Rightarrow> hint_h h | None \<Rightarrow> None);
          dpr = (case hints of
                   Some h \<Rightarrow> (case hint_dpr h of
                                Some d \<Rightarrow> (if js_lt (Fin 0) d then Some d else None)
                              | None \<Rightarrow> None)
                 | None \<Rightarrow> None);
          q = clampQuality (case hints of Some h \<Rightarrow> hint_quality h | None \<Rightarrow> None)
      in ''/pdfs/'' @ encodeURIComponent E docId @ ''/pages/''
         @ encodeURIComponent E (numToString E page) @ ''/url''
         @ qs E [(''w'', qnum w), (''h'', qnum h), (''dpr'', qnum dpr), (''q'', qnum q)])"

definition pageUrlOptions :: "hintsOrOpts option \<Rightarrow> options option \<Rightarrow> options" where
  "pageUrlOptions hintsOrOpts maybeOpts =
     (let fetchOpts = (if isHints hintsOrOpts then maybeOpts
                       else (case hintsOrOpts of
                               Some (Opts o1) \<Rightarrow> Some o1
                             | Some (Hints h) \<Rightarrow> Some noOptions
                             | None \<Rightarrow> None))
      in withGetDefaults fetchOpts (Some (noOptions\<lparr>idempotentRetries := Some 3\<rparr>)))"

definition getPageUrl ::
  "env \<Rightarrow> string \<Rightarrow> jsnum \<Rightarrow> hintsOrOpts option \<Rightarrow> options option \<Rightarrow> world \<Rightarrow>
   (exn + pageUrlResponse) \<times> world" where
  "getPageUrl E docId pg hintsOrOpts maybeOpts w =
     (if \<not> isFinite pg \<or> js_lt pg (Fin 1) then
        (Inl (APIError ''Page must be an integer >= 1'' 400
               (''/pdfs/'' @ encodeURIComponent E docId @ ''/pages/'' @ numToString E pg @ ''/url'')
               None), w)
      else
        (let path = pageUrlPath E docId pg hintsOrOpts
         in (case api_get E path (pageUrlOptions hintsOrOpts maybeOpts) w of
               (Inl e, w1) \<Rightarrow> (Inl e, w1)
             | (Inr data, w1) \<Rightarrow> parseOrThrow E (PageUrlSchema E) data path w1)))"

definition searchPath :: "env \<Rightarrow> string \<Rightarrow> string \<Rightarrow> string" where
  "searchPath E docId q = ''/pdfs/'' @ encodeURIComponent E docId @ ''/search'' @ qs E [(''q'', Some (QStr q))]"

definition searchPdf ::
  "env \<Rightarrow> string \<Rightarrow> string \<Rightarrow> options option \<Rightarrow> world \<Rightarrow> (exn + searchHit list) \<times> world" where
  "searchPdf E docId q opts w =
     (let path = searchPath E docId q
      in (case api_get E path (withGetDefaults opts None) w of
            (Inl e, w1) \<Rightarrow> (Inl e, w1)
          | (Inr data, w1) \<Rightarrow> parseOrThrow E SearchResponseSchema data path w1))"


section \<open>Reader store (\<open>src/store/usePdfStore.ts\<close>)\<close>

record pageCacheEntry =
  pc_url :: string
  pc_expiresAt :: "string option"

record readerState =
  current :: "pdfDetail option"
  page :: int
  searchHits :: "searchHit list"
  loadingDoc :: bool
  pageCache :: "int \<Rightarrow> pageCacheEntry option"

text \<open>
  \<^verbatim>\<open>
  function isExpired(expiresAt?: string, skewSeconds = 20): boolean {
    if (!expiresAt) return false;
    const t = Date.parse(expiresAt);
    if (Number.isNaN(t)) return false;
    return t - skewSeconds * 1000 <= nowMs();
  }
  \<close>
  \<open>now\<close> is the value of \<open>Date.now()\<close> at the call.
\<close>

definition isExpired :: "env \<Rightarrow> int \<Rightarrow> string option \<Rightarrow> int \<Rightarrow> bool" where
  "isExpired E now expiresAt skewSeconds =
     (case expiresAt of
        None \<Rightarrow> False
      | Some e \<Rightarrow>
          (if e = [] then False
           else (case Date_parse E e of
                   None \<Rightarrow> False
                 | Some t \<Rightarrow> t - skewSeconds * 1000 \<le> now)))"

text \<open>
  Reading and writing an array element. An index past the end reads \<open>undefined\<close>;
  writing there extends the array with holes. The index is never negative here.
\<close>

definition arrayGet :: "'a option list \<Rightarrow> int \<Rightarrow> 'a option" where
  "arrayGet xs i = (if 0 \<le> i \<and> nat i < length xs then xs ! nat i else None)"

definition arraySet :: "'a option list \<Rightarrow> int \<Rightarrow> 'a \<Rightarrow> 'a option list" where
  "arraySet xs i v =
     (if nat i < length xs then xs[nat i := Some v]
      else xs @ replicate (nat i - length xs) None @ [Some v])"

text \<open>
  \<open>safeGetPageUrl\<close> calls the page-url endpoint with the hints in third position; its
  type guard holds of every parsed response. The page number is passed on as a number.
\<close>

definition safeGetPageUrl ::
  "env \<Rightarrow> string \<Rightarrow> int \<Rightarrow> hints option \<Rightarrow> world \<Rightarrow> (exn + pageUrlResponse) \<times> world" where
  "safeGetPageUrl E docId pg opts w =
     getPageUrl E docId (Fin (of_int pg)) (map_option Hints opts) None w"

text \<open>
  \<open>resolvePageUrl\<close> up to its \<open>await\<close>: it returns or throws at once (\<open>Done\<close>), or it
  has issued \<open>safeGetPageUrl(docId, page, opts)\<close> and waits for it (\<open>Await\<close>).
\<close>

datatype resolving = Done "exn + string" | Await string int "hints option"

definition resolvePageUrl_start ::
  "env \<Rightarrow> int \<Rightarrow> int \<Rightarrow> hints option \<Rightarrow> readerState \<Rightarrow> resolving \<times> readerState" where
  "resolvePageUrl_start E now n opts s =
     (case current s of
        None \<Rightarrow> (Done (Inl (Error ''No document is open.'')), s)
      | Some cur \<Rightarrow>
          (let total = d_pages cur;
               pg = max 1 (min n total);
               docId = d_id cur
           in (case pageCache s pg of
                 Some cached \<Rightarrow>
                   (if \<not> isExpired E now (pc_expiresAt cached) 20 then (Done (Inr (pc_url cached)), s)
                    else (Await docId pg opts, s))
               | None \<Rightarrow>
                   (case d_pageUrls cur of
                      Some urls \<Rightarrow>
                        (case arrayGet urls (pg - 1) of
                           Some staticUrl \<Rightarrow>
                             (if staticUrl \<noteq> [] then
                                (Done (Inr staticUrl),
                                 s\<lparr>pageCache := (pageCache s)
                                      (pg \<mapsto> \<lparr>pc_url = staticUrl, pc_expiresAt = None\<rparr>)\<rparr>)
                              else (Await docId pg opts, s))
                         | None \<Rightarrow> (Await docId pg opts, s))
                    | None \<Rightarrow> (Await docId pg opts, s)))))"

text \<open>
  The rest of \<open>resolvePageUrl\<close>, run when the endpoint call has settled with \<open>r\<close>, in
  the state the store is in by then.
\<close>

definition resolvePageUrl_resume ::
  "string \<Rightarrow> int \<Rightarrow> exn + pageUrlResponse \<Rightarrow> readerState \<Rightarrow> (exn + string) \<times> readerState" where
  "resolvePageUrl_resume docId pg r s =
     (case r of
        Inl e \<Rightarrow> (Inl e, s)
      | Inr resp \<Rightarrow>
          (if map_option d_id (current s) \<noteq> Some docId then (Inl (Error ''Document changed''), s)
           else
             (Inr (pu_url resp),
              (case current s of
                 None \<Rightarrow> s
               | Some cur \<Rightarrow>
                   (if d_id cur \<noteq> docId then s
                    else
                      (let totalPages = max 1 (d_pages cur);
                           nextPageUrls =
                             arraySet (case d_pageUrls cur of
                                         Some urls \<Rightarrow> urls
                                       | None \<Rightarrow> replicate (nat totalPages) None)
                               (pg - 1) (pu_url resp)
                       in s\<lparr>current := Some (cur\<lparr>d_pageUrls := Some nextPageUrls\<rparr>),
                            pageCache := (pageCache s)
                              (pg \<mapsto> \<lparr>pc_url = pu_url resp, pc_expiresAt = pu_expiresAt resp\<rparr>)\<rparr>))))))"

text \<open>The whole call when nothing else runs in between.\<close>

definition resolvePageUrl ::
  "env \<Rightarrow> int \<Rightarrow> int \<Rightarrow> hints option \<Rightarrow> readerState \<times> world \<Rightarrow> (exn + string) \<times> readerState \<times> world" where
  "resolvePageUrl E now n opts sw =
     (case resolvePageUrl_start E now n opts (fst sw) of
        (Done r, s1) \<Rightarrow> (r, s1, snd sw)
      | (Await docId pg o1, s1) \<Rightarrow>
          (case safeGetPageUrl E docId pg o1 (snd sw) of
             (r, w1) \<Rightarrow> (case resolvePageUrl_resume docId pg r s1 of (v, s2) \<Rightarrow> (v, s2, w1))))"

text \<open>
  \<open>open(id)\<close>: the part before \<open>await getPdfDetail(id)\<close> (\<open>True\<close> when the call is
  already finished because the document is the current one) and the part after it.
\<close>

definition open_start :: "string \<Rightarrow> readerState \<Rightarrow> bool \<times> readerState" where
  "open_start docId s =
     (let s1 = s\<lparr>pageCache := (\<lambda>k. None)\<rparr>
      in if map_option d_id (current s) = Some docId
         then (True, s1\<lparr>loadingDoc := False, searchHits := []\<rparr>)
         else (False, s1\<lparr>loadingDoc := True, searchHits := [], page := 1\<rparr>))"

definition open_resume :: "exn + pdfDetail \<Rightarrow> readerState \<Rightarrow> (exn + unit) \<times> readerState" where
  "open_resume r s =
     (case r of
        Inr detail \<Rightarrow>
          (Inr (), s\<lparr>current := Some detail, loadingDoc := False, page := 1, searchHits := [],
                     pageCache := (\<lambda>k. None)\<rparr>)
      | Inl e \<Rightarrow> (Inl (Error ''Failed to open document''), s\<lparr>loadingDoc := False\<rparr>))"

section \<open>Example platforms and runs\<close>





definition tokenResponse :: response where
  "tokenResponse = \<lparr>status = 200, bodyText = Some ''{accessToken:t2}''\<rparr>"

definition demoEnv :: env where
  "demoEnv =
     \<lparr>BASE_URL = ''https://api.example/v1/'',
      net = (\<lambda>h. Resp tokenResponse),
      JSON_parse = (\<lambda>t. if t = ''{accessToken:t2}''
                         then Some (JObj [(''accessToken'', JStr ''t2'')]) else None),
      encodeURIComponent = (\<lambda>t. t),
      numToString = (\<lambda>n. case n of Fin q \<Rightarrow> showInt \<lfloor>q\<rfloor> | _ \<Rightarrow> ''NaN''),
      searchParamsToString = (\<lambda>ps. concat (map (\<lambda>(k, v). k @ ''='' @ v @ ''&'') ps)),
      isDatetime = (\<lambda>t. length t = 24),
      Date_parse = (\<lambda>t. if t = ''2025-01-01T00:00:00.000Z'' then Some 1735689600000 else None),
      nowISO = ''2025-01-01T00:00:00.000Z'',
      DEV = False\<rparr>"

definition twoCallers :: world where
  "twoCallers = run demoEnv [Call, Call] (idle webMemoryStore)"

definition refreshed :: world where
  "refreshed = run demoEnv [Call, Call, Resume 0 (Resp tokenResponse),
                            Resume 0 (Resp tokenResponse), Resume 0 (Resp tokenResponse)]
                 (idle webMemoryStore)"

definition unauthorized :: response where
  "unauthorized = \<lparr>status = 401, bodyText = Some ''''\<rparr>"


definition okResponse :: response where
  "okResponse = \<lparr>status = 200, bodyText = Some ''[]''\<rparr>"

definition loggedIn :: world where
  "loggedIn = idle (webMemoryStore\<lparr>inMemoryToken := Some ''t1''\<rparr>)"

definition envRefreshOk :: env where
  "envRefreshOk = demoEnv\<lparr>net := (\<lambda>h. if length h = 2 then Resp tokenResponse else Resp unauthorized)\<rparr>"

definition envRefreshFails :: env where
  "envRefreshFails = demoEnv\<lparr>net := (\<lambda>h. Resp unauthorized)\<rparr>"


definition pdfsRequest :: "string \<Rightarrow> request" where
  "pdfsRequest method =
     \<lparr>req_url = ''https://api.example/v1/pdfs'', req_method = method,
      req_headers = [(''accept'', ''application/json''), (''authorization'', ''Bearer t1'')],
      req_credentials = ''include'', req_body = None\<rparr>"

definition afterFirst :: world where
  "afterFirst = loggedIn\<lparr>events := [Fetch (pdfsRequest ''GET'') (Some 20000)]\<rparr>"


definition doc1 :: pdfDetail where
  "doc1 = \<lparr>d_id = ''doc1'', d_title = ''Algorithms Illustrated'', d_pages = 3,
            d_category = None, d_tags = [],
            d_pageUrls = Some [Some ''https://cdn.example/doc1/p1.png'', None, Some []]\<rparr>"

definition doc2 :: pdfDetail where
  "doc2 = \<lparr>d_id = ''doc2'', d_title = ''Second'', d_pages = 5,
            d_category = None, d_tags = [], d_pageUrls = None\<rparr>"

definition readingDoc1 :: readerState where
  "readingDoc1 = \<lparr>current = Some doc1, page = 1, searchHits = [], loadingDoc = False,
                    pageCache = (\<lambda>k. None)\<rparr>"

definition signedEntry :: "string option \<Rightarrow> pageCacheEntry" where
  "signedEntry e = \<lparr>pc_url = ''https://signed.example/doc1/p1?sig=1'', pc_expiresAt = e\<rparr>"

definition cachedDoc1 :: "string option \<Rightarrow> readerState" where
  "cachedDoc1 e = readingDoc1\<lparr>pageCache := (\<lambda>k. None)(1 \<mapsto> signedEntry e)\<rparr>"

definition signedResponse :: pageUrlResponse where
  "signedResponse = \<lparr>pu_url = ''https://signed.example/doc1/p2?sig=2'',
                       pu_expiresAt = Some ''2025-01-01T00:00:00.000Z'', pu_contentType = None,
                       pu_width = None, pu_height = None, pu_etag = None, pu_cacheControl = None\<rparr>"

definition switchedToDoc2 :: readerState where
  "switchedToDoc2 = snd (open_resume (Inr doc2) (snd (open_start ''doc2'' readingDoc1)))"

text \<open>
  A backend that answers by the request it is asked: the refresh request gets a new
  token, a request carrying that token succeeds and any other is refused. \<open>refreshing\<close>
  is the logged-in client while another caller's refresh is in flight.
\<close>

definition envJoin :: env where
  "envJoin = demoEnv
     \<lparr>net := (\<lambda>h. case last h of
                     Fetch rq t \<Rightarrow>
                       (if t = None then Resp tokenResponse
                        else if Headers_get ''Authorization'' (req_headers rq) = Some ''Bearer t2''
                        then Resp okResponse else Resp unauthorized)
                   | _ \<Rightarrow> Throws NetworkError)\<rparr>"

definition refreshing :: world where
  "refreshing = snd (refreshAccessToken envJoin loggedIn)"

definition joined :: world where
  "joined = refreshing\<lparr>events := events refreshing @ [Fetch (pdfsRequest ''GET'') (Some 20000)]\<rparr>"

subsection \<open>A backend with ill-shaped answers\<close>

fun joinParams :: "(string \<times> string) list \<Rightarrow> string" where
  "joinParams [] = []"
| "joinParams [(k, v)] = k @ ''='' @ v"
| "joinParams ((k, v) # rest) = k @ ''='' @ v @ ''&'' @ joinParams rest"

definition rawList :: json where
  "rawList = JObj [(''items'', JArr [JObj [(''_id'', JStr ''a1''), (''name'', JStr ''X''),
                                          (''pageCount'', JNum (Fin 3))]])]"

definition rawDetail :: json where
  "rawDetail = JObj [(''_id'', JStr ''doc1''), (''name'', JStr ''Algorithms Illustrated''),
                     (''pageCount'', JNum (Fin 3))]"

definition rawPageUrl :: json where
  "rawPageUrl = JObj [(''href'', JStr ''https://signed.example/doc1/p2?sig=2'')]"

definition rawHits :: json where
  "rawHits = JObj [(''hits'', JArr [JObj [(''page'', JStr ''3'')]])]"

text \<open>
  A backend whose answers have the wrong shape: the body depends on the URL asked for,
  and \<open>JSON_parse\<close> reads the four bodies.
\<close>

definition shapeBody :: "string \<Rightarrow> string" where
  "shapeBody url =
     (if url = ''https://api.example/v1/pdfs'' then ''LIST''
      else if url = ''https://api.example/v1/pdfs/doc1'' then ''DETAIL''
      else if url = ''https://api.example/v1/pdfs/doc1/pages/2/url'' then ''PAGEURL''
      else ''HITS'')"

definition envShapes :: env where
  "envShapes = demoEnv
     \<lparr>net := (\<lambda>h. case last h of
                     Fetch rq t \<Rightarrow> Resp \<lparr>status = 200, bodyText = Some (shapeBody (req_url rq))\<rparr>
                   | _ \<Rightarrow> Throws NetworkError),
      JSON_parse := (\<lambda>t. if t = ''LIST'' then Some rawList
                          else if t = ''DETAIL'' then Some rawDetail
                          else if t = ''PAGEURL'' then Some rawPageUrl
                          else if t = ''HITS'' then Some rawHits else None),
      searchParamsToString := joinParams,
      DEV := True\<rparr>"

definition isConsoleError :: "event \<Rightarrow> bool" where
  "isConsoleError ev = (case ev of ConsoleError url issues \<Rightarrow> True | _ \<Rightarrow> False)"

section \<open>Properties of \<open>toURL\<close>\<close>

lemma stripLeadingSlashes_decomp:
  "\<exists>j. s = replicate j CHR ''/'' @ stripLeadingSlashes s"
proof -
  have "s = takeWhile isSlash s @ dropWhile isSlash s" by simp
  moreover have "takeWhile isSlash s = replicate (length (takeWhile isSlash s)) CHR ''/''"
  proof (rule replicate_eqI)
    show "length (takeWhile isSlash s) = length (takeWhile isSlash s)" by simp
  next
    fix y assume "y \<in> set (takeWhile isSlash s)"
    then show "y = CHR ''/''" using set_takeWhileD [of y isSlash s] by (simp add: isSlash_def)
  qed
  ultimately show ?thesis unfolding stripLeadingSlashes_def by metis
qed

lemma stripLeadingSlashes_head:
  "stripLeadingSlashes s = [] \<or> hd (stripLeadingSlashes s) \<noteq> CHR ''/''"
  unfolding stripLeadingSlashes_def
  using hd_dropWhile [of isSlash s] by (auto simp: isSlash_def)

lemma stripTrailingSlashes_decomp:
  "\<exists>k. s = stripTrailingSlashes s @ replicate k CHR ''/''"
proof -
  obtain j where "rev s = replicate j CHR ''/'' @ stripLeadingSlashes (rev s)"
    using stripLeadingSlashes_decomp by blast
  then have "rev (rev s) = rev (replicate j CHR ''/'' @ stripLeadingSlashes (rev s))"
    by simp
  then have "s = stripTrailingSlashes s @ replicate j CHR ''/''"
    by (simp add: stripTrailingSlashes_def stripLeadingSlashes_def)
  then show ?thesis ..
qed

lemma stripTrailingSlashes_last:
  "stripTrailingSlashes s = [] \<or> last (stripTrailingSlashes s) \<noteq> CHR ''/''"
proof -
  have "stripLeadingSlashes (rev s) = [] \<or> hd (stripLeadingSlashes (rev s)) \<noteq> CHR ''/''"
    by (rule stripLeadingSlashes_head)
  then show ?thesis
    by (auto simp: stripTrailingSlashes_def stripLeadingSlashes_def last_rev)
qed

text \<open>
  Claim C6. An input that matches the absolute-URI pattern is returned verbatim, whatever
  the base URL. Any other input yields the base URL without its trailing slashes, one
  \<open>/\<close>, and the input without its leading slashes: what is left of the base does not end
  in a slash, what is left of the input does not start with one, and each differs from the
  original only by the removed run of slashes. So exactly one slash separates the two.
\<close>

theorem toURL_absolute_or_joined:
  "(isAbsoluteURI input \<longrightarrow> toURL base input = input) \<and>
   (\<not> isAbsoluteURI input \<longrightarrow>
      toURL base input
        = stripTrailingSlashes base @ ''/'' @ stripLeadingSlashes input \<and>
      (\<exists>k. base = stripTrailingSlashes base @ replicate k CHR ''/'') \<and>
      (\<exists>j. input = replicate j CHR ''/'' @ stripLeadingSlashes input) \<and>
      (stripTrailingSlashes base = [] \<or> last (stripTrailingSlashes base) \<noteq> CHR ''/'') \<and>
      (stripLeadingSlashes input = [] \<or> hd (stripLeadingSlashes input) \<noteq> CHR ''/''))"
  using stripTrailingSlashes_decomp [of base] stripLeadingSlashes_decomp [of input]
    stripTrailingSlashes_last [of base] stripLeadingSlashes_head [of input]
  by (simp add: toURL_def)

theorem toURL_absolute_or_joined_witness:
  "isAbsoluteURI ''mock://api/x'' \<and>
   toURL ''https://h.example/v1//'' ''mock://api/x'' = ''mock://api/x'' \<and>
   \<not> isAbsoluteURI ''//pdfs/7'' \<and>
   toURL ''https://h.example/v1//'' ''//pdfs/7'' = ''https://h.example/v1/pdfs/7''"
proof -
  have a: "isAbsoluteURI ''mock://api/x''"
    by (simp add: isAbsoluteURI_def isSchemeStart_def isSchemeChar_def)
  have b: "\<not> isAbsoluteURI ''//pdfs/7''"
    by (simp add: isAbsoluteURI_def isSchemeStart_def isSchemeChar_def)
  have c: "stripTrailingSlashes ''https://h.example/v1//'' = ''https://h.example/v1''"
    by (simp add: stripTrailingSlashes_def isSlash_def)
  have d: "stripLeadingSlashes ''//pdfs/7'' = ''pdfs/7''"
    by (simp add: stripLeadingSlashes_def isSlash_def)
  from a b c d
    toURL_absolute_or_joined [of "''mock://api/x''" "''https://h.example/v1//''"]
    toURL_absolute_or_joined [of "''//pdfs/7''" "''https://h.example/v1//''"]
  show ?thesis by simp
qed


section \<open>Properties of the refresh coordinator\<close>

lemma coordOK_idle: "coordOK (idle s)"
  by (simp add: coordOK_def idle_def)

lemma coordOK_call: "coordOK w \<Longrightarrow> coordOK (snd (refreshAccessToken E w))"
  by (auto simp: coordOK_def refreshAccessToken_def Let_def isSettled_def split: option.splits dest: in_set_butlastD)

lemma set_update_last: "ps \<noteq> [] \<Longrightarrow> ps[length ps - Suc 0 := x] = butlast ps @ [x]"
  by (induction ps rule: rev_induct) auto

lemma coordOK_settle:
  "coordOK w \<Longrightarrow> refreshPromise w = Some p \<Longrightarrow> coordOK (settle p v w)"
  by (auto simp: coordOK_def settle_def set_update_last isSettled_def dest: in_set_butlastD)

lemma coordOK_phase:
  "coordOK w \<Longrightarrow> refreshPromise w = Some p \<Longrightarrow> \<not> isSettled ph \<Longrightarrow>
   coordOK (w\<lparr>promises := (promises w)[p := ph]\<rparr>)"
  by (auto simp: coordOK_def set_update_last)

lemma coordOK_cong:
  "promises w1 = promises w \<Longrightarrow> refreshPromise w1 = refreshPromise w \<Longrightarrow> coordOK w1 = coordOK w"
  by (simp add: coordOK_def split: option.splits)

lemma TokenStore_set_frame:
  "TokenStore_set t w = (r, w1) \<Longrightarrow>
   promises w1 = promises w \<and> refreshPromise w1 = refreshPromise w \<and> events w1 = events w"
  by (auto simp: TokenStore_set_def split: prod.splits)

lemma unsettled_is_slot:
  "coordOK w \<Longrightarrow> p < length (promises w) \<Longrightarrow> \<not> isSettled (promises w ! p) \<Longrightarrow> refreshPromise w = Some p"
  apply (cases "promises w" rule: rev_cases)
   apply simp
  apply (auto simp: coordOK_def nth_append split: option.splits if_splits)
  done

lemma coordOK_resume: 
  assumes "coordOK w" shows "coordOK (resume E p outcome w)"
proof (cases "p < length (promises w) \<and> \<not> isSettled (promises w ! p)")
  case False
  then show ?thesis using assms by (auto simp: resume_def isSettled_def split: phase.splits)
next
  case True
  then have slot: "refreshPromise w = Some p" using assms unsettled_is_slot by blast
  show ?thesis
  proof (cases "promises w ! p")
    case AwaitFetch
    then show ?thesis using True slot assms
      by (auto simp: resume_def resumeFetch_def coordOK_settle coordOK_phase isSettled_def split: fetch_outcome.splits)
  next
    case (AwaitText res)
    have "coordOK (resumeText E p res w)"
    proof -
      { fix t r w1 assume a: "TokenStore_set t w = (r, w1)"
        have "coordOK w1 \<and> refreshPromise w1 = Some p"
          using TokenStore_set_frame[OF a] assms slot coordOK_cong[of w1 w] by simp }
      note h = this
      show ?thesis using assms slot
        by (auto simp: resumeText_def coordOK_settle coordOK_phase isSettled_def dest!: h split: sum.splits option.splits prod.splits)
    qed
    then show ?thesis using True AwaitText by (simp add: resume_def)
  next
    case (AwaitStore x3)
    then show ?thesis using True slot assms by (auto simp: resume_def resumeStore_def coordOK_settle)
  next
    case (Settled x4)
    then show ?thesis using True by (simp add: isSettled_def)
  qed
qed

lemma coordOK_step: "coordOK w \<Longrightarrow> coordOK (step E a w)"
  by (cases a) (simp_all add: coordOK_call coordOK_resume)

lemma coordOK_run: "coordOK w \<Longrightarrow> coordOK (run E acts w)"
  unfolding run_def by (induction acts arbitrary: w) (simp_all add: coordOK_step)


lemma coordOK_inFlight: assumes "coordOK w" shows "inFlight w \<le> 1"
proof (cases "promises w = []")
  case True then show ?thesis by (simp add: inFlight_def)
next
  case False
  then have eq: "promises w = butlast (promises w) @ [last (promises w)]" by simp
  have "filter isAwaitFetch (butlast (promises w)) = []"
    using assms by (auto simp: coordOK_def filter_empty_conv isSettled_def isAwaitFetch_def split: phase.splits)
  then have "length (filter isAwaitFetch (butlast (promises w) @ [last (promises w)])) \<le> 1"
    by simp
  then show ?thesis unfolding inFlight_def using eq by simp
qed

lemma coordOK_slot: assumes "coordOK w" shows "outstanding w p \<longleftrightarrow> refreshPromise w = Some p"
proof
  assume "outstanding w p"
  then show "refreshPromise w = Some p" using assms unsettled_is_slot by (simp add: outstanding_def)
next
  assume "refreshPromise w = Some p"
  then show "outstanding w p" using assms
    by (auto simp: coordOK_def outstanding_def last_conv_nth)
qed

lemma call_when_outstanding:
  "coordOK w \<Longrightarrow> outstanding w p \<Longrightarrow> refreshAccessToken E w = (p, w)"
  by (simp add: coordOK_slot refreshAccessToken_def)

lemma call_when_idle:
  assumes "coordOK w" "\<forall>p. \<not> outstanding w p"
  shows "refreshAccessToken E w =
           (length (promises w),
            w\<lparr>events := events w @ [Fetch (refresh_request E) None],
              promises := promises w @ [AwaitFetch],
              refreshPromise := Some (length (promises w))\<rparr>)"
    and "outstanding (snd (refreshAccessToken E w)) (length (promises w))"
    and "inFlight (snd (refreshAccessToken E w)) = 1"
proof -
  have none: "refreshPromise w = None"
  proof (cases "refreshPromise w")
    case (Some p) then show ?thesis using assms coordOK_slot by blast
  qed simp
  then show a: "refreshAccessToken E w =
           (length (promises w),
            w\<lparr>events := events w @ [Fetch (refresh_request E) None],
              promises := promises w @ [AwaitFetch],
              refreshPromise := Some (length (promises w))\<rparr>)"
    by (simp add: refreshAccessToken_def Let_def)
  show "outstanding (snd (refreshAccessToken E w)) (length (promises w))"
    by (simp add: a outstanding_def isSettled_def)
  have "filter isAwaitFetch (promises w) = []"
    using assms(1) none by (auto simp: coordOK_def filter_empty_conv isSettled_def isAwaitFetch_def split: phase.splits)
  then show "inFlight (snd (refreshAccessToken E w)) = 1"
    by (simp add: a inFlight_def isAwaitFetch_def)
qed

lemma calls_when_outstanding:
  "coordOK w \<Longrightarrow> outstanding w p \<Longrightarrow> run E (replicate n Call) w = w"
  by (induction n) (simp_all add: run_def call_when_outstanding)

lemma resume_length: "length (promises (resume E q outcome w)) = length (promises w)"
  by (auto simp: resume_def resumeFetch_def resumeText_def resumeStore_def settle_def
      TokenStore_set_def
      split: phase.splits fetch_outcome.splits sum.splits option.splits prod.splits)

lemma resume_other:
  "p \<noteq> q \<Longrightarrow> promises (resume E q outcome w) ! p = promises w ! p"
  by (auto simp: resume_def resumeFetch_def resumeText_def resumeStore_def settle_def
      TokenStore_set_def
      split: phase.splits fetch_outcome.splits sum.splits option.splits prod.splits)

lemma resume_settled:
  "promiseValue w p = Some v \<Longrightarrow> resume E p outcome w = w"
  by (auto simp: promiseValue_def resume_def split: if_splits phase.splits)

lemma promiseValue_step:
  assumes "promiseValue w p = Some v" shows "promiseValue (step E a w) p = Some v"
proof (cases a)
  case Call
  then show ?thesis using assms
    by (auto simp: promiseValue_def refreshAccessToken_def Let_def nth_append split: option.splits if_splits)
next
  case (Resume q outcome)
  show ?thesis
  proof (cases "q = p")
    case True then show ?thesis using assms Resume by (simp add: resume_settled)
  next
    case False
    then show ?thesis using assms Resume resume_other[of p q E outcome w] resume_length[of E q outcome w]
      by (simp add: promiseValue_def split: if_splits)
  qed
qed

lemma promiseValue_run:
  "promiseValue w p = Some v \<Longrightarrow> promiseValue (run E acts w) p = Some v"
  unfolding run_def by (induction acts arbitrary: w) (simp_all add: promiseValue_step)

text \<open>
  Claim C1. In every state the coordinator can reach from idle, under any interleaving
  of callers and continuation steps: at most one refresh request is unanswered; a promise
  is unsettled exactly when it is the one in the slot; a call made while a promise is
  unsettled returns that promise and leaves the state as it is, so no further request is
  sent however many callers arrive; when no promise is unsettled the slot is empty, and one
  or more calls send exactly one new refresh request; a settled promise has left the slot
  and shows the same value to everyone who reads it from then on.
\<close>

theorem refresh_single_flight:
  assumes "w = run E acts (idle s)"
  shows "inFlight w \<le> 1 \<and>
         (\<forall>p. outstanding w p \<longleftrightarrow> refreshPromise w = Some p) \<and>
         (\<forall>p n. outstanding w p \<longrightarrow>
                 refreshAccessToken E w = (p, w) \<and> run E (replicate n Call) w = w) \<and>
         ((\<forall>p. \<not> outstanding w p) \<longrightarrow>
            (\<forall>n. run E (replicate (Suc n) Call) w = snd (refreshAccessToken E w)) \<and>
            events (snd (refreshAccessToken E w)) = events w @ [Fetch (refresh_request E) None] \<and>
            outstanding (snd (refreshAccessToken E w)) (fst (refreshAccessToken E w)) \<and>
            inFlight (snd (refreshAccessToken E w)) = 1) \<and>
         (\<forall>p v more. promiseValue w p = Some v \<longrightarrow>
                      \<not> outstanding w p \<and> promiseValue (run E more w) p = Some v)"
proof -
  have inv: "coordOK w" using assms coordOK_run coordOK_idle by simp
  have inv': "coordOK (snd (refreshAccessToken E w))" using inv by (rule coordOK_call)
  have c1: "inFlight w \<le> 1" using inv by (rule coordOK_inFlight)
  have c2: "\<forall>p. outstanding w p \<longleftrightarrow> refreshPromise w = Some p" using inv coordOK_slot by blast
  have c3: "\<forall>p n. outstanding w p \<longrightarrow>
                 refreshAccessToken E w = (p, w) \<and> run E (replicate n Call) w = w"
    using inv call_when_outstanding calls_when_outstanding by blast
  have c4: "(\<forall>p. \<not> outstanding w p) \<longrightarrow>
            (\<forall>n. run E (replicate (Suc n) Call) w = snd (refreshAccessToken E w)) \<and>
            events (snd (refreshAccessToken E w)) = events w @ [Fetch (refresh_request E) None] \<and>
            outstanding (snd (refreshAccessToken E w)) (fst (refreshAccessToken E w)) \<and>
            inFlight (snd (refreshAccessToken E w)) = 1"
  proof
    assume idle: "\<forall>p. \<not> outstanding w p"
    note h = call_when_idle[OF inv idle, of E]
    have "\<forall>n. run E (replicate (Suc n) Call) w = snd (refreshAccessToken E w)"
    proof
      fix n
      have "run E (replicate (Suc n) Call) w = run E (replicate n Call) (snd (refreshAccessToken E w))"
        by (simp add: run_def)
      also have "\<dots> = snd (refreshAccessToken E w)"
        using calls_when_outstanding[OF inv' h(2)] .
      finally show "run E (replicate (Suc n) Call) w = snd (refreshAccessToken E w)" .
    qed
    moreover have "events (snd (refreshAccessToken E w)) = events w @ [Fetch (refresh_request E) None]"
      by (simp add: h(1))
    moreover have "outstanding (snd (refreshAccessToken E w)) (fst (refreshAccessToken E w))"
      using h(2) by (simp add: h(1))
    ultimately show "(\<forall>n. run E (replicate (Suc n) Call) w = snd (refreshAccessToken E w)) \<and>
            events (snd (refreshAccessToken E w)) = events w @ [Fetch (refresh_request E) None] \<and>
            outstanding (snd (refreshAccessToken E w)) (fst (refreshAccessToken E w)) \<and>
            inFlight (snd (refreshAccessToken E w)) = 1" using h(3) by blast
  qed
  have c5: "\<forall>p v more. promiseValue w p = Some v \<longrightarrow>
                      \<not> outstanding w p \<and> promiseValue (run E more w) p = Some v"
    using promiseValue_run
    by (auto simp: promiseValue_def outstanding_def isSettled_def split: if_splits phase.splits)
  show ?thesis using c1 c2 c3 c4 c5 by blast
qed


lemmas coord_eval = run_def idle_def refreshAccessToken_def resume_def resumeFetch_def
  resumeText_def resumeStore_def settle_def ok_def safeJson_def accessTokenOf_def truthy_def
  TokenStore_set_def setAccessToken_def setItemAsync_def broadcastToken_def ACCESS_TOKEN_KEY_def
  webMemoryStore_def demoEnv_def tokenResponse_def Let_def

lemma twoCallers_eval:
  "promises twoCallers = [AwaitFetch] \<and> refreshPromise twoCallers = Some 0 \<and>
   events twoCallers = [Fetch (refresh_request demoEnv) None]"
  by (simp add: twoCallers_def coord_eval)

lemma refreshed_eval:
  "promises refreshed = [Settled (Some ''t2'')] \<and> refreshPromise refreshed = None \<and>
   events refreshed = [Fetch (refresh_request demoEnv) None] \<and>
   inMemoryToken (tokens refreshed) = Some ''t2''"
  by (simp add: refreshed_def coord_eval)

theorem refresh_single_flight_witness:
  "outstanding twoCallers 0 \<and> refreshAccessToken demoEnv twoCallers = (0, twoCallers) \<and>
   inFlight twoCallers \<le> 1 \<and>
   events twoCallers = [Fetch (refresh_request demoEnv) None] \<and>
   promiseValue refreshed 0 = Some (Some ''t2'') \<and> refreshPromise refreshed = None \<and>
   (\<forall>p. \<not> outstanding refreshed p) \<and>
   events (snd (refreshAccessToken demoEnv refreshed))
     = [Fetch (refresh_request demoEnv) None, Fetch (refresh_request demoEnv) None] \<and>
   promiseValue (run demoEnv [Call] refreshed) 0 = Some (Some ''t2'')"
proof -
  have a: "outstanding twoCallers 0"
    using twoCallers_eval by (simp add: outstanding_def isSettled_def)
  have b: "promiseValue refreshed 0 = Some (Some ''t2'')"
    using refreshed_eval by (simp add: promiseValue_def)
  have c: "\<forall>p. \<not> outstanding refreshed p"
  proof (intro allI notI)
    fix p assume o: "outstanding refreshed p"
    then have "p < length (promises refreshed)" by (simp add: outstanding_def)
    then have "p = 0" using refreshed_eval by simp
    then show False using o refreshed_eval by (simp add: outstanding_def isSettled_def)
  qed
  from a b c twoCallers_eval refreshed_eval
    refresh_single_flight [OF twoCallers_def]
    refresh_single_flight [OF refreshed_def]
  show ?thesis by simp
qed


section \<open>Properties of the token store\<close>

lemmas store_defs = getAccessToken_def setAccessToken_def getItemAsync_def setItemAsync_def
  secureStoreAvailable_def SecureStore_isAvailableAsync_def SecureStore_getItemAsync_def
  SecureStore_setItemAsync_def sessionStorage_getItem_def sessionStorage_setItem_def
  broadcastToken_def storeAvailable_def


lemma set_never_throws: "\<exists>u. fst (setAccessToken t s) = Inr u"
  by (auto simp: store_defs SecureStore_deleteItemAsync_def sessionStorage_removeItem_def
      Let_def split: probe_result.splits if_splits sum.splits prod.splits bool.splits option.splits)











section \<open>Properties of \<open>apiFetch\<close>\<close>

lemma fetchWithTimeout_events:
  "fetchWithTimeout E req t w = (r, w') \<Longrightarrow>
   events w' = events w @ [Fetch req (Some t)] \<and> tokens w' = tokens w \<and>
   promises w' = promises w \<and> refreshPromise w' = refreshPromise w"
  by (auto simp: fetchWithTimeout_def fetch_def Let_def split: fetch_outcome.splits)

lemma backoff_stop:
  "\<not> (isGet \<and> remaining > 0 \<and> isTransient (status res)) \<Longrightarrow>
   backoff E req t isGet configured res remaining w = (Inr res, w)"
  by (subst backoff.simps) auto

lemma transient_not_ok: "isTransient (status res) \<Longrightarrow> \<not> ok res"
  by (auto simp: isTransient_def transientStatuses_def ok_def)

lemma backoff_events:
  "\<exists>m. int m \<le> max 0 remaining \<and>
       events (snd (backoff E req t isGet configured res remaining w))
         = events w @ backoffEvents req t (configured - remaining + 1) m \<and>
       (\<not> isGet \<longrightarrow> m = 0) \<and>
       (\<not> isTransient (status res) \<longrightarrow> m = 0) \<and>
       (isGet \<and> 0 < remaining \<and> isTransient (status res) \<longrightarrow> 1 \<le> m) \<and>
       (\<forall>r. fst (backoff E req t isGet configured res remaining w) = Inr r \<and> isGet \<and>
            isTransient (status r) \<longrightarrow> int m = max 0 remaining)"
proof (induction E req t isGet configured res remaining w rule: backoff.induct)
  case (1 E req t isGet configured res remaining w)
  show ?case
  proof (cases "isGet \<and> remaining > 0 \<and> isTransient (status res)")
    case False
    then have "backoff E req t isGet configured res remaining w = (Inr res, w)"
      by (rule backoff_stop)
    then show ?thesis using False by (intro exI[of _ 0]) auto
  next
    case True
    then have nok: "\<not> ok res" using transient_not_ok by blast
    define w1 where "w1 = w\<lparr>events := events w @ [Sleep (min (1500 * (configured - remaining + 1)) 4000)]\<rparr>"
    obtain r w2 where f: "fetchWithTimeout E req t w1 = (r, w2)" by (cases "fetchWithTimeout E req t w1")
    have ev2: "events w2 = events w @ [Sleep (min (1500 * (configured - remaining + 1)) 4000), Fetch req (Some t)]"
      using fetchWithTimeout_events[OF f] by (simp add: w1_def)
    show ?thesis
    proof (cases r)
      case (Inl e)
      have "backoff E req t isGet configured res remaining w = (Inl e, w2)"
        using True nok f Inl by (subst backoff.simps) (simp add: Let_def w1_def)
      then show ?thesis using True ev2 by (intro exI[of _ 1]) auto
    next
      case (Inr res')
      have eq: "backoff E req t isGet configured res remaining w
                 = backoff E req t isGet configured res' (remaining - 1) w2"
        using True nok f Inr by (subst backoff.simps) (simp add: Let_def w1_def)
      have c: "\<not> ok res \<and> isGet \<and> 0 < remaining \<and> isTransient (status res)"
        using True nok by simp
      have f': "(r, w2) = fetchWithTimeout E req t
                  (w\<lparr>events := events w @ [Sleep (min (1500 * (configured - remaining + 1)) 4000)]\<rparr>)"
        using f by (simp add: w1_def)
      from "1.IH"[OF c refl refl refl f' Inr]
      obtain m where m: "int m \<le> max 0 (remaining - 1)"
         "events (snd (backoff E req t isGet configured res' (remaining - 1) w2))
            = events w2 @ backoffEvents req t (configured - (remaining - 1) + 1) m"
         "\<forall>r. fst (backoff E req t isGet configured res' (remaining - 1) w2) = Inr r \<and> isGet \<and>
            isTransient (status r) \<longrightarrow> int m = max 0 (remaining - 1)"
        by auto
      have k: "configured - (remaining - 1) + 1 = (configured - remaining + 1) + 1" by simp
      have e1: "events (snd (backoff E req t isGet configured res remaining w))
                  = events w @ backoffEvents req t (configured - remaining + 1) (Suc m)"
        unfolding eq m(2) ev2 k by simp
      have e2: "int (Suc m) \<le> max 0 remaining" using m(1) True by simp
      have e3: "\<forall>r. fst (backoff E req t isGet configured res remaining w) = Inr r \<and> isGet \<and>
                  isTransient (status r) \<longrightarrow> int (Suc m) = max 0 remaining"
        unfolding eq using m(3) True by auto
      have e4: "1 \<le> Suc m" "Suc m \<noteq> 0" by simp_all
      show ?thesis using e1 e2 e3 e4 True by (intro exI[of _ "Suc m"]) blast
    qed
  qed
qed


lemma TokenStore_set_total:
  "TokenStore_set t w = (Inr (), w\<lparr>tokens := snd (setAccessToken t (tokens w))\<rparr>)"
  using set_never_throws[of t "tokens w"]
  by (auto simp: TokenStore_set_def split: prod.splits)

lemma advance_length: "length (promises (advance E p w)) = length (promises w)"
  by (simp add: advance_def resume_length)

lemma advance_events: "events (advance E p w) = events w"
  by (auto simp: advance_def resume_def resumeFetch_def resumeText_def resumeStore_def settle_def
      TokenStore_set_total
      split: phase.splits fetch_outcome.splits sum.splits option.splits prod.splits)

lemma advance_settled:
  "p < length (promises w) \<Longrightarrow> promises w ! p = Settled v \<Longrightarrow> advance E p w = w"
  by (simp add: advance_def resume_def)

lemma advance_store:
  "p < length (promises w) \<Longrightarrow> promises w ! p = AwaitStore t \<Longrightarrow>
   advance E p w = settle p (Some t) w"
  by (simp add: advance_def resume_def resumeStore_def)

lemma advance_text:
  "p < length (promises w) \<Longrightarrow> promises w ! p = AwaitText res \<Longrightarrow>
   (\<exists>v. advance E p w = settle p v w \<and> (\<forall>t. v = Some t \<longrightarrow> \<not> truthy t)) \<or>
   (\<exists>t. truthy t \<and> promises (advance E p w) ! p = AwaitStore t)"
  by (auto simp: advance_def resume_def resumeText_def TokenStore_set_total
      split: sum.splits option.splits)

lemma advance_fetch:
  "p < length (promises w) \<Longrightarrow> promises w ! p = AwaitFetch \<Longrightarrow>
   advance E p w = settle p None w \<or>
   (\<exists>res. advance E p w = w\<lparr>promises := (promises w)[p := AwaitText res]\<rparr>)"
  by (auto simp: advance_def resume_def resumeFetch_def split: fetch_outcome.splits)

lemma settle_facts:
  "p < length (promises w) \<Longrightarrow>
   promises (settle p v w) ! p = Settled v \<and> tokens (settle p v w) = tokens w \<and>
   length (promises (settle p v w)) = length (promises w)"
  by (simp add: settle_def)


lemma advance_step:
  assumes "p < length (promises w)" "tokensKept s0 p w"
  shows "tokensKept s0 p (advance E p w) \<and>
         phaseRank (promises (advance E p w) ! p) \<le> phaseRank (promises w ! p) - 1"
proof (cases "promises w ! p")
  case (Settled v)
  then show ?thesis using assms by (simp add: advance_settled phaseRank_def)
next
  case (AwaitStore t)
  then show ?thesis using assms
    by (simp add: advance_store settle_def tokensKept_def phaseRank_def falsy_def)
next
  case (AwaitText res)
  then show ?thesis using assms
    by (auto simp: advance_def resume_def resumeText_def TokenStore_set_total settle_def
        tokensKept_def phaseRank_def falsy_def truthy_def
        split: sum.splits option.splits)
next
  case AwaitFetch
  then show ?thesis using assms
    by (auto simp: advance_def resume_def resumeFetch_def settle_def
        tokensKept_def phaseRank_def falsy_def
        split: fetch_outcome.splits)
qed

lemma three_steps:
  assumes "p < length (promises w)" "tokensKept (tokens w) p w"
  shows "\<exists>v. promises (advance E p (advance E p (advance E p w))) ! p = Settled v \<and>
             (falsy v \<longrightarrow> tokens (advance E p (advance E p (advance E p w))) = tokens w)"
proof -
  let ?a = "advance E p w" and ?b = "advance E p (advance E p w)"
  let ?c = "advance E p (advance E p (advance E p w))"
  have la: "p < length (promises ?a)" and lb: "p < length (promises ?b)"
    using assms(1) by (simp_all add: advance_length)
  have r0: "phaseRank (promises w ! p) \<le> 3"
    by (simp add: phaseRank_def split: phase.splits)
  note sa = advance_step[OF assms(1) assms(2), of E]
  note sb = advance_step[OF la conjunct1[OF sa], of E]
  note sc = advance_step[OF lb conjunct1[OF sb], of E]
  have "phaseRank (promises ?c ! p) = 0" using r0 sa sb sc by linarith
  then obtain v where v: "promises ?c ! p = Settled v"
    by (auto simp: phaseRank_def split: phase.splits)
  then show ?thesis using sc by (auto simp: tokensKept_def)
qed

lemma awaitRefresh_events:
  "awaitRefresh E w = (v, w') \<Longrightarrow> events w' = events (snd (refreshAccessToken E w))"
  by (auto simp: awaitRefresh_def Let_def advance_events split: prod.splits option.splits)

lemma awaitRefresh_idle_events:
  "awaitRefresh E w = (v, w') \<Longrightarrow> refreshPromise w = None \<Longrightarrow>
   events w' = events w @ [Fetch (refresh_request E) None]"
  by (drule awaitRefresh_events) (simp add: refreshAccessToken_def Let_def)

lemma awaitRefresh_joined_events:
  "awaitRefresh E w = (v, w') \<Longrightarrow> refreshPromise w \<noteq> None \<Longrightarrow> events w' = events w"
  by (drule awaitRefresh_events) (auto simp: refreshAccessToken_def)


lemma showInt_401: "showInt 401 = ''401''"
  by (simp add: showInt_def decimal.simps digitChar_def)

lemma awaitRefresh_falsy:
  assumes "awaitRefresh E w = (v, w')" "falsy v"
  shows "tokens w' = tokens w"
proof -
  obtain p w0 where r: "refreshAccessToken E w = (p, w0)" by (cases "refreshAccessToken E w")
  let ?c = "advance E p (advance E p (advance E p w0))"
  have t0: "tokens w0 = tokens w"
    using r by (auto simp: refreshAccessToken_def Let_def split: option.splits)
  have w': "w' = ?c" and v: "v = (case promiseValue ?c p of Some v \<Rightarrow> v | None \<Rightarrow> None)"
    using assms(1) r by (auto simp: awaitRefresh_def Let_def split: option.splits)
  show ?thesis
  proof (cases "p < length (promises w0)")
    case False
    then have "?c = w0" by (simp add: advance_def resume_def)
    then show ?thesis using w' t0 by simp
  next
    case True
    have k: "tokensKept (tokens w0) p w0"
      by (simp add: tokensKept_def split: phase.splits)
    from three_steps[OF True k, of E] obtain u where
      u: "promises ?c ! p = Settled u" "falsy u \<longrightarrow> tokens ?c = tokens w0" by blast
    have "p < length (promises ?c)" using True by (simp add: advance_length)
    then have "promiseValue ?c p = Some u" using u(1) by (simp add: promiseValue_def)
    then have "v = u" using v by simp
    then show ?thesis using u(2) assms(2) w' t0 by simp
  qed
qed

lemma getAccessToken_contents:
  "inMemoryToken (snd (getAccessToken s)) = inMemoryToken s \<and>
   sessionStorage (snd (getAccessToken s)) = sessionStorage s \<and>
   keychain (snd (getAccessToken s)) = keychain s"
  by (auto simp: store_defs split: probe_result.splits if_splits sum.splits prod.splits bool.splits)

lemma readToken_contents:
  "readToken opts w = (r, w0) \<Longrightarrow>
   inMemoryToken (tokens w0) = inMemoryToken (tokens w) \<and>
   sessionStorage (tokens w0) = sessionStorage (tokens w) \<and>
   keychain (tokens w0) = keychain (tokens w) \<and> events w0 = events w \<and>
   promises w0 = promises w \<and> refreshPromise w0 = refreshPromise w"
  using getAccessToken_contents[of "tokens w"]
  by (auto simp: readToken_def TokenStore_get_def split: if_splits prod.splits)

lemma finish_world: "snd (finish E opts url res w) = w"
  by (simp add: finish_def split: sum.splits)

lemma not_transient_401: "\<not> isTransient 401"
  by (simp add: isTransient_def transientStatuses_def)

lemma configured_spread:
  "o_idempotentRetries (spread DEFAULT_FETCH_OPTS options) = configuredRetries options"
  by (simp add: spread_def configuredRetries_def split: option.splits)

lemma withBearer_header:
  "Headers_get ''Authorization'' (req_headers (withBearer t req)) = Some (''Bearer '' @ t)"
proof -
  have "map_of (Headers_put k v h) k = Some v" for k v and h :: headers
    by (induction h) auto
  then show ?thesis by (simp add: withBearer_def Headers_get_def Headers_set_def)
qed

lemma withBearer_same:
  "req_url (withBearer t req) = req_url req \<and> req_method (withBearer t req) = req_method req \<and>
   req_body (withBearer t req) = req_body req \<and>
   req_credentials (withBearer t req) = req_credentials req"
  by (simp add: withBearer_def)


lemma apiFetch_unfold:
  assumes "opts = spread DEFAULT_FETCH_OPTS options"
      and "readToken opts w = (Inr token, w0)"
      and "req = initialRequest E input init opts token"
      and "fetchWithTimeout E req (o_timeoutMs opts) w0 = (Inr res, w1)"
      and "retryOn401Step E opts req res w1 = (Inr (res2, req2), w2)"
  shows "apiFetch E input init options w =
           (case backoff E req2 (o_timeoutMs opts) (req_method req = ''GET'')
                   (configuredRetries options) res2
                   (if req_method req = ''GET'' then configuredRetries options else 0) w2 of
              (Inl e, w3) \<Rightarrow> (Inl e, w3)
            | (Inr res3, w3) \<Rightarrow> finish E opts (req_url req) res3 w3)"
  using assms(2,4,5) unfolding assms(1,3)
  by (simp add: apiFetch_def Let_def configured_spread)

lemma apiFetch_events:
  assumes "opts = spread DEFAULT_FETCH_OPTS options"
      and "readToken opts w = (Inr token, w0)"
      and "req = initialRequest E input init opts token"
      and "fetchWithTimeout E req (o_timeoutMs opts) w0 = (Inr res, w1)"
      and "retryOn401Step E opts req res w1 = (Inr (res2, req2), w2)"
  shows "\<exists>m. int m \<le> max 0 (configuredRetries options) \<and>
             events (snd (apiFetch E input init options w))
               = events w2 @ backoffEvents req2 (o_timeoutMs opts) 1 m \<and>
             (req_method req \<noteq> ''GET'' \<longrightarrow> m = 0) \<and>
             (\<not> isTransient (status res2) \<longrightarrow> m = 0) \<and>
             (req_method req = ''GET'' \<and> 0 < configuredRetries options \<and>
              isTransient (status res2) \<longrightarrow> 1 \<le> m)"
proof -
  let ?g = "req_method req = ''GET''"
  let ?n = "configuredRetries options"
  let ?B = "backoff E req2 (o_timeoutMs opts) ?g ?n res2 (if ?g then ?n else 0) w2"
  have ev: "events (snd (apiFetch E input init options w)) = events (snd ?B)"
    unfolding apiFetch_unfold[OF assms]
    by (cases ?B; cases "fst ?B") (auto simp: finish_world)
  from backoff_events[of "if ?g then ?n else 0" E req2 "o_timeoutMs opts" ?g ?n res2 w2]
  obtain m where m: "int m \<le> max 0 (if ?g then ?n else 0)"
      "events (snd ?B) = events w2 @ backoffEvents req2 (o_timeoutMs opts) (?n - (if ?g then ?n else 0) + 1) m"
      "\<not> ?g \<longrightarrow> m = 0" "\<not> isTransient (status res2) \<longrightarrow> m = 0"
      "?g \<and> 0 < (if ?g then ?n else 0) \<and> isTransient (status res2) \<longrightarrow> 1 \<le> m"
    by blast
  have k: "backoffEvents req2 (o_timeoutMs opts) (?n - (if ?g then ?n else 0) + 1) m
           = backoffEvents req2 (o_timeoutMs opts) 1 m"
    using m(3) by (cases ?g) auto
  have b: "int m \<le> max 0 ?n" using m(1) m(3) by (cases ?g) auto
  show ?thesis
    using ev m(2-5) k b by (intro exI[of _ m]) auto
qed



lemma apiFetch_retry_throws:
  assumes "opts = spread DEFAULT_FETCH_OPTS options"
      and "readToken opts w = (Inr token, w0)"
      and "req = initialRequest E input init opts token"
      and "fetchWithTimeout E req (o_timeoutMs opts) w0 = (Inr res, w1)"
      and "retryOn401Step E opts req res w1 = (Inl e, w2)"
  shows "apiFetch E input init options w = (Inl e, w2)"
  using assms(2,4,5) unfolding assms(1,3)
  by (simp add: apiFetch_def Let_def)

lemma refreshHistory_sent:
  "refreshHistory E (evs @ [Fetch (refresh_request E) None])
     = evs @ [Fetch (refresh_request E) None]"
  by (simp add: refreshHistory_def)

lemma advance_done: "promiseValue w p = Some v \<Longrightarrow> advance E p w = w"
  by (auto simp: promiseValue_def advance_def resume_def split: if_splits phase.splits)

lemma settle_value:
  "p < length (promises w) \<Longrightarrow>
   promiseValue (settle p v w) p = Some v \<and> refreshPromise (settle p v w) = None"
  by (simp add: settle_def promiseValue_def)

lemma one_from_store:
  assumes "p < length (promises w)" "promises w ! p = AwaitStore t"
  shows "promiseValue (advance E p w) p = Some (Some t) \<and>
         refreshPromise (advance E p w) = None \<and> tokens (advance E p w) = tokens w"
  using assms by (simp add: advance_store settle_value) (simp add: settle_def)

lemma two_from_text:
  assumes "p < length (promises w)" "promises w ! p = AwaitText a"
  shows "promiseValue (advance E p (advance E p w)) p
           = Some (case safeJson E a of Inl e \<Rightarrow> None | Inr data \<Rightarrow> accessTokenOf data) \<and>
         refreshPromise (advance E p (advance E p w)) = None \<and>
         (\<forall>t. (case safeJson E a of Inl e \<Rightarrow> None | Inr data \<Rightarrow> accessTokenOf data) = Some t \<and>
              truthy t \<longrightarrow>
              tokens (advance E p (advance E p w)) = snd (setAccessToken (Some t) (tokens w)))"
proof -
  let ?v = "case safeJson E a of Inl e \<Rightarrow> None | Inr data \<Rightarrow> accessTokenOf data"
  have "(promiseValue (advance E p w) p = Some ?v \<and> refreshPromise (advance E p w) = None \<and>
         (\<forall>t. ?v = Some t \<longrightarrow> \<not> truthy t)) \<or>
        (\<exists>t. ?v = Some t \<and> p < length (promises (advance E p w)) \<and>
             promises (advance E p w) ! p = AwaitStore t \<and>
             tokens (advance E p w) = snd (setAccessToken (Some t) (tokens w)))"
    using assms
    by (auto simp: advance_def resume_def resumeText_def TokenStore_set_total settle_def
        promiseValue_def split: sum.splits option.splits)
  then show ?thesis
  proof
    assume d: "promiseValue (advance E p w) p = Some ?v \<and> refreshPromise (advance E p w) = None \<and>
         (\<forall>t. ?v = Some t \<longrightarrow> \<not> truthy t)"
    then have "advance E p (advance E p w) = advance E p w" using advance_done by blast
    then show ?thesis using d by auto
  next
    assume "\<exists>t. ?v = Some t \<and> p < length (promises (advance E p w)) \<and>
             promises (advance E p w) ! p = AwaitStore t \<and>
             tokens (advance E p w) = snd (setAccessToken (Some t) (tokens w))"
    then obtain t where t: "?v = Some t" "p < length (promises (advance E p w))"
        "promises (advance E p w) ! p = AwaitStore t"
        "tokens (advance E p w) = snd (setAccessToken (Some t) (tokens w))" by blast
    show ?thesis using one_from_store[OF t(2) t(3), of E] t(1) t(4) by simp
  qed
qed

lemma three_from_fetch:
  assumes "p < length (promises w)" "promises w ! p = AwaitFetch"
  shows "promiseValue (advance E p (advance E p (advance E p w))) p
           = Some (case net E (refreshHistory E (events w)) of
                     Throws e \<Rightarrow> None
                   | Resp a \<Rightarrow>
                       if ok a
                       then (case safeJson E a of Inl e \<Rightarrow> None | Inr data \<Rightarrow> accessTokenOf data)
                       else None) \<and>
         refreshPromise (advance E p (advance E p (advance E p w))) = None \<and>
         (\<forall>t. (case net E (refreshHistory E (events w)) of
                 Throws e \<Rightarrow> None
               | Resp a \<Rightarrow>
                   if ok a
                   then (case safeJson E a of Inl e \<Rightarrow> None | Inr data \<Rightarrow> accessTokenOf data)
                   else None) = Some t \<and> truthy t \<longrightarrow>
              tokens (advance E p (advance E p (advance E p w)))
                = snd (setAccessToken (Some t) (tokens w)))"
proof -
  let ?o = "net E (refreshHistory E (events w))"
  let ?v = "case ?o of
              Throws e \<Rightarrow> None
            | Resp a \<Rightarrow>
                if ok a
                then (case safeJson E a of Inl e \<Rightarrow> None | Inr data \<Rightarrow> accessTokenOf data)
                else None"
  have "(promiseValue (advance E p w) p = Some ?v \<and> refreshPromise (advance E p w) = None \<and>
         ?v = None) \<or>
        (\<exists>a. ?o = Resp a \<and> ok a \<and> p < length (promises (advance E p w)) \<and>
             promises (advance E p w) ! p = AwaitText a \<and> tokens (advance E p w) = tokens w)"
    using assms
    by (auto simp: advance_def resume_def resumeFetch_def settle_def promiseValue_def
        split: fetch_outcome.splits)
  then show ?thesis
  proof
    assume d: "promiseValue (advance E p w) p = Some ?v \<and> refreshPromise (advance E p w) = None \<and>
         ?v = None"
    then have "advance E p (advance E p w) = advance E p w" using advance_done by blast
    then show ?thesis using d by simp
  next
    assume "\<exists>a. ?o = Resp a \<and> ok a \<and> p < length (promises (advance E p w)) \<and>
             promises (advance E p w) ! p = AwaitText a \<and> tokens (advance E p w) = tokens w"
    then obtain a where a: "?o = Resp a" "ok a" "p < length (promises (advance E p w))"
        "promises (advance E p w) ! p = AwaitText a" "tokens (advance E p w) = tokens w" by blast
    show ?thesis using two_from_text[OF a(3) a(4), of E] a(1,2,5) by simp
  qed
qed

lemma awaitRefresh_unfold:
  "awaitRefresh E w = (v, w') \<Longrightarrow> refreshAccessToken E w = (p, w0) \<Longrightarrow>
   w' = advance E p (advance E p (advance E p w0)) \<and>
   (\<forall>u. promiseValue w' p = Some u \<longrightarrow> v = u)"
  by (auto simp: awaitRefresh_def Let_def split: option.splits)

lemma awaitRefresh_from_fetch:
  assumes "awaitRefresh E w = (v, w')"
      and "refreshPromise w = None \<or>
           (\<exists>p. refreshPromise w = Some p \<and> p < length (promises w) \<and> promises w ! p = AwaitFetch)"
  shows "v = (case net E (refreshHistory E (events w')) of
                Throws e \<Rightarrow> None
              | Resp a \<Rightarrow>
                  if ok a
                  then (case safeJson E a of Inl e \<Rightarrow> None | Inr data \<Rightarrow> accessTokenOf data)
                  else None) \<and>
         promiseValue w' (fst (refreshAccessToken E w)) = Some v \<and> refreshPromise w' = None \<and>
         (\<forall>t. v = Some t \<and> truthy t \<longrightarrow> tokens w' = snd (setAccessToken (Some t) (tokens w)))"
proof -
  obtain p w0 where r: "refreshAccessToken E w = (p, w0)" by (cases "refreshAccessToken E w")
  have ph: "p < length (promises w0) \<and> promises w0 ! p = AwaitFetch"
    using r assms(2) by (auto simp: refreshAccessToken_def Let_def)
  have tk: "tokens w0 = tokens w"
    using r by (auto simp: refreshAccessToken_def Let_def split: option.splits)
  note u = awaitRefresh_unfold[OF assms(1) r]
  have ev: "events (advance E p (advance E p (advance E p w0))) = events w0"
    by (simp add: advance_events)
  note t = three_from_fetch[OF conjunct1[OF ph] conjunct2[OF ph], of E]
  show ?thesis using t u r by (simp add: ev tk)
qed

lemma awaitRefresh_from_text:
  assumes "awaitRefresh E w = (v, w')"
      and "refreshPromise w = Some p" "p < length (promises w)" "promises w ! p = AwaitText a"
  shows "v = (case safeJson E a of Inl e \<Rightarrow> None | Inr data \<Rightarrow> accessTokenOf data) \<and>
         promiseValue w' p = Some v \<and> refreshPromise w' = None \<and>
         (\<forall>t. v = Some t \<and> truthy t \<longrightarrow> tokens w' = snd (setAccessToken (Some t) (tokens w)))"
proof -
  have r: "refreshAccessToken E w = (p, w)" using assms(2) by (simp add: refreshAccessToken_def)
  note u = awaitRefresh_unfold[OF assms(1) r]
  note t = two_from_text[OF assms(3,4), of E]
  have "advance E p (advance E p (advance E p w)) = advance E p (advance E p w)"
    using t advance_done by blast
  then show ?thesis using t u by simp
qed

lemma awaitRefresh_from_store:
  assumes "awaitRefresh E w = (v, w')"
      and "refreshPromise w = Some p" "p < length (promises w)" "promises w ! p = AwaitStore t"
  shows "v = Some t \<and> promiseValue w' p = Some v \<and> refreshPromise w' = None \<and>
         tokens w' = tokens w"
proof -
  have r: "refreshAccessToken E w = (p, w)" using assms(2) by (simp add: refreshAccessToken_def)
  note u = awaitRefresh_unfold[OF assms(1) r]
  note t = one_from_store[OF assms(3,4), of E]
  have a: "advance E p (advance E p w) = advance E p w" using t advance_done by blast
  have "advance E p (advance E p (advance E p w)) = advance E p w" by (simp add: a)
  then show ?thesis using t u by simp
qed

lemma Headers_put_other: "k' \<noteq> k \<Longrightarrow> map_of (Headers_put k v h) k' = map_of h k'"
  by (induction h) auto

lemma withBearer_others:
  "toLowerCase k \<noteq> ''authorization'' \<Longrightarrow>
   Headers_get k (req_headers (withBearer t req)) = Headers_get k (req_headers req)"
proof -
  have "toLowerCase ''Authorization'' = ''authorization''"
    by (simp add: toLowerCase_def lowerChar_def)
  then show "toLowerCase k \<noteq> ''authorization'' \<Longrightarrow>
    Headers_get k (req_headers (withBearer t req)) = Headers_get k (req_headers req)"
    by (simp add: withBearer_def Headers_get_def Headers_set_def Headers_put_other)
qed

text \<open>
  Claim C2. Take a request whose first response has status 401, with \<open>retryOn401\<close> on.
  The client awaits the refresh coordinator: the refresh request is sent if none was
  outstanding, and none is sent if one was, the caller then awaiting the promise in the
  slot. Either way the caller receives what that promise settles with, the slot is
  cleared and the promise shows this value to everyone: for a promise still waiting for
  the answer to the refresh request (its own, or the one another caller sent, whatever
  has been sent since) the value is the access token in the body of that answer when
  the answer is a success with a readable body, and no token otherwise; a non-empty
  token has then been written to the token store. If the refresh yields a non-empty
  token \<open>t\<close>, the same request (same URL, method, body, credentials and headers other
  than \<open>Authorization\<close>) is sent again right after, with \<open>Authorization: Bearer t\<close>;
  nothing but the backoff retries of a GET on a transient status can follow it. A
  successful answer to it is returned and a failure to send it is rethrown. If that retry
  answers 401, nothing follows it at all: no promise is created, the slot is untouched,
  and the 401 is surfaced (as the response, or as an \<open>APIError\<close> with status 401 when
  \<open>throwOnHTTPError\<close> is on). If the refresh yields no token, no request is re-issued,
  the first 401 is surfaced, and the token store holds what it held.
\<close>

theorem retry_once_on_401:
  assumes "opts = spread DEFAULT_FETCH_OPTS options"
      and "readToken opts w = (Inr token, w0)"
      and "req = initialRequest E input init opts token"
      and "fetchWithTimeout E req (o_timeoutMs opts) w0 = (Inr res, w1)"
      and "status res = 401" and "o_retryOn401 opts"
      and "awaitRefresh E w1 = (next, w2)"
      and "fetchWithTimeout E (withBearer t req) (o_timeoutMs opts) w2 = (r, w3)"
  shows "(refreshPromise w1 = None \<longrightarrow>
            events w2 = events w1 @ [Fetch (refresh_request E) None] \<and>
            refreshHistory E (events w2) = events w2) \<and>
         (refreshPromise w1 \<noteq> None \<longrightarrow> events w2 = events w1) \<and>
         (refreshPromise w1 = None \<or>
          (\<exists>p. refreshPromise w1 = Some p \<and> p < length (promises w1) \<and>
               promises w1 ! p = AwaitFetch) \<longrightarrow>
            next = (case net E (refreshHistory E (events w2)) of
                      Throws e \<Rightarrow> None
                    | Resp a \<Rightarrow>
                        if ok a
                        then (case safeJson E a of
                                Inl e \<Rightarrow> None | Inr data \<Rightarrow> accessTokenOf data)
                        else None) \<and>
            promiseValue w2 (fst (refreshAccessToken E w1)) = Some next \<and>
            refreshPromise w2 = None \<and>
            (\<forall>t'. next = Some t' \<and> truthy t' \<longrightarrow>
                  tokens w2 = snd (setAccessToken (Some t') (tokens w1)))) \<and>
         (\<forall>p a. refreshPromise w1 = Some p \<and> p < length (promises w1) \<and>
                promises w1 ! p = AwaitText a \<longrightarrow>
            next = (case safeJson E a of Inl e \<Rightarrow> None | Inr data \<Rightarrow> accessTokenOf data) \<and>
            promiseValue w2 p = Some next \<and> refreshPromise w2 = None \<and>
            (\<forall>t'. next = Some t' \<and> truthy t' \<longrightarrow>
                  tokens w2 = snd (setAccessToken (Some t') (tokens w1)))) \<and>
         (\<forall>p t'. refreshPromise w1 = Some p \<and> p < length (promises w1) \<and>
                 promises w1 ! p = AwaitStore t' \<longrightarrow>
            next = Some t' \<and> promiseValue w2 p = Some next \<and> refreshPromise w2 = None \<and>
            tokens w2 = tokens w1) \<and>
         (next = Some t \<and> truthy t \<longrightarrow>
            Headers_get ''Authorization'' (req_headers (withBearer t req)) = Some (''Bearer '' @ t) \<and>
            (\<forall>k. toLowerCase k \<noteq> ''authorization'' \<longrightarrow>
                 Headers_get k (req_headers (withBearer t req)) = Headers_get k (req_headers req)) \<and>
            req_url (withBearer t req) = req_url req \<and>
            req_method (withBearer t req) = req_method req \<and>
            req_body (withBearer t req) = req_body req \<and>
            req_credentials (withBearer t req) = req_credentials req \<and>
            events w3 = events w2 @ [Fetch (withBearer t req) (Some (o_timeoutMs opts))] \<and>
            promises w3 = promises w2 \<and> refreshPromise w3 = refreshPromise w2 \<and>
            tokens w3 = tokens w2 \<and>
            (\<exists>m. events (snd (apiFetch E input init options w))
                   = events w2 @ Fetch (withBearer t req) (Some (o_timeoutMs opts))
                                 # backoffEvents (withBearer t req) (o_timeoutMs opts) 1 m \<and>
                 (req_method req \<noteq> ''GET'' \<longrightarrow> m = 0) \<and>
                 (\<forall>res'. r = Inr res' \<and> \<not> isTransient (status res') \<longrightarrow> m = 0) \<and>
                 (\<forall>e. r = Inl e \<longrightarrow> m = 0)) \<and>
            (\<forall>e. r = Inl e \<longrightarrow> apiFetch E input init options w = (Inl e, w3)) \<and>
            (\<forall>res'. r = Inr res' \<and> ok res' \<longrightarrow>
               apiFetch E input init options w = (Inr res', w3)) \<and>
            (\<forall>res'. r = Inr res' \<and> status res' = 401 \<longrightarrow>
               apiFetch E input init options w = finish E opts (req_url req) res' w3 \<and>
               (\<not> o_throwOnHTTPError opts \<longrightarrow>
                  apiFetch E input init options w = (Inr res', w3)) \<and>
               (\<forall>data. o_throwOnHTTPError opts \<and> safeJson E res' = Inr data \<longrightarrow>
                  apiFetch E input init options w
                    = (Inl (APIError ''HTTP 401'' 401 (req_url req) (Some data)), w3)))) \<and>
         (falsy next \<longrightarrow>
            apiFetch E input init options w = finish E opts (req_url req) res w2 \<and>
            events (snd (apiFetch E input init options w)) = events w2 \<and>
            tokens w2 = tokens w0 \<and>
            inMemoryToken (tokens w2) = inMemoryToken (tokens w) \<and>
            sessionStorage (tokens w2) = sessionStorage (tokens w) \<and>
            keychain (tokens w2) = keychain (tokens w) \<and>
            (\<not> o_throwOnHTTPError opts \<longrightarrow> apiFetch E input init options w = (Inr res, w2)) \<and>
            (\<forall>data. o_throwOnHTTPError opts \<and> safeJson E res = Inr data \<longrightarrow>
               apiFetch E input init options w
                 = (Inl (APIError ''HTTP 401'' 401 (req_url req) (Some data)), w2)))"
proof -
  let ?A = "apiFetch E input init options w"
  let ?rq = "withBearer t req"
  let ?tm = "o_timeoutMs opts"
  have nok: "\<And>x. status x = 401 \<Longrightarrow> \<not> ok x" by (simp add: ok_def)
  have c1: "refreshPromise w1 = None \<longrightarrow>
            events w2 = events w1 @ [Fetch (refresh_request E) None] \<and>
            refreshHistory E (events w2) = events w2"
    using awaitRefresh_idle_events[OF assms(7)] by (simp add: refreshHistory_sent)
  have c2: "refreshPromise w1 \<noteq> None \<longrightarrow> events w2 = events w1"
    using awaitRefresh_joined_events[OF assms(7)] by blast
  have j1: "refreshPromise w1 = None \<or>
          (\<exists>p. refreshPromise w1 = Some p \<and> p < length (promises w1) \<and>
               promises w1 ! p = AwaitFetch) \<longrightarrow>
            next = (case net E (refreshHistory E (events w2)) of
                      Throws e \<Rightarrow> None
                    | Resp a \<Rightarrow>
                        if ok a
                        then (case safeJson E a of
                                Inl e \<Rightarrow> None | Inr data \<Rightarrow> accessTokenOf data)
                        else None) \<and>
            promiseValue w2 (fst (refreshAccessToken E w1)) = Some next \<and>
            refreshPromise w2 = None \<and>
            (\<forall>t'. next = Some t' \<and> truthy t' \<longrightarrow>
                  tokens w2 = snd (setAccessToken (Some t') (tokens w1)))"
    using awaitRefresh_from_fetch[OF assms(7)] by blast
  have j2: "\<forall>p a. refreshPromise w1 = Some p \<and> p < length (promises w1) \<and>
                promises w1 ! p = AwaitText a \<longrightarrow>
            next = (case safeJson E a of Inl e \<Rightarrow> None | Inr data \<Rightarrow> accessTokenOf data) \<and>
            promiseValue w2 p = Some next \<and> refreshPromise w2 = None \<and>
            (\<forall>t'. next = Some t' \<and> truthy t' \<longrightarrow>
                  tokens w2 = snd (setAccessToken (Some t') (tokens w1)))"
    using awaitRefresh_from_text[OF assms(7)] by blast
  have j3: "\<forall>p t'. refreshPromise w1 = Some p \<and> p < length (promises w1) \<and>
                 promises w1 ! p = AwaitStore t' \<longrightarrow>
            next = Some t' \<and> promiseValue w2 p = Some next \<and> refreshPromise w2 = None \<and>
            tokens w2 = tokens w1"
    using awaitRefresh_from_store[OF assms(7)] by blast
  note f3 = fetchWithTimeout_events[OF assms(8)]
  have c3: "next = Some t \<and> truthy t \<longrightarrow>
            Headers_get ''Authorization'' (req_headers ?rq) = Some (''Bearer '' @ t) \<and>
            (\<forall>k. toLowerCase k \<noteq> ''authorization'' \<longrightarrow>
                 Headers_get k (req_headers ?rq) = Headers_get k (req_headers req)) \<and>
            req_url ?rq = req_url req \<and> req_method ?rq = req_method req \<and>
            req_body ?rq = req_body req \<and> req_credentials ?rq = req_credentials req \<and>
            events w3 = events w2 @ [Fetch ?rq (Some ?tm)] \<and>
            promises w3 = promises w2 \<and> refreshPromise w3 = refreshPromise w2 \<and>
            tokens w3 = tokens w2 \<and>
            (\<exists>m. events (snd ?A) = events w2 @ Fetch ?rq (Some ?tm) # backoffEvents ?rq ?tm 1 m \<and>
                 (req_method req \<noteq> ''GET'' \<longrightarrow> m = 0) \<and>
                 (\<forall>res'. r = Inr res' \<and> \<not> isTransient (status res') \<longrightarrow> m = 0) \<and>
                 (\<forall>e. r = Inl e \<longrightarrow> m = 0)) \<and>
            (\<forall>e. r = Inl e \<longrightarrow> ?A = (Inl e, w3)) \<and>
            (\<forall>res'. r = Inr res' \<and> ok res' \<longrightarrow> ?A = (Inr res', w3)) \<and>
            (\<forall>res'. r = Inr res' \<and> status res' = 401 \<longrightarrow>
               ?A = finish E opts (req_url req) res' w3 \<and>
               (\<not> o_throwOnHTTPError opts \<longrightarrow> ?A = (Inr res', w3)) \<and>
               (\<forall>data. o_throwOnHTTPError opts \<and> safeJson E res' = Inr data \<longrightarrow>
                  ?A = (Inl (APIError ''HTTP 401'' 401 (req_url req) (Some data)), w3)))"
  proof
    assume nt: "next = Some t \<and> truthy t"
    have step: "retryOn401Step E opts req res w1
                  = (case r of Inl e \<Rightarrow> (Inl e, w3) | Inr res' \<Rightarrow> (Inr (res', ?rq), w3))"
      using nt assms(5,6,7,8) by (simp add: retryOn401Step_def split: sum.splits)
    have ev: "\<exists>m. events (snd ?A) = events w2 @ Fetch ?rq (Some ?tm) # backoffEvents ?rq ?tm 1 m \<and>
                 (req_method req \<noteq> ''GET'' \<longrightarrow> m = 0) \<and>
                 (\<forall>res'. r = Inr res' \<and> \<not> isTransient (status res') \<longrightarrow> m = 0) \<and>
                 (\<forall>e. r = Inl e \<longrightarrow> m = 0)"
    proof (cases r)
      case (Inl e)
      then have "?A = (Inl e, w3)"
        using apiFetch_retry_throws[OF assms(1-4)] step by simp
      then show ?thesis using Inl f3 by (intro exI[of _ 0]) simp
    next
      case (Inr res')
      then have s': "retryOn401Step E opts req res w1 = (Inr (res', ?rq), w3)" using step by simp
      from apiFetch_events[OF assms(1-4) s'] obtain m where
        "events (snd ?A) = events w3 @ backoffEvents ?rq ?tm 1 m"
        "req_method req \<noteq> ''GET'' \<longrightarrow> m = 0" "\<not> isTransient (status res') \<longrightarrow> m = 0"
        by blast
      then show ?thesis using Inr f3 by (intro exI[of _ m]) simp
    qed
    have thr: "\<forall>e. r = Inl e \<longrightarrow> ?A = (Inl e, w3)"
      using apiFetch_retry_throws[OF assms(1-4)] step by simp
    have good: "\<forall>res'. r = Inr res' \<and> ok res' \<longrightarrow> ?A = (Inr res', w3)"
    proof (intro allI impI)
      fix res' assume a: "r = Inr res' \<and> ok res'"
      then have s': "retryOn401Step E opts req res w1 = (Inr (res', ?rq), w3)" using step by simp
      have nt': "\<not> isTransient (status res')" using a transient_not_ok by blast
      show "?A = (Inr res', w3)"
        unfolding apiFetch_unfold[OF assms(1-4) s']
        using a nt' by (simp add: backoff_stop finish_def)
    qed
    have surf: "\<forall>res'. r = Inr res' \<and> status res' = 401 \<longrightarrow>
               ?A = finish E opts (req_url req) res' w3 \<and>
               (\<not> o_throwOnHTTPError opts \<longrightarrow> ?A = (Inr res', w3)) \<and>
               (\<forall>data. o_throwOnHTTPError opts \<and> safeJson E res' = Inr data \<longrightarrow>
                  ?A = (Inl (APIError ''HTTP 401'' 401 (req_url req) (Some data)), w3))"
    proof (intro allI impI)
      fix res' assume a: "r = Inr res' \<and> status res' = 401"
      then have s': "retryOn401Step E opts req res w1 = (Inr (res', ?rq), w3)" using step by simp
      have fin: "?A = finish E opts (req_url req) res' w3"
        unfolding apiFetch_unfold[OF assms(1-4) s']
        using a by (simp add: backoff_stop not_transient_401)
      have r1: "\<not> o_throwOnHTTPError opts \<longrightarrow> ?A = (Inr res', w3)"
        unfolding fin by (simp add: finish_def)
      have r2: "\<forall>data. o_throwOnHTTPError opts \<and> safeJson E res' = Inr data \<longrightarrow>
                ?A = (Inl (APIError ''HTTP 401'' 401 (req_url req) (Some data)), w3)"
        unfolding fin using a nok[of res'] by (simp add: finish_def showInt_401)
      show "?A = finish E opts (req_url req) res' w3 \<and>
               (\<not> o_throwOnHTTPError opts \<longrightarrow> ?A = (Inr res', w3)) \<and>
               (\<forall>data. o_throwOnHTTPError opts \<and> safeJson E res' = Inr data \<longrightarrow>
                  ?A = (Inl (APIError ''HTTP 401'' 401 (req_url req) (Some data)), w3))"
        using fin r1 r2 by simp
    qed
    have oth: "\<forall>k. toLowerCase k \<noteq> ''authorization'' \<longrightarrow>
                 Headers_get k (req_headers ?rq) = Headers_get k (req_headers req)"
      using withBearer_others by blast
    show "Headers_get ''Authorization'' (req_headers ?rq) = Some (''Bearer '' @ t) \<and>
            (\<forall>k. toLowerCase k \<noteq> ''authorization'' \<longrightarrow>
                 Headers_get k (req_headers ?rq) = Headers_get k (req_headers req)) \<and>
            req_url ?rq = req_url req \<and> req_method ?rq = req_method req \<and>
            req_body ?rq = req_body req \<and> req_credentials ?rq = req_credentials req \<and>
            events w3 = events w2 @ [Fetch ?rq (Some ?tm)] \<and>
            promises w3 = promises w2 \<and> refreshPromise w3 = refreshPromise w2 \<and>
            tokens w3 = tokens w2 \<and>
            (\<exists>m. events (snd ?A) = events w2 @ Fetch ?rq (Some ?tm) # backoffEvents ?rq ?tm 1 m \<and>
                 (req_method req \<noteq> ''GET'' \<longrightarrow> m = 0) \<and>
                 (\<forall>res'. r = Inr res' \<and> \<not> isTransient (status res') \<longrightarrow> m = 0) \<and>
                 (\<forall>e. r = Inl e \<longrightarrow> m = 0)) \<and>
            (\<forall>e. r = Inl e \<longrightarrow> ?A = (Inl e, w3)) \<and>
            (\<forall>res'. r = Inr res' \<and> ok res' \<longrightarrow> ?A = (Inr res', w3)) \<and>
            (\<forall>res'. r = Inr res' \<and> status res' = 401 \<longrightarrow>
               ?A = finish E opts (req_url req) res' w3 \<and>
               (\<not> o_throwOnHTTPError opts \<longrightarrow> ?A = (Inr res', w3)) \<and>
               (\<forall>data. o_throwOnHTTPError opts \<and> safeJson E res' = Inr data \<longrightarrow>
                  ?A = (Inl (APIError ''HTTP 401'' 401 (req_url req) (Some data)), w3)))"
      using withBearer_header[of t req] withBearer_same[of t req] f3 oth
      by (intro conjI ev thr good surf) simp_all
  qed
  have c4: "falsy next \<longrightarrow>
            ?A = finish E opts (req_url req) res w2 \<and>
            events (snd ?A) = events w2 \<and>
            tokens w2 = tokens w0 \<and>
            inMemoryToken (tokens w2) = inMemoryToken (tokens w) \<and>
            sessionStorage (tokens w2) = sessionStorage (tokens w) \<and>
            keychain (tokens w2) = keychain (tokens w) \<and>
            (\<not> o_throwOnHTTPError opts \<longrightarrow> ?A = (Inr res, w2)) \<and>
            (\<forall>data. o_throwOnHTTPError opts \<and> safeJson E res = Inr data \<longrightarrow>
               ?A = (Inl (APIError ''HTTP 401'' 401 (req_url req) (Some data)), w2))"
  proof
    assume fl: "falsy next"
    have step: "retryOn401Step E opts req res w1 = (Inr (res, req), w2)"
      using fl assms(5,6,7) by (auto simp: retryOn401Step_def falsy_def split: option.splits)
    have fin: "?A = finish E opts (req_url req) res w2"
      unfolding apiFetch_unfold[OF assms(1-4) step]
      using assms(5) by (simp add: backoff_stop not_transient_401)
    have tk: "tokens w2 = tokens w0"
      using awaitRefresh_falsy[OF assms(7) fl] fetchWithTimeout_events[OF assms(4)] by simp
    note rt = readToken_contents[OF assms(2)]
    show "?A = finish E opts (req_url req) res w2 \<and>
            events (snd ?A) = events w2 \<and>
            tokens w2 = tokens w0 \<and>
            inMemoryToken (tokens w2) = inMemoryToken (tokens w) \<and>
            sessionStorage (tokens w2) = sessionStorage (tokens w) \<and>
            keychain (tokens w2) = keychain (tokens w) \<and>
            (\<not> o_throwOnHTTPError opts \<longrightarrow> ?A = (Inr res, w2)) \<and>
            (\<forall>data. o_throwOnHTTPError opts \<and> safeJson E res = Inr data \<longrightarrow>
               ?A = (Inl (APIError ''HTTP 401'' 401 (req_url req) (Some data)), w2))"
    proof -
      have sw: "events (snd ?A) = events w2" unfolding fin by (simp add: finish_world)
      have r1: "\<not> o_throwOnHTTPError opts \<longrightarrow> ?A = (Inr res, w2)"
        unfolding fin by (simp add: finish_def)
      have r2: "\<forall>data. o_throwOnHTTPError opts \<and> safeJson E res = Inr data \<longrightarrow>
               ?A = (Inl (APIError ''HTTP 401'' 401 (req_url req) (Some data)), w2)"
        unfolding fin using assms(5) nok[of res] by (simp add: finish_def showInt_401)
      show ?thesis using fin sw r1 r2 tk rt by simp
    qed
  qed
  show ?thesis by (intro conjI c1 c2 j1 j2 j3 c3 c4)
qed

lemmas request_eval = initialRequest_def mkRequest_def methodOf_def initialHeaders_def
  mergeHeaders_def Headers_new_def Headers_set_def toLowerCase_def lowerChar_def
  toUpperCase_def upperChar_def toURL_def isAbsoluteURI_def isSchemeStart_def isSchemeChar_def
  stripTrailingSlashes_def stripLeadingSlashes_def isSlash_def truthy_def
  spread_def DEFAULT_FETCH_OPTS_def noOptions_def noInit_def withBearer_def

lemma pair_snd: "fst x = a \<Longrightarrow> x = (a, snd x)"
  by (cases x) simp

theorem retry_once_on_401_witness:
  "fst (apiFetch envRefreshOk ''/pdfs'' noInit noOptions loggedIn)
     = Inl (APIError ''HTTP 401'' 401 ''https://api.example/v1/pdfs'' (Some JNull)) \<and>
   events (snd (apiFetch envRefreshOk ''/pdfs'' noInit noOptions loggedIn))
     = [Fetch (pdfsRequest ''GET'') (Some 20000), Fetch (refresh_request envRefreshOk) None,
        Fetch (withBearer ''t2'' (pdfsRequest ''GET'')) (Some 20000)] \<and>
   fst (apiFetch envRefreshFails ''/pdfs'' noInit noOptions loggedIn)
     = Inl (APIError ''HTTP 401'' 401 ''https://api.example/v1/pdfs'' (Some JNull)) \<and>
   events (snd (apiFetch envRefreshFails ''/pdfs'' noInit noOptions loggedIn))
     = [Fetch (pdfsRequest ''GET'') (Some 20000), Fetch (refresh_request envRefreshFails) None] \<and>
   inMemoryToken (tokens (snd (apiFetch envRefreshFails ''/pdfs'' noInit noOptions loggedIn)))
     = Some ''t1'' \<and>
   fst (apiFetch envJoin ''/pdfs'' noInit noOptions refreshing) = Inr okResponse \<and>
   events (snd (apiFetch envJoin ''/pdfs'' noInit noOptions refreshing))
     = [Fetch (refresh_request envJoin) None, Fetch (pdfsRequest ''GET'') (Some 20000),
        Fetch (withBearer ''t2'' (pdfsRequest ''GET'')) (Some 20000)] \<and>
   inMemoryToken (tokens (snd (apiFetch envJoin ''/pdfs'' noInit noOptions refreshing)))
     = Some ''t2'' \<and>
   promiseValue (snd (apiFetch envJoin ''/pdfs'' noInit noOptions refreshing)) 0
     = Some (Some ''t2'') \<and>
   refreshPromise (snd (apiFetch envJoin ''/pdfs'' noInit noOptions refreshing)) = None"
proof -
  let ?opts = "spread DEFAULT_FETCH_OPTS noOptions"
  let ?rq = "pdfsRequest ''GET''"
  let ?tok = "JObj [(''accessToken'', JStr ''t2'')]"
  have h2: "readToken ?opts loggedIn = (Inr (Some ''t1''), loggedIn)"
    by (simp add: readToken_def TokenStore_get_def getAccessToken_def getItemAsync_def
        loggedIn_def idle_def webMemoryStore_def spread_def DEFAULT_FETCH_OPTS_def noOptions_def)
  have h5: "status unauthorized = 401" by (simp add: unauthorized_def)
  have h6: "o_retryOn401 ?opts" "o_throwOnHTTPError ?opts" "o_timeoutMs ?opts = 20000"
    by (simp_all add: spread_def DEFAULT_FETCH_OPTS_def noOptions_def)
  have url: "req_url ?rq = ''https://api.example/v1/pdfs''" by (simp add: pdfsRequest_def)
  have tok: "inMemoryToken (tokens loggedIn) = Some ''t1''" "events loggedIn = []"
    "refreshPromise afterFirst = None"
    "events afterFirst = [Fetch (pdfsRequest ''GET'') (Some 20000)]"
    by (simp_all add: loggedIn_def afterFirst_def idle_def)
  have fl: "truthy ''t2''" by (simp add: truthy_def)
  have oks: "ok tokenResponse" "ok okResponse" "\<not> ok unauthorized"
    by (simp_all add: ok_def tokenResponse_def okResponse_def unauthorized_def)
  have sj: "safeJson envRefreshOk unauthorized = Inr JNull"
           "safeJson envRefreshFails unauthorized = Inr JNull"
           "safeJson envRefreshOk tokenResponse = Inr ?tok"
           "safeJson envJoin tokenResponse = Inr ?tok"
    by (simp_all add: safeJson_def unauthorized_def tokenResponse_def envRefreshOk_def
        envJoin_def demoEnv_def)
  have at: "accessTokenOf ?tok = Some ''t2''" by (simp add: accessTokenOf_def)
  \<comment> \<open>the refresh succeeds and the retry answers 401\<close>
  let ?X = "awaitRefresh envRefreshOk afterFirst"
  let ?f = "fetchWithTimeout envRefreshOk (withBearer ''t2'' ?rq) (o_timeoutMs ?opts) (snd ?X)"
  have a3: "?rq = initialRequest envRefreshOk ''/pdfs'' noInit ?opts (Some ''t1'')"
    by (simp add: request_eval envRefreshOk_def demoEnv_def pdfsRequest_def)
  have a4: "fetchWithTimeout envRefreshOk ?rq (o_timeoutMs ?opts) loggedIn
              = (Inr unauthorized, afterFirst)"
    by (simp add: h6 fetchWithTimeout_def fetch_def envRefreshOk_def afterFirst_def loggedIn_def
        idle_def Let_def)
  have a7: "?X = (fst ?X, snd ?X)" by simp
  have a8: "?f = (fst ?f, snd ?f)" by simp
  note A = retry_once_on_401 [OF refl h2 a3 a4 h5 h6(1) a7 a8]
  note Aev = A [THEN conjunct1, THEN mp, OF tok(3)]
  note Anx = A [THEN conjunct2, THEN conjunct2, THEN conjunct1, THEN mp, OF disjI1, OF tok(3),
                THEN conjunct1]
  have evA: "events (snd ?X) = [Fetch ?rq (Some 20000), Fetch (refresh_request envRefreshOk) None]"
    using Aev by (simp add: tok)
  have netA: "net envRefreshOk [Fetch ?rq (Some 20000), Fetch (refresh_request envRefreshOk) None]
                = Resp tokenResponse"
    "net envRefreshOk [Fetch ?rq (Some 20000), Fetch (refresh_request envRefreshOk) None,
                       Fetch (withBearer ''t2'' ?rq) (Some 20000)] = Resp unauthorized"
    by (simp_all add: envRefreshOk_def)
  have nx: "fst ?X = Some ''t2''"
    using Anx Aev by (simp add: evA netA oks sj at)
  have fr: "fst ?f = Inr unauthorized"
    by (simp add: h6 fetchWithTimeout_def fetch_def Let_def evA netA)
  note A3 = A [THEN conjunct2, THEN conjunct2, THEN conjunct2, THEN conjunct2, THEN conjunct2,
               THEN conjunct1, THEN mp, OF conjI, OF nx fl]
  have A1: "apiFetch envRefreshOk ''/pdfs'' noInit noOptions loggedIn
              = (Inl (APIError ''HTTP 401'' 401 (req_url ?rq) (Some JNull)), snd ?f)"
    using A3 fr h5 h6(2) sj(1) by blast
  have A2: "events (snd ?f)
              = events (snd ?X) @ [Fetch (withBearer ''t2'' ?rq) (Some (o_timeoutMs ?opts))]"
    using A3 by blast
  \<comment> \<open>the refresh fails\<close>
  let ?Y = "awaitRefresh envRefreshFails afterFirst"
  let ?g = "fetchWithTimeout envRefreshFails (withBearer ''t2'' ?rq) (o_timeoutMs ?opts) (snd ?Y)"
  have b3: "?rq = initialRequest envRefreshFails ''/pdfs'' noInit ?opts (Some ''t1'')"
    by (simp add: request_eval envRefreshFails_def demoEnv_def pdfsRequest_def)
  have b4: "fetchWithTimeout envRefreshFails ?rq (o_timeoutMs ?opts) loggedIn
              = (Inr unauthorized, afterFirst)"
    by (simp add: h6 fetchWithTimeout_def fetch_def envRefreshFails_def afterFirst_def
        loggedIn_def idle_def Let_def)
  have b7: "?Y = (fst ?Y, snd ?Y)" by simp
  have b8: "?g = (fst ?g, snd ?g)" by simp
  note B = retry_once_on_401 [OF refl h2 b3 b4 h5 h6(1) b7 b8]
  note Bev = B [THEN conjunct1, THEN mp, OF tok(3)]
  note Bnx = B [THEN conjunct2, THEN conjunct2, THEN conjunct1, THEN mp, OF disjI1, OF tok(3),
                THEN conjunct1]
  have netB: "\<And>h. net envRefreshFails h = Resp unauthorized"
    by (simp add: envRefreshFails_def)
  have ny: "fst ?Y = None"
    using Bnx by (simp add: netB oks)
  have nf: "falsy (fst ?Y)" by (simp add: ny falsy_def)
  note B4 = B [THEN conjunct2, THEN conjunct2, THEN conjunct2, THEN conjunct2, THEN conjunct2,
               THEN conjunct2, THEN mp, OF nf]
  have B1: "apiFetch envRefreshFails ''/pdfs'' noInit noOptions loggedIn
              = (Inl (APIError ''HTTP 401'' 401 (req_url ?rq) (Some JNull)), snd ?Y)"
    using B4 h6(2) sj(2) by blast
  have B2: "events (snd ?Y) = events afterFirst @ [Fetch (refresh_request envRefreshFails) None]"
    using Bev by blast
  have B3: "inMemoryToken (tokens (snd ?Y)) = inMemoryToken (tokens loggedIn)"
    using B4 by blast
  \<comment> \<open>the caller joins a refresh that another caller started\<close>
  let ?Z = "awaitRefresh envJoin joined"
  let ?k = "fetchWithTimeout envJoin (withBearer ''t2'' ?rq) (o_timeoutMs ?opts) (snd ?Z)"
  have rf: "events refreshing = [Fetch (refresh_request envJoin) None]"
    "promises refreshing = [AwaitFetch]" "refreshPromise refreshing = Some 0"
    "tokens refreshing = webMemoryStore\<lparr>inMemoryToken := Some ''t1''\<rparr>"
    by (simp_all add: refreshing_def refreshAccessToken_def loggedIn_def idle_def Let_def)
  have jw: "events joined = [Fetch (refresh_request envJoin) None, Fetch ?rq (Some 20000)]"
    "promises joined = [AwaitFetch]" "refreshPromise joined = Some 0"
    "tokens joined = webMemoryStore\<lparr>inMemoryToken := Some ''t1''\<rparr>"
    by (simp_all add: joined_def rf)
  have j2: "readToken ?opts refreshing = (Inr (Some ''t1''), refreshing)"
    by (simp add: readToken_def TokenStore_get_def getAccessToken_def getItemAsync_def
        refreshing_def refreshAccessToken_def loggedIn_def idle_def webMemoryStore_def
        spread_def DEFAULT_FETCH_OPTS_def noOptions_def Let_def)
  have j3: "?rq = initialRequest envJoin ''/pdfs'' noInit ?opts (Some ''t1'')"
    by (simp add: request_eval envJoin_def demoEnv_def pdfsRequest_def)
  have netJ: "net envJoin (events refreshing @ [Fetch ?rq (Some 20000)]) = Resp unauthorized"
    "net envJoin [Fetch (refresh_request envJoin) None] = Resp tokenResponse"
    "net envJoin [Fetch (refresh_request envJoin) None, Fetch ?rq (Some 20000),
                  Fetch (withBearer ''t2'' ?rq) (Some 20000)] = Resp okResponse"
    by (simp_all add: envJoin_def withBearer_header)
       (simp add: Headers_get_def toLowerCase_def lowerChar_def pdfsRequest_def)
  have j4: "fetchWithTimeout envJoin ?rq (o_timeoutMs ?opts) refreshing
              = (Inr unauthorized, joined)"
    by (simp add: h6 fetchWithTimeout_def fetch_def joined_def Let_def netJ)
  have j7: "?Z = (fst ?Z, snd ?Z)" by simp
  have j8: "?k = (fst ?k, snd ?k)" by simp
  note J = retry_once_on_401 [OF refl j2 j3 j4 h5 h6(1) j7 j8]
  have pend: "refreshPromise joined \<noteq> None" by (simp add: jw)
  have inFetch: "\<exists>p. refreshPromise joined = Some p \<and> p < length (promises joined) \<and>
                     promises joined ! p = AwaitFetch"
    by (simp add: jw)
  note Jev = J [THEN conjunct2, THEN conjunct1, THEN mp, OF pend]
  note Jnx = J [THEN conjunct2, THEN conjunct2, THEN conjunct1, THEN mp, OF disjI2, OF inFetch]
  have evJ: "events (snd ?Z) = [Fetch (refresh_request envJoin) None, Fetch ?rq (Some 20000)]"
    using Jev by (simp add: jw)
  have rhJ: "refreshHistory envJoin [Fetch (refresh_request envJoin) None, Fetch ?rq (Some 20000)]
               = [Fetch (refresh_request envJoin) None]"
    by (simp add: refreshHistory_def)
  have nz: "fst ?Z = Some ''t2''"
    using Jnx [THEN conjunct1] by (simp add: evJ rhJ netJ oks sj at)
  have p0: "fst (refreshAccessToken envJoin joined) = 0"
    by (simp add: refreshAccessToken_def jw)
  have pv: "promiseValue (snd ?Z) 0 = Some (Some ''t2'')" "refreshPromise (snd ?Z) = None"
    using Jnx [THEN conjunct2, THEN conjunct1] Jnx [THEN conjunct2, THEN conjunct2, THEN conjunct1]
    by (simp_all add: p0 nz)
  have tz: "tokens (snd ?Z) = snd (setAccessToken (Some ''t2'') (tokens joined))"
    using Jnx [THEN conjunct2, THEN conjunct2, THEN conjunct2, rule_format, OF conjI, OF nz fl] .
  have kr: "fst ?k = Inr okResponse"
    by (simp add: h6 fetchWithTimeout_def fetch_def Let_def evJ) (simp add: netJ)
  note J3 = J [THEN conjunct2, THEN conjunct2, THEN conjunct2, THEN conjunct2, THEN conjunct2,
               THEN conjunct1, THEN mp, OF conjI, OF nz fl]
  have J1: "apiFetch envJoin ''/pdfs'' noInit noOptions refreshing = (Inr okResponse, snd ?k)"
    using J3 kr oks(2) by blast
  have J2: "events (snd ?k)
              = events (snd ?Z) @ [Fetch (withBearer ''t2'' ?rq) (Some (o_timeoutMs ?opts))]"
    "promises (snd ?k) = promises (snd ?Z)" "refreshPromise (snd ?k) = refreshPromise (snd ?Z)"
    "tokens (snd ?k) = tokens (snd ?Z)"
    using J3 by blast+
  have J4: "inMemoryToken (tokens (snd ?k)) = Some ''t2''"
    by (simp add: J2 tz jw setAccessToken_def setItemAsync_def broadcastToken_def
        ACCESS_TOKEN_KEY_def webMemoryStore_def)
  have "promiseValue (snd ?k) 0 = promiseValue (snd ?Z) 0"
    by (simp add: promiseValue_def J2)
  then have J5: "promiseValue (snd ?k) 0 = Some (Some ''t2'')"
    using pv(1) by simp
  show ?thesis
    using A2 J2 J4 J5 by (simp add: A1 B1 B2 B3 J1 pv evA evJ tok url h6(3))
qed




section \<open>Properties of the page-url endpoint guard\<close>

text \<open>
  Claim C9. A page that is not finite (\<open>NaN\<close> or an infinity) or is below 1 is rejected
  with an \<open>APIError\<close> of status 400, and the world is returned as it was: no request is
  sent, nothing is written.
\<close>

theorem getPageUrl_rejects_invalid_page:
  assumes "\<not> isFinite pg \<or> js_lt pg (Fin 1)"
  shows "getPageUrl E docId pg hintsOrOpts maybeOpts w
           = (Inl (APIError ''Page must be an integer >= 1'' 400
                     (''/pdfs/'' @ encodeURIComponent E docId @ ''/pages/'' @ numToString E pg
                      @ ''/url'') None), w)"
  using assms by (auto simp: getPageUrl_def)

theorem getPageUrl_rejects_invalid_page_witness:
  "fst (getPageUrl demoEnv ''doc1'' (Fin 0) None None loggedIn)
     = Inl (APIError ''Page must be an integer >= 1'' 400 ''/pdfs/doc1/pages/0/url'' None) \<and>
   events (snd (getPageUrl demoEnv ''doc1'' (Fin 0) None None loggedIn)) = [] \<and>
   snd (getPageUrl demoEnv ''doc1'' (Fin (1 / 2)) None None loggedIn) = loggedIn \<and>
   snd (getPageUrl demoEnv ''doc1'' NaN None None loggedIn) = loggedIn \<and>
   snd (getPageUrl demoEnv ''doc1'' PosInf None None loggedIn) = loggedIn \<and>
   snd (getPageUrl demoEnv ''doc1'' NegInf None None loggedIn) = loggedIn"
proof -
  have a: "\<not> isFinite (Fin 0) \<or> js_lt (Fin 0) (Fin 1)"
          "\<not> isFinite (Fin (1 / 2)) \<or> js_lt (Fin (1 / 2)) (Fin 1)"
          "\<not> isFinite NaN \<or> js_lt NaN (Fin 1)"
          "\<not> isFinite PosInf \<or> js_lt PosInf (Fin 1)"
          "\<not> isFinite NegInf \<or> js_lt NegInf (Fin 1)"
    by (simp_all add: isFinite_def)
  have b: "numToString demoEnv (Fin 0) = ''0''" "encodeURIComponent demoEnv ''doc1'' = ''doc1''"
          "events loggedIn = []"
    by (simp_all add: demoEnv_def showInt_def decimal.simps digitChar_def loggedIn_def idle_def)
  from a b
    getPageUrl_rejects_invalid_page [of "Fin 0" demoEnv "''doc1''" None None loggedIn]
    getPageUrl_rejects_invalid_page [of "Fin (1 / 2)" demoEnv "''doc1''" None None loggedIn]
    getPageUrl_rejects_invalid_page [of NaN demoEnv "''doc1''" None None loggedIn]
    getPageUrl_rejects_invalid_page [of PosInf demoEnv "''doc1''" None None loggedIn]
    getPageUrl_rejects_invalid_page [of NegInf demoEnv "''doc1''" None None loggedIn]
  show ?thesis by simp
qed

section \<open>Properties of the signed-URL cache\<close>

lemma isExpired_iff:
  "isExpired E now x skew \<longleftrightarrow>
     (\<exists>e t. x = Some e \<and> e \<noteq> [] \<and> Date_parse E e = Some t \<and> t - skew * 1000 \<le> now)"
  by (auto simp: isExpired_def split: option.splits)

lemma arrayGet_arraySet: "0 \<le> i \<Longrightarrow> arrayGet (arraySet xs i v) i = Some v"
  by (auto simp: arrayGet_def arraySet_def nth_append)

lemma clamp_page: "1 \<le> tot \<Longrightarrow> 1 \<le> max 1 (min n tot) \<and> max 1 (min n tot) \<le> (tot::int)"
  by auto

lemma start_hit:
  "current s = Some cur \<Longrightarrow> pageCache s (max 1 (min n (d_pages cur))) = Some c \<Longrightarrow>
   \<not> isExpired E now (pc_expiresAt c) 20 \<Longrightarrow>
   resolvePageUrl_start E now n opts s = (Done (Inr (pc_url c)), s)"
  by (simp add: resolvePageUrl_start_def Let_def)

lemma start_stale:
  "current s = Some cur \<Longrightarrow> pageCache s (max 1 (min n (d_pages cur))) = Some c \<Longrightarrow>
   isExpired E now (pc_expiresAt c) 20 \<Longrightarrow>
   resolvePageUrl_start E now n opts s = (Await (d_id cur) (max 1 (min n (d_pages cur))) opts, s)"
  by (simp add: resolvePageUrl_start_def Let_def)

lemma start_static:
  "current s = Some cur \<Longrightarrow> pageCache s (max 1 (min n (d_pages cur))) = None \<Longrightarrow>
   d_pageUrls cur = Some urls \<Longrightarrow> arrayGet urls (max 1 (min n (d_pages cur)) - 1) = Some u \<Longrightarrow>
   u \<noteq> [] \<Longrightarrow>
   resolvePageUrl_start E now n opts s
     = (Done (Inr u),
        s\<lparr>pageCache := (pageCache s)
             (max 1 (min n (d_pages cur)) \<mapsto> \<lparr>pc_url = u, pc_expiresAt = None\<rparr>)\<rparr>)"
  by (simp add: resolvePageUrl_start_def Let_def)

lemma start_miss:
  "current s = Some cur \<Longrightarrow> pageCache s (max 1 (min n (d_pages cur))) = None \<Longrightarrow>
   \<forall>urls u. d_pageUrls cur = Some urls \<and>
           arrayGet urls (max 1 (min n (d_pages cur)) - 1) = Some u \<longrightarrow> u = [] \<Longrightarrow>
   resolvePageUrl_start E now n opts s = (Await (d_id cur) (max 1 (min n (d_pages cur))) opts, s)"
  by (auto simp: resolvePageUrl_start_def Let_def split: option.splits)

lemma resume_same_doc:
  assumes "map_option d_id (current s') = Some docId" "1 \<le> pg"
  shows "\<exists>s'' cur'' urls''.
           resolvePageUrl_resume docId pg (Inr resp) s' = (Inr (pu_url resp), s'') \<and>
           pageCache s'' pg = Some \<lparr>pc_url = pu_url resp, pc_expiresAt = pu_expiresAt resp\<rparr> \<and>
           (\<forall>k. k \<noteq> pg \<longrightarrow> pageCache s'' k = pageCache s' k) \<and>
           current s'' = Some cur'' \<and> d_id cur'' = docId \<and> d_pageUrls cur'' = Some urls'' \<and>
           arrayGet urls'' (pg - 1) = Some (pu_url resp)"
proof -
  obtain cur where c: "current s' = Some cur" "d_id cur = docId"
    using assms(1) by (cases "current s'") auto
  show ?thesis using c assms(2)
    by (simp add: resolvePageUrl_resume_def Let_def arrayGet_arraySet)
qed

lemma resume_changed:
  "map_option d_id (current s') \<noteq> Some docId \<Longrightarrow>
   resolvePageUrl_resume docId pg (Inr resp) s' = (Inl (Error ''Document changed''), s')"
  by (simp add: resolvePageUrl_resume_def)

lemma resolve_done:
  "resolvePageUrl_start E now n opts s = (Done r, s1) \<Longrightarrow>
   resolvePageUrl E now n opts (s, w) = (r, s1, w)"
  by (simp add: resolvePageUrl_def)

lemma resolve_await:
  "resolvePageUrl_start E now n opts s = (Await docId pg o1, s1) \<Longrightarrow>
   resolvePageUrl E now n opts (s, w)
     = (case safeGetPageUrl E docId pg o1 w of
          (r, w1) \<Rightarrow> (case resolvePageUrl_resume docId pg r s1 of (v, s2) \<Rightarrow> (v, s2, w1)))"
  by (simp add: resolvePageUrl_def)

text \<open>
  Claim C4, as the code has it. With a document of at least one page open, the page is
  \<open>n\<close> clamped into \<open>[1, pages]\<close>. An entry is stale exactly when its \<open>expiresAt\<close> is
  present, not empty, parses as a time, and that time minus 20 seconds is at or before
  now. (1) A cache entry that is not stale is returned, with the state unchanged and no
  network call. (2) With no cache entry at all, a non-empty entry of the static list is
  stored as a non-expiring cache entry and returned, with no network call. (3) Otherwise,
  that is when the cache entry is stale or when there is no entry and no non-empty static
  URL, the page-url endpoint is called for the document and page. (4) When it answers and
  the same document is still open, the \<open>{url, expiresAt}\<close> pair is in the cache at that
  page, the other pages' entries are as before, the static list holds the URL at index
  \<open>page - 1\<close>, and the URL is returned.
\<close>

theorem resolvePageUrl_cache_static_fetch:
  assumes "current s = Some cur" and "1 \<le> d_pages cur" and "pg = max 1 (min n (d_pages cur))"
  shows "1 \<le> pg \<and> pg \<le> d_pages cur \<and>
    (\<forall>x. isExpired E now x 20 \<longleftrightarrow>
          (\<exists>e t. x = Some e \<and> e \<noteq> [] \<and> Date_parse E e = Some t \<and> t - 20000 \<le> now)) \<and>
    (\<forall>c. pageCache s pg = Some c \<and> \<not> isExpired E now (pc_expiresAt c) 20 \<longrightarrow>
         resolvePageUrl_start E now n opts s = (Done (Inr (pc_url c)), s) \<and>
         resolvePageUrl E now n opts (s, w) = (Inr (pc_url c), s, w)) \<and>
    (\<forall>urls u. pageCache s pg = None \<and> d_pageUrls cur = Some urls \<and>
              arrayGet urls (pg - 1) = Some u \<and> u \<noteq> [] \<longrightarrow>
         resolvePageUrl_start E now n opts s
           = (Done (Inr u),
              s\<lparr>pageCache := (pageCache s)(pg \<mapsto> \<lparr>pc_url = u, pc_expiresAt = None\<rparr>)\<rparr>) \<and>
         resolvePageUrl E now n opts (s, w)
           = (Inr u, s\<lparr>pageCache := (pageCache s)(pg \<mapsto> \<lparr>pc_url = u, pc_expiresAt = None\<rparr>)\<rparr>, w) \<and>
         (\<forall>later. \<not> isExpired E later (pc_expiresAt \<lparr>pc_url = u, pc_expiresAt = None\<rparr>) 20)) \<and>
    ((\<exists>c. pageCache s pg = Some c \<and> isExpired E now (pc_expiresAt c) 20) \<or>
     (pageCache s pg = None \<and>
      (\<forall>urls u. d_pageUrls cur = Some urls \<and> arrayGet urls (pg - 1) = Some u \<longrightarrow> u = [])) \<longrightarrow>
         resolvePageUrl_start E now n opts s = (Await (d_id cur) pg opts, s) \<and>
         resolvePageUrl E now n opts (s, w)
           = (case safeGetPageUrl E (d_id cur) pg opts w of
                (r, w1) \<Rightarrow> (case resolvePageUrl_resume (d_id cur) pg r s of
                              (v, s2) \<Rightarrow> (v, s2, w1)))) \<and>
    (\<forall>resp s'. map_option d_id (current s') = Some (d_id cur) \<longrightarrow>
         (\<exists>s'' cur'' urls''.
            resolvePageUrl_resume (d_id cur) pg (Inr resp) s' = (Inr (pu_url resp), s'') \<and>
            pageCache s'' pg = Some \<lparr>pc_url = pu_url resp, pc_expiresAt = pu_expiresAt resp\<rparr> \<and>
            (\<forall>k. k \<noteq> pg \<longrightarrow> pageCache s'' k = pageCache s' k) \<and>
            current s'' = Some cur'' \<and> d_id cur'' = d_id cur \<and> d_pageUrls cur'' = Some urls'' \<and>
            arrayGet urls'' (pg - 1) = Some (pu_url resp)))"
proof -
  have p: "1 \<le> pg" "pg \<le> d_pages cur" using assms(2,3) by auto
  have st: "\<forall>x. isExpired E now x 20 \<longleftrightarrow>
          (\<exists>e t. x = Some e \<and> e \<noteq> [] \<and> Date_parse E e = Some t \<and> t - 20000 \<le> now)"
    by (simp add: isExpired_iff)
  have hit: "\<forall>c. pageCache s pg = Some c \<and> \<not> isExpired E now (pc_expiresAt c) 20 \<longrightarrow>
         resolvePageUrl_start E now n opts s = (Done (Inr (pc_url c)), s) \<and>
         resolvePageUrl E now n opts (s, w) = (Inr (pc_url c), s, w)"
    using start_hit[OF assms(1), of n _ E now opts] resolve_done
    unfolding assms(3) by blast
  have static: "\<forall>urls u. pageCache s pg = None \<and> d_pageUrls cur = Some urls \<and>
              arrayGet urls (pg - 1) = Some u \<and> u \<noteq> [] \<longrightarrow>
         resolvePageUrl_start E now n opts s
           = (Done (Inr u),
              s\<lparr>pageCache := (pageCache s)(pg \<mapsto> \<lparr>pc_url = u, pc_expiresAt = None\<rparr>)\<rparr>) \<and>
         resolvePageUrl E now n opts (s, w)
           = (Inr u, s\<lparr>pageCache := (pageCache s)(pg \<mapsto> \<lparr>pc_url = u, pc_expiresAt = None\<rparr>)\<rparr>, w) \<and>
         (\<forall>later. \<not> isExpired E later (pc_expiresAt \<lparr>pc_url = u, pc_expiresAt = None\<rparr>) 20)"
  proof (intro allI impI)
    fix urls u
    assume a: "pageCache s pg = None \<and> d_pageUrls cur = Some urls \<and>
              arrayGet urls (pg - 1) = Some u \<and> u \<noteq> []"
    have b: "resolvePageUrl_start E now n opts s
           = (Done (Inr u),
              s\<lparr>pageCache := (pageCache s)(pg \<mapsto> \<lparr>pc_url = u, pc_expiresAt = None\<rparr>)\<rparr>)"
      using start_static[OF assms(1), of n urls u E now opts] a unfolding assms(3) by simp
    show "resolvePageUrl_start E now n opts s
           = (Done (Inr u),
              s\<lparr>pageCache := (pageCache s)(pg \<mapsto> \<lparr>pc_url = u, pc_expiresAt = None\<rparr>)\<rparr>) \<and>
         resolvePageUrl E now n opts (s, w)
           = (Inr u, s\<lparr>pageCache := (pageCache s)(pg \<mapsto> \<lparr>pc_url = u, pc_expiresAt = None\<rparr>)\<rparr>, w) \<and>
         (\<forall>later. \<not> isExpired E later (pc_expiresAt \<lparr>pc_url = u, pc_expiresAt = None\<rparr>) 20)"
      using b resolve_done[OF b, of w] by (simp add: isExpired_def)
  qed
  have fetch: "(\<exists>c. pageCache s pg = Some c \<and> isExpired E now (pc_expiresAt c) 20) \<or>
     (pageCache s pg = None \<and>
      (\<forall>urls u. d_pageUrls cur = Some urls \<and> arrayGet urls (pg - 1) = Some u \<longrightarrow> u = [])) \<longrightarrow>
         resolvePageUrl_start E now n opts s = (Await (d_id cur) pg opts, s) \<and>
         resolvePageUrl E now n opts (s, w)
           = (case safeGetPageUrl E (d_id cur) pg opts w of
                (r, w1) \<Rightarrow> (case resolvePageUrl_resume (d_id cur) pg r s of
                              (v, s2) \<Rightarrow> (v, s2, w1)))"
  proof
    assume a: "(\<exists>c. pageCache s pg = Some c \<and> isExpired E now (pc_expiresAt c) 20) \<or>
     (pageCache s pg = None \<and>
      (\<forall>urls u. d_pageUrls cur = Some urls \<and> arrayGet urls (pg - 1) = Some u \<longrightarrow> u = []))"
    have b: "resolvePageUrl_start E now n opts s = (Await (d_id cur) pg opts, s)"
      using a start_stale[OF assms(1), of n _ E now opts] start_miss[OF assms(1), of n E now opts]
      unfolding assms(3) by blast
    show "resolvePageUrl_start E now n opts s = (Await (d_id cur) pg opts, s) \<and>
         resolvePageUrl E now n opts (s, w)
           = (case safeGetPageUrl E (d_id cur) pg opts w of
                (r, w1) \<Rightarrow> (case resolvePageUrl_resume (d_id cur) pg r s of
                              (v, s2) \<Rightarrow> (v, s2, w1)))"
      using b resolve_await[OF b, of w] by simp
  qed
  have store: "\<forall>resp s'. map_option d_id (current s') = Some (d_id cur) \<longrightarrow>
         (\<exists>s'' cur'' urls''.
            resolvePageUrl_resume (d_id cur) pg (Inr resp) s' = (Inr (pu_url resp), s'') \<and>
            pageCache s'' pg = Some \<lparr>pc_url = pu_url resp, pc_expiresAt = pu_expiresAt resp\<rparr> \<and>
            (\<forall>k. k \<noteq> pg \<longrightarrow> pageCache s'' k = pageCache s' k) \<and>
            current s'' = Some cur'' \<and> d_id cur'' = d_id cur \<and> d_pageUrls cur'' = Some urls'' \<and>
            arrayGet urls'' (pg - 1) = Some (pu_url resp))"
    using resume_same_doc[OF _ p(1)] by blast
  show ?thesis using p st hit static fetch store by blast
qed

text \<open>
  The claim as the specification words it sends a stale cache entry to the static list.
  The code does not: page 1 of \<open>doc1\<close> has a stale cache entry and a non-empty static
  URL, and the call goes to the network.
\<close>

theorem resolvePageUrl_cache_static_fetch_counterexample:
  "pageCache (cachedDoc1 (Some ''2025-01-01T00:00:00.000Z'')) 1
     = Some (signedEntry (Some ''2025-01-01T00:00:00.000Z'')) \<and>
   isExpired demoEnv 1735689600000 (pc_expiresAt (signedEntry (Some ''2025-01-01T00:00:00.000Z''))) 20 \<and>
   arrayGet [Some ''https://cdn.example/doc1/p1.png'', None, Some []] 0
     = Some ''https://cdn.example/doc1/p1.png'' \<and>
   d_pageUrls doc1 = Some [Some ''https://cdn.example/doc1/p1.png'', None, Some []] \<and>
   resolvePageUrl_start demoEnv 1735689600000 1 None (cachedDoc1 (Some ''2025-01-01T00:00:00.000Z''))
     = (Await ''doc1'' 1 None, cachedDoc1 (Some ''2025-01-01T00:00:00.000Z''))"
  by (simp add: resolvePageUrl_start_def cachedDoc1_def readingDoc1_def doc1_def signedEntry_def
      isExpired_def demoEnv_def arrayGet_def Let_def)

text \<open>
  Claim C5. A call that went to the network captured the open document's id. If, when
  the answer arrives, the store's current document is another one or none, the call
  raises \<open>Document changed\<close> and the store is exactly as it was at that moment: the page
  cache and the static list of whatever is open now are not touched.
\<close>

theorem resolvePageUrl_document_changed:
  assumes "resolvePageUrl_start E now n opts s = (Await docId pg o1, s1)"
      and "map_option d_id (current s') \<noteq> Some docId"
  shows "map_option d_id (current s) = Some docId \<and>
         resolvePageUrl_resume docId pg (Inr resp) s' = (Inl (Error ''Document changed''), s')"
proof -
  have "map_option d_id (current s) = Some docId"
    using assms(1)
    by (auto simp: resolvePageUrl_start_def Let_def split: option.splits if_splits)
  then show ?thesis using resume_changed[OF assms(2)] by simp
qed

theorem resolvePageUrl_document_changed_witness:
  "resolvePageUrl_start demoEnv 0 2 None readingDoc1 = (Await ''doc1'' 2 None, readingDoc1) \<and>
   current switchedToDoc2 = Some doc2 \<and>
   resolvePageUrl_resume ''doc1'' 2 (Inr signedResponse) switchedToDoc2
     = (Inl (Error ''Document changed''), switchedToDoc2) \<and>
   pageCache switchedToDoc2 2 = None \<and> d_pageUrls doc2 = None"
proof -
  have a: "resolvePageUrl_start demoEnv 0 2 None readingDoc1 = (Await ''doc1'' 2 None, readingDoc1)"
    by (simp add: resolvePageUrl_start_def readingDoc1_def doc1_def arrayGet_def Let_def)
  have b: "current switchedToDoc2 = Some doc2" "pageCache switchedToDoc2 2 = None"
    by (simp_all add: switchedToDoc2_def open_resume_def open_start_def Let_def)
  have c: "map_option d_id (current switchedToDoc2) \<noteq> Some ''doc1''" "d_pageUrls doc2 = None"
    by (simp_all add: b doc2_def)
  from a b c resolvePageUrl_document_changed [OF a c(1), of signedResponse]
  show ?thesis by simp
qed

text \<open>
  Claim C10. A cache entry whose \<open>expiresAt\<close> does not parse as a time is never stale:
  whatever the time of the call, the cached URL is returned, the store and the world are
  unchanged, and no network call is made.
\<close>

theorem unparseable_expiry_never_stale:
  assumes "current s = Some cur" and "pg = max 1 (min n (d_pages cur))"
      and "pageCache s pg = Some c" and "pc_expiresAt c = Some e" and "Date_parse E e = None"
  shows "\<not> isExpired E now (Some e) 20 \<and>
         resolvePageUrl_start E now n opts s = (Done (Inr (pc_url c)), s) \<and>
         resolvePageUrl E now n opts (s, w) = (Inr (pc_url c), s, w)"
proof -
  have a: "\<not> isExpired E now (Some e) 20" using assms(5) by (simp add: isExpired_def)
  have b: "resolvePageUrl_start E now n opts s = (Done (Inr (pc_url c)), s)"
    using start_hit[OF assms(1), of n c E now opts] a assms(3,4) unfolding assms(2) by simp
  show ?thesis using a b resolve_done[OF b, of w] by simp
qed

theorem unparseable_expiry_never_stale_witness:
  "Date_parse demoEnv ''next tuesday'' = None \<and>
   resolvePageUrl demoEnv 1735689600000 1 None (cachedDoc1 (Some ''next tuesday''), loggedIn)
     = (Inr ''https://signed.example/doc1/p1?sig=1'', cachedDoc1 (Some ''next tuesday''), loggedIn) \<and>
   resolvePageUrl demoEnv 99999999999999 1 None (cachedDoc1 (Some ''next tuesday''), loggedIn)
     = (Inr ''https://signed.example/doc1/p1?sig=1'', cachedDoc1 (Some ''next tuesday''), loggedIn)"
proof -
  let ?s = "cachedDoc1 (Some ''next tuesday'')"
  have a: "current ?s = Some doc1" "(1::int) = max 1 (min 1 (d_pages doc1))"
    "pageCache ?s 1 = Some (signedEntry (Some ''next tuesday''))"
    "pc_expiresAt (signedEntry (Some ''next tuesday'')) = Some ''next tuesday''"
    "Date_parse demoEnv ''next tuesday'' = None"
    "pc_url (signedEntry (Some ''next tuesday'')) = ''https://signed.example/doc1/p1?sig=1''"
    by (simp_all add: cachedDoc1_def readingDoc1_def doc1_def signedEntry_def demoEnv_def)
  from a
    unparseable_expiry_never_stale [OF a(1) a(2) a(3) a(4) a(5), of 1735689600000 None loggedIn]
    unparseable_expiry_never_stale [OF a(1) a(2) a(3) a(4) a(5), of 99999999999999 None loggedIn]
  show ?thesis by simp
qed

theorem resolvePageUrl_cache_static_fetch_witness:
  "resolvePageUrl demoEnv 0 1 None (cachedDoc1 (Some ''2025-01-01T00:00:00.000Z''), loggedIn)
     = (Inr ''https://signed.example/doc1/p1?sig=1'',
        cachedDoc1 (Some ''2025-01-01T00:00:00.000Z''), loggedIn) \<and>
   resolvePageUrl demoEnv 0 1 None (readingDoc1, loggedIn)
     = (Inr ''https://cdn.example/doc1/p1.png'',
        readingDoc1\<lparr>pageCache := (pageCache readingDoc1)
          (1 \<mapsto> \<lparr>pc_url = ''https://cdn.example/doc1/p1.png'', pc_expiresAt = None\<rparr>)\<rparr>,
        loggedIn) \<and>
   resolvePageUrl_start demoEnv 0 7 None readingDoc1 = (Await ''doc1'' 3 None, readingDoc1) \<and>
   resolvePageUrl_start demoEnv 1735689600000 (- 4) None
       (cachedDoc1 (Some ''2025-01-01T00:00:00.000Z''))
     = (Await ''doc1'' 1 None, cachedDoc1 (Some ''2025-01-01T00:00:00.000Z'')) \<and>
   (\<exists>s'' cur'' urls''.
      resolvePageUrl_resume ''doc1'' 3 (Inr signedResponse) readingDoc1
        = (Inr ''https://signed.example/doc1/p2?sig=2'', s'') \<and>
      pageCache s'' 3 = Some \<lparr>pc_url = ''https://signed.example/doc1/p2?sig=2'',
                              pc_expiresAt = Some ''2025-01-01T00:00:00.000Z''\<rparr> \<and>
      current s'' = Some cur'' \<and> d_pageUrls cur'' = Some urls'' \<and>
      arrayGet urls'' 2 = Some ''https://signed.example/doc1/p2?sig=2'')"
proof -
  let ?c = "cachedDoc1 (Some ''2025-01-01T00:00:00.000Z'')"
  let ?e = "signedEntry (Some ''2025-01-01T00:00:00.000Z'')"
  have cur: "current ?c = Some doc1" "current readingDoc1 = Some doc1" "1 \<le> d_pages doc1"
    "d_id doc1 = ''doc1''"
    by (simp_all add: cachedDoc1_def readingDoc1_def doc1_def)
  have pg: "(1::int) = max 1 (min 1 (d_pages doc1))" "(3::int) = max 1 (min 7 (d_pages doc1))"
    "(1::int) = max 1 (min (- 4) (d_pages doc1))"
    by (simp_all add: doc1_def)
  have cache: "pageCache ?c 1 = Some ?e" "pageCache readingDoc1 1 = None"
    "pageCache readingDoc1 3 = None" "pc_url ?e = ''https://signed.example/doc1/p1?sig=1''"
    by (simp_all add: cachedDoc1_def readingDoc1_def signedEntry_def)
  have fresh: "\<not> isExpired demoEnv 0 (pc_expiresAt ?e) 20"
    and stale: "isExpired demoEnv 1735689600000 (pc_expiresAt ?e) 20"
    by (simp_all add: isExpired_def signedEntry_def demoEnv_def)
  have static: "d_pageUrls doc1 = Some [Some ''https://cdn.example/doc1/p1.png'', None, Some []]"
    "arrayGet [Some ''https://cdn.example/doc1/p1.png'', None, Some []] (1 - 1)
       = Some ''https://cdn.example/doc1/p1.png''"
    "\<forall>urls u. d_pageUrls doc1 = Some urls \<and> arrayGet urls (3 - 1) = Some u \<longrightarrow> u = []"
    by (simp_all add: doc1_def arrayGet_def)
  have same: "map_option d_id (current readingDoc1) = Some (d_id doc1)"
    by (simp add: cur)
  have resp: "pu_url signedResponse = ''https://signed.example/doc1/p2?sig=2''"
    "pu_expiresAt signedResponse = Some ''2025-01-01T00:00:00.000Z''"
    by (simp_all add: signedResponse_def)
  note H = resolvePageUrl_cache_static_fetch [OF cur(1) cur(3) pg(1), of demoEnv 0 None loggedIn]
  note S = resolvePageUrl_cache_static_fetch [OF cur(2) cur(3) pg(1), of demoEnv 0 None loggedIn]
  note M = resolvePageUrl_cache_static_fetch [OF cur(2) cur(3) pg(2), of demoEnv 0 None loggedIn]
  note T = resolvePageUrl_cache_static_fetch [OF cur(1) cur(3) pg(3),
             of demoEnv 1735689600000 None loggedIn]
  note Hhit = H [THEN conjunct2, THEN conjunct2, THEN conjunct2, THEN conjunct1, rule_format]
  note Sstatic = S [THEN conjunct2, THEN conjunct2, THEN conjunct2, THEN conjunct2,
                    THEN conjunct1, rule_format]
  note Mfetch = M [THEN conjunct2, THEN conjunct2, THEN conjunct2, THEN conjunct2,
                   THEN conjunct2, THEN conjunct1, rule_format]
  note Mstore = M [THEN conjunct2, THEN conjunct2, THEN conjunct2, THEN conjunct2,
                   THEN conjunct2, THEN conjunct2, rule_format]
  note Tfetch = T [THEN conjunct2, THEN conjunct2, THEN conjunct2, THEN conjunct2,
                   THEN conjunct2, THEN conjunct1, rule_format]
  have h: "resolvePageUrl demoEnv 0 1 None (?c, loggedIn) = (Inr (pc_url ?e), ?c, loggedIn)"
    using Hhit [OF conjI [OF cache(1) fresh]] by (rule conjunct2)
  have s: "resolvePageUrl demoEnv 0 1 None (readingDoc1, loggedIn)
     = (Inr ''https://cdn.example/doc1/p1.png'',
        readingDoc1\<lparr>pageCache := (pageCache readingDoc1)
          (1 \<mapsto> \<lparr>pc_url = ''https://cdn.example/doc1/p1.png'', pc_expiresAt = None\<rparr>)\<rparr>,
        loggedIn)"
    using Sstatic [of "[Some ''https://cdn.example/doc1/p1.png'', None, Some []]"
                      "''https://cdn.example/doc1/p1.png''"] cache(2) static(1,2)
    by simp
  have m: "resolvePageUrl_start demoEnv 0 7 None readingDoc1 = (Await (d_id doc1) 3 None, readingDoc1)"
    using Mfetch [OF disjI2 [OF conjI [OF cache(3) static(3)]]] by (rule conjunct1)
  have t: "resolvePageUrl_start demoEnv 1735689600000 (- 4) None ?c = (Await (d_id doc1) 1 None, ?c)"
  proof -
    have ex: "\<exists>c. pageCache ?c 1 = Some c \<and> isExpired demoEnv 1735689600000 (pc_expiresAt c) 20"
      using cache(1) stale by blast
    show ?thesis using Tfetch [OF disjI1 [OF ex]] by (rule conjunct1)
  qed
  have r: "\<exists>s'' cur'' urls''.
      resolvePageUrl_resume (d_id doc1) 3 (Inr signedResponse) readingDoc1
        = (Inr (pu_url signedResponse), s'') \<and>
      pageCache s'' 3 = Some \<lparr>pc_url = pu_url signedResponse,
                              pc_expiresAt = pu_expiresAt signedResponse\<rparr> \<and>
      current s'' = Some cur'' \<and> d_pageUrls cur'' = Some urls'' \<and>
      arrayGet urls'' (3 - 1) = Some (pu_url signedResponse)"
    using Mstore [OF same, of signedResponse] by blast
  show ?thesis using h s m t r by (simp add: cur(4) cache(4) resp)
qed

section \<open>Properties of the resource endpoints\<close>

lemmas api_eval = api_get_def getJSON_def apiFetch_def readToken_def TokenStore_get_def
  getAccessToken_def getItemAsync_def retryOn401Step_def backoff.simps finish_def
  fetchWithTimeout_def fetch_def safeJson_def ok_def configuredRetries_def
  withGetDefaults_def mergeOptions_def pageUrlOptions_def isHints_def

lemmas shape_eval = envShapes_def demoEnv_def shapeBody_def loggedIn_def idle_def
  webMemoryStore_def Let_def

lemma parseOrThrow_result:
  "fst (parseOrThrow E schema data url w)
     = (case schema data of
          Inr v \<Rightarrow> Inr v
        | Inl issues \<Rightarrow>
            Inl (APIError ''Invalid API response shape'' 200 url (Some (diagnostics issues))))"
  by (simp add: parseOrThrow_def split: sum.splits)

lemma parseOrThrow_fails:
  "schema data = Inl issues \<Longrightarrow>
   parseOrThrow E schema data url w
     = (Inl (APIError ''Invalid API response shape'' 200 url (Some (diagnostics issues))),
        if DEV E then w\<lparr>events := events w @ [ConsoleError url issues]\<rparr> else w)"
  by (simp add: parseOrThrow_def)

lemma listPdfs_pipeline:
  assumes "api_get E (listPath E cursor q category tag sortBy) (withGetDefaults opts None) w
             = (Inr raw, w1)"
  shows "fst (listPdfs E cursor q category tag sortBy opts w)
     = (case ListResponseSchema E raw of
          Inr v \<Rightarrow> Inr v
        | Inl i1 \<Rightarrow>
            (case ListResponseSchema E (normalizeListResponse E raw) of
               Inr v \<Rightarrow> Inr v
             | Inl i2 \<Rightarrow>
                 (case ListResponseSchema E (fallbackListResponse E raw) of
                    Inr v \<Rightarrow> Inr v
                  | Inl i3 \<Rightarrow>
                      Inl (APIError ''Invalid API response shape'' 200
                             (listPath E cursor q category tag sortBy)
                             (Some (diagnostics i3))))))"
  using assms
  by (simp add: listPdfs_def Let_def parseOrThrow_def split: sum.splits)

lemma getPdfDetail_pipeline:
  assumes "api_get E (detailPath E docId) (withGetDefaults opts None) w = (Inr raw, w1)"
  shows "fst (getPdfDetail E docId opts w)
     = (case PdfDetailSchema raw of
          Inr v \<Rightarrow> Inr v
        | Inl i1 \<Rightarrow>
            (case PdfDetailSchema (normalizeDetail E raw) of
               Inr v \<Rightarrow> Inr v
             | Inl i2 \<Rightarrow>
                 Inl (APIError ''Invalid API response shape'' 200 (detailPath E docId)
                        (Some (diagnostics i2)))))"
  using assms
  by (simp add: getPdfDetail_def Let_def parseOrThrow_def isAPIError_def split: sum.splits)

lemma getPageUrl_pipeline:
  assumes "isFinite pg" "\<not> js_lt pg (Fin 1)"
      and "api_get E (pageUrlPath E docId pg hintsOrOpts) (pageUrlOptions hintsOrOpts maybeOpts) w
             = (Inr raw, w1)"
  shows "getPageUrl E docId pg hintsOrOpts maybeOpts w
           = parseOrThrow E (PageUrlSchema E) raw (pageUrlPath E docId pg hintsOrOpts) w1"
  using assms by (simp add: getPageUrl_def Let_def)

lemma searchPdf_pipeline:
  assumes "api_get E (searchPath E docId q) (withGetDefaults opts None) w = (Inr raw, w1)"
  shows "searchPdf E docId q opts w
           = parseOrThrow E SearchResponseSchema raw (searchPath E docId q) w1"
  using assms by (simp add: searchPdf_def Let_def)

text \<open>
  Claim C7, as the code has it. Take a response that fails strict validation. The list
  endpoint validates the normalized response, then a defensively coerced one, and raises
  only when all three validations fail, with the diagnostics of the last. The detail
  endpoint validates the normalized response and raises with that validation's
  diagnostics when it fails too. The page-url and search endpoints have no normalization:
  they raise at once, with the diagnostics of the strict validation. The error is always
  the \<open>APIError\<close> with status 200 and the endpoint's path. Whatever an endpoint returns
  came out of a successful validation, of the response or (list, detail) of its normalized
  form.
\<close>

theorem validation_then_normalization:
  "(api_get E (listPath E cursor q category tag sortBy) (withGetDefaults opts None) w
      = (Inr rawL, wL) \<longrightarrow>
      (\<forall>i1. ListResponseSchema E rawL = Inl i1 \<longrightarrow>
         fst (listPdfs E cursor q category tag sortBy opts w)
           = (case ListResponseSchema E (normalizeListResponse E rawL) of
                Inr v \<Rightarrow> Inr v
              | Inl i2 \<Rightarrow>
                  (case ListResponseSchema E (fallbackListResponse E rawL) of
                     Inr v \<Rightarrow> Inr v
                   | Inl i3 \<Rightarrow>
                       Inl (APIError ''Invalid API response shape'' 200
                              (listPath E cursor q category tag sortBy)
                              (Some (diagnostics i3)))))) \<and>
      (\<forall>v. fst (listPdfs E cursor q category tag sortBy opts w) = Inr v \<longrightarrow>
         ListResponseSchema E rawL = Inr v \<or>
         ListResponseSchema E (normalizeListResponse E rawL) = Inr v \<or>
         ListResponseSchema E (fallbackListResponse E rawL) = Inr v)) \<and>
   (api_get E (detailPath E docId) (withGetDefaults opts None) w = (Inr rawD, wD) \<longrightarrow>
      (\<forall>i1. PdfDetailSchema rawD = Inl i1 \<longrightarrow>
         fst (getPdfDetail E docId opts w)
           = (case PdfDetailSchema (normalizeDetail E rawD) of
                Inr v \<Rightarrow> Inr v
              | Inl i2 \<Rightarrow>
                  Inl (APIError ''Invalid API response shape'' 200 (detailPath E docId)
                         (Some (diagnostics i2))))) \<and>
      (\<forall>v. fst (getPdfDetail E docId opts w) = Inr v \<longrightarrow>
         PdfDetailSchema rawD = Inr v \<or> PdfDetailSchema (normalizeDetail E rawD) = Inr v)) \<and>
   (isFinite pg \<and> \<not> js_lt pg (Fin 1) \<and>
    api_get E (pageUrlPath E docId pg hintsOrOpts) (pageUrlOptions hintsOrOpts maybeOpts) w
      = (Inr rawP, wP) \<longrightarrow>
      (\<forall>i1. PageUrlSchema E rawP = Inl i1 \<longrightarrow>
         getPageUrl E docId pg hintsOrOpts maybeOpts w
           = (Inl (APIError ''Invalid API response shape'' 200
                     (pageUrlPath E docId pg hintsOrOpts) (Some (diagnostics i1))),
              if DEV E
              then wP\<lparr>events := events wP
                        @ [ConsoleError (pageUrlPath E docId pg hintsOrOpts) i1]\<rparr>
              else wP)) \<and>
      (\<forall>v. fst (getPageUrl E docId pg hintsOrOpts maybeOpts w) = Inr v \<longrightarrow>
         PageUrlSchema E rawP = Inr v)) \<and>
   (api_get E (searchPath E docId term) (withGetDefaults opts None) w = (Inr rawS, wS) \<longrightarrow>
      (\<forall>i1. SearchResponseSchema rawS = Inl i1 \<longrightarrow>
         searchPdf E docId term opts w
           = (Inl (APIError ''Invalid API response shape'' 200 (searchPath E docId term)
                     (Some (diagnostics i1))),
              if DEV E
              then wS\<lparr>events := events wS @ [ConsoleError (searchPath E docId term) i1]\<rparr>
              else wS)) \<and>
      (\<forall>v. fst (searchPdf E docId term opts w) = Inr v \<longrightarrow> SearchResponseSchema rawS = Inr v))"
proof (intro conjI impI)
  assume a: "api_get E (listPath E cursor q category tag sortBy) (withGetDefaults opts None) w
      = (Inr rawL, wL)"
  show "\<forall>i1. ListResponseSchema E rawL = Inl i1 \<longrightarrow>
         fst (listPdfs E cursor q category tag sortBy opts w)
           = (case ListResponseSchema E (normalizeListResponse E rawL) of
                Inr v \<Rightarrow> Inr v
              | Inl i2 \<Rightarrow>
                  (case ListResponseSchema E (fallbackListResponse E rawL) of
                     Inr v \<Rightarrow> Inr v
                   | Inl i3 \<Rightarrow>
                       Inl (APIError ''Invalid API response shape'' 200
                              (listPath E cursor q category tag sortBy)
                              (Some (diagnostics i3)))))"
    by (simp add: listPdfs_pipeline [OF a])
  show "\<forall>v. fst (listPdfs E cursor q category tag sortBy opts w) = Inr v \<longrightarrow>
         ListResponseSchema E rawL = Inr v \<or>
         ListResponseSchema E (normalizeListResponse E rawL) = Inr v \<or>
         ListResponseSchema E (fallbackListResponse E rawL) = Inr v"
    by (auto simp: listPdfs_pipeline [OF a] split: sum.splits)
next
  assume a: "api_get E (detailPath E docId) (withGetDefaults opts None) w = (Inr rawD, wD)"
  show "\<forall>i1. PdfDetailSchema rawD = Inl i1 \<longrightarrow>
         fst (getPdfDetail E docId opts w)
           = (case PdfDetailSchema (normalizeDetail E rawD) of
                Inr v \<Rightarrow> Inr v
              | Inl i2 \<Rightarrow>
                  Inl (APIError ''Invalid API response shape'' 200 (detailPath E docId)
                         (Some (diagnostics i2))))"
    by (simp add: getPdfDetail_pipeline [OF a])
  show "\<forall>v. fst (getPdfDetail E docId opts w) = Inr v \<longrightarrow>
         PdfDetailSchema rawD = Inr v \<or> PdfDetailSchema (normalizeDetail E rawD) = Inr v"
    by (auto simp: getPdfDetail_pipeline [OF a] split: sum.splits)
next
  assume a: "isFinite pg \<and> \<not> js_lt pg (Fin 1) \<and>
    api_get E (pageUrlPath E docId pg hintsOrOpts) (pageUrlOptions hintsOrOpts maybeOpts) w
      = (Inr rawP, wP)"
  note p = getPageUrl_pipeline [OF conjunct1 [OF a] conjunct1 [OF conjunct2 [OF a]]
             conjunct2 [OF conjunct2 [OF a]]]
  show "\<forall>i1. PageUrlSchema E rawP = Inl i1 \<longrightarrow>
         getPageUrl E docId pg hintsOrOpts maybeOpts w
           = (Inl (APIError ''Invalid API response shape'' 200
                     (pageUrlPath E docId pg hintsOrOpts) (Some (diagnostics i1))),
              if DEV E
              then wP\<lparr>events := events wP
                        @ [ConsoleError (pageUrlPath E docId pg hintsOrOpts) i1]\<rparr>
              else wP)"
    by (simp add: p parseOrThrow_fails)
  show "\<forall>v. fst (getPageUrl E docId pg hintsOrOpts maybeOpts w) = Inr v \<longrightarrow>
         PageUrlSchema E rawP = Inr v"
    by (auto simp: p parseOrThrow_result split: sum.splits)
next
  assume a: "api_get E (searchPath E docId term) (withGetDefaults opts None) w = (Inr rawS, wS)"
  note p = searchPdf_pipeline [OF a]
  show "\<forall>i1. SearchResponseSchema rawS = Inl i1 \<longrightarrow>
         searchPdf E docId term opts w
           = (Inl (APIError ''Invalid API response shape'' 200 (searchPath E docId term)
                     (Some (diagnostics i1))),
              if DEV E
              then wS\<lparr>events := events wS @ [ConsoleError (searchPath E docId term) i1]\<rparr>
              else wS)"
    by (simp add: p parseOrThrow_fails)
  show "\<forall>v. fst (searchPdf E docId term opts w) = Inr v \<longrightarrow> SearchResponseSchema rawS = Inr v"
    by (auto simp: p parseOrThrow_result split: sum.splits)
qed

lemmas schema_eval = ListResponseSchema_def PdfItemSchema_def PdfDetailSchema_def
  PageUrlSchema_def SearchResponseSchema_def SearchHitSchema_def arrayOf_def indexed_def
  required_def optional_def nullableOptional_def minString_def positiveInt_def stringOf_def
  stringArray_def urlArray_def datetimeString_def UrlLike_def isRecord_def getProp_def
  isInteger_def showInt_def decimal.simps digitChar_def

lemmas normalize_eval = normalizeListResponse_def normalizeItemLike_def normalizeDetail_def
  fallbackListResponse_def coerceItem_def coerceId_def asRecord_def normTitle_def
  normPages_def normTags_def spreadCategory_def spreadTags_def spreadNextCursor_def
  itemsIn_def nullish_def nonEmptyString_def isStringArray_def

lemma shape_paths:
  "listPath envShapes None None None None None = ''/pdfs''"
  "detailPath envShapes ''doc1'' = ''/pdfs/doc1''"
  "pageUrlPath envShapes ''doc1'' (Fin 2) None = ''/pdfs/doc1/pages/2/url''"
  "searchPath envShapes ''doc1'' ''algo'' = ''/pdfs/doc1/search?q=algo''"
  by (simp_all add: listPath_def detailPath_def pageUrlPath_def searchPath_def qs_def qstr_def
      qnum_def qvString_def clampInt_def clampQuality_def shape_eval showInt_def decimal.simps
      digitChar_def)

lemma shape_api:
  "fst (api_get envShapes ''/pdfs'' (withGetDefaults None None) loggedIn) = Inr rawList"
  "fst (api_get envShapes ''/pdfs/doc1'' (withGetDefaults None None) loggedIn) = Inr rawDetail"
  "fst (api_get envShapes ''/pdfs/doc1/pages/2/url'' (pageUrlOptions None None) loggedIn)
     = Inr rawPageUrl"
  "fst (api_get envShapes ''/pdfs/doc1/search?q=algo'' (withGetDefaults None None) loggedIn)
     = Inr rawHits"
  by (simp_all add: api_eval shape_eval request_eval)

lemma shape_strict:
  "ListResponseSchema envShapes rawList
     = Inl [''items.0.id'', ''items.0.title'', ''items.0.pages'', ''items.0.updatedAt'']"
  "PdfDetailSchema rawDetail = Inl [''id'', ''title'', ''pages'']"
  "PageUrlSchema envShapes rawPageUrl = Inl [''url'']"
  "SearchResponseSchema rawHits = Inl [''hits.0.page'']"
  by (simp_all add: schema_eval rawList_def rawDetail_def rawPageUrl_def rawHits_def Let_def)

lemma shape_normalized:
  "ListResponseSchema envShapes (normalizeListResponse envShapes rawList)
     = Inr \<lparr>items = [\<lparr>i_id = ''a1'', i_title = ''X'', i_pages = 3, i_coverUrl = None,
                        i_category = None, i_tags = [],
                        i_updatedAt = ''2025-01-01T00:00:00.000Z''\<rparr>],
            nextCursor = None\<rparr>"
  "PdfDetailSchema (normalizeDetail envShapes rawDetail)
     = Inr \<lparr>d_id = ''doc1'', d_title = ''Algorithms Illustrated'', d_pages = 3,
            d_category = None, d_tags = [], d_pageUrls = None\<rparr>"
  by (simp_all add: schema_eval normalize_eval rawList_def rawDetail_def shape_eval)

theorem validation_then_normalization_witness:
  "fst (listPdfs envShapes None None None None None None loggedIn)
     = Inr \<lparr>items = [\<lparr>i_id = ''a1'', i_title = ''X'', i_pages = 3, i_coverUrl = None,
                        i_category = None, i_tags = [],
                        i_updatedAt = ''2025-01-01T00:00:00.000Z''\<rparr>],
            nextCursor = None\<rparr> \<and>
   fst (getPdfDetail envShapes ''doc1'' None loggedIn)
     = Inr \<lparr>d_id = ''doc1'', d_title = ''Algorithms Illustrated'', d_pages = 3,
            d_category = None, d_tags = [], d_pageUrls = None\<rparr> \<and>
   fst (getPageUrl envShapes ''doc1'' (Fin 2) None None loggedIn)
     = Inl (APIError ''Invalid API response shape'' 200 ''/pdfs/doc1/pages/2/url''
              (Some (JArr [JStr ''url'']))) \<and>
   fst (searchPdf envShapes ''doc1'' ''algo'' None loggedIn)
     = Inl (APIError ''Invalid API response shape'' 200 ''/pdfs/doc1/search?q=algo''
              (Some (JArr [JStr ''hits.0.page''])))"
proof -
  let ?wL = "snd (api_get envShapes ''/pdfs'' (withGetDefaults None None) loggedIn)"
  let ?wD = "snd (api_get envShapes ''/pdfs/doc1'' (withGetDefaults None None) loggedIn)"
  let ?wP = "snd (api_get envShapes ''/pdfs/doc1/pages/2/url'' (pageUrlOptions None None) loggedIn)"
  let ?wS = "snd (api_get envShapes ''/pdfs/doc1/search?q=algo'' (withGetDefaults None None) loggedIn)"
  have aL: "api_get envShapes (listPath envShapes None None None None None)
              (withGetDefaults None None) loggedIn = (Inr rawList, ?wL)"
    unfolding shape_paths using shape_api(1) by (rule pair_snd)
  have aD: "api_get envShapes (detailPath envShapes ''doc1'') (withGetDefaults None None) loggedIn
              = (Inr rawDetail, ?wD)"
    unfolding shape_paths using shape_api(2) by (rule pair_snd)
  have aP: "isFinite (Fin 2) \<and> \<not> js_lt (Fin 2) (Fin 1) \<and>
            api_get envShapes (pageUrlPath envShapes ''doc1'' (Fin 2) None)
              (pageUrlOptions None None) loggedIn = (Inr rawPageUrl, ?wP)"
    unfolding shape_paths using shape_api(3) by (simp add: isFinite_def pair_snd)
  have aS: "api_get envShapes (searchPath envShapes ''doc1'' ''algo'') (withGetDefaults None None)
              loggedIn = (Inr rawHits, ?wS)"
    unfolding shape_paths using shape_api(4) by (rule pair_snd)
  note T = validation_then_normalization
             [of envShapes None None None None None None loggedIn rawList ?wL
                 "''doc1''" rawDetail ?wD "Fin 2" None None rawPageUrl ?wP
                 "''algo''" rawHits ?wS]
  note TL = T [THEN conjunct1, rule_format, OF aL, THEN conjunct1, rule_format, OF shape_strict(1)]
  note TD = T [THEN conjunct2, THEN conjunct1, rule_format, OF aD, THEN conjunct1, rule_format,
               OF shape_strict(2)]
  note TP = T [THEN conjunct2, THEN conjunct2, THEN conjunct1, rule_format, OF aP,
               THEN conjunct1, rule_format, OF shape_strict(3)]
  note TS = T [THEN conjunct2, THEN conjunct2, THEN conjunct2, rule_format, OF aS,
               THEN conjunct1, rule_format, OF shape_strict(4)]
  show ?thesis
    by (simp add: TL TD TP TS shape_normalized shape_paths diagnostics_def)
qed

text \<open>
  The claim as the specification words it fails for the search endpoint (and likewise for
  the page-url endpoint): the response \<open>{hits: [{page: "3"}]}\<close> fails strict validation,
  and the endpoint raises with that validation's diagnostics after this one validation,
  the only one the development build reports. There is no normalization pass and no
  second validation.
\<close>

theorem validation_then_normalization_counterexample:
  "SearchResponseSchema rawHits = Inl [''hits.0.page''] \<and>
   fst (searchPdf envShapes ''doc1'' ''algo'' None loggedIn)
     = Inl (APIError ''Invalid API response shape'' 200 ''/pdfs/doc1/search?q=algo''
              (Some (JArr [JStr ''hits.0.page'']))) \<and>
   filter isConsoleError (events (snd (searchPdf envShapes ''doc1'' ''algo'' None loggedIn)))
     = [ConsoleError ''/pdfs/doc1/search?q=algo'' [''hits.0.page'']]"
proof -
  have a: "api_get envShapes ''/pdfs/doc1/search?q=algo'' (withGetDefaults None None) loggedIn
             = (Inr rawHits,
                loggedIn\<lparr>events := [Fetch (pdfsRequest ''GET''
                   \<lparr>req_url := ''https://api.example/v1/pdfs/doc1/search?q=algo''\<rparr>) (Some 20000)]\<rparr>)"
    by (simp add: api_eval shape_eval request_eval pdfsRequest_def)
  have dev: "DEV envShapes"
    by (simp add: envShapes_def)
  show ?thesis
    by (simp add: searchPdf_def shape_paths a parseOrThrow_def shape_strict diagnostics_def
        isConsoleError_def dev Let_def)
qed

end
